theory Spec2Isabelle
  imports Complex_Main
begin

section \<open>Python values\<close>

text \<open>
  The functions of \<^verbatim>\<open>backend/utils/pod_utils.py\<close> work on JSON-shaped Python values:
  \<^verbatim>\<open>None\<close>, booleans, numbers, strings, lists and dictionaries with string keys.
  Python's \<^verbatim>\<open>int\<close> and \<^verbatim>\<open>float\<close> are both \<open>JNum\<close>; floating-point arithmetic is
  idealised as arithmetic on the reals (no rounding error, no infinities, no NaN).
  A dictionary is an association list in insertion order whose lookup takes the first
  entry of a key.
\<close>

datatype json =
    JNone
  | JBool bool
  | JNum real
  | JStr string
  | JList "json list"
  | JDict "(string \<times> json) list"

datatype exn =
    AttributeError | TypeError | ValueError | KeyError | ZeroDivisionError | RecursionError

text \<open>Truth value of a Python object (\<^verbatim>\<open>bool(x)\<close>, \<^verbatim>\<open>if x\<close>, \<^verbatim>\<open>not x\<close>).\<close>

fun truthy :: "json \<Rightarrow> bool" where
  "truthy JNone = False"
| "truthy (JBool b) = b"
| "truthy (JNum x) = (x \<noteq> 0)"
| "truthy (JStr s) = (s \<noteq> [])"
| "truthy (JList xs) = (xs \<noteq> [])"
| "truthy (JDict kvs) = (kvs \<noteq> [])"

text \<open>The number a value stands for in comparisons and arithmetic: \<^verbatim>\<open>bool\<close> is a subclass
  of \<^verbatim>\<open>int\<close>, every other non-number raises \<^verbatim>\<open>TypeError\<close> there.\<close>

fun num_of :: "json \<Rightarrow> real option" where
  "num_of (JNum x) = Some x"
| "num_of (JBool b) = Some (if b then 1 else 0)"
| "num_of _ = None"

section \<open>Odds arithmetic\<close>

text \<open>Python's \<^verbatim>\<open>round(x)\<close> with one argument: to the nearest integer, ties to even.\<close>

definition py_round :: "real \<Rightarrow> int" where
  "py_round x =
     (let f = \<lfloor>x\<rfloor>; d = x - of_int f
      in if d < 1/2 then f else if 1/2 < d then f + 1 else if even f then f else f + 1)"

text \<open>\<^verbatim>\<open>round(x, n)\<close>: to \<open>n\<close> decimal places.\<close>

definition py_round_to :: "real \<Rightarrow> nat \<Rightarrow> real" where
  "py_round_to x n = of_int (py_round (x * 10 ^ n)) / 10 ^ n"

text \<open>\<^verbatim>\<open>str(n)\<close> of an integer: decimal digits, a minus sign for negatives.\<close>

definition digit_char :: "nat \<Rightarrow> char" where
  "digit_char d = ''0123456789'' ! d"

function str_nat :: "nat \<Rightarrow> string" where
  "str_nat n = (if n < 10 then [digit_char n] else str_nat (n div 10) @ [digit_char (n mod 10)])"
  by pat_completeness auto
termination
  by (relation "measure id") auto

definition py_str_int :: "int \<Rightarrow> string" where
  "py_str_int i = (if i < 0 then CHR ''-'' # str_nat (nat (- i)) else str_nat (nat i))"

text \<open>Characters: ASCII only. \<^verbatim>\<open>str.strip()\<close>, \<^verbatim>\<open>str.split()\<close> and the regex class
  \<^verbatim>\<open>\s\<close> agree on the ASCII whitespace characters 9-13, 28-31 and 32.\<close>

definition is_space :: "char \<Rightarrow> bool" where
  "is_space c = (let n = of_char c :: nat in (9 \<le> n \<and> n \<le> 13) \<or> (28 \<le> n \<and> n \<le> 32))"

definition is_digit :: "char \<Rightarrow> bool" where
  "is_digit c = (let n = of_char c :: nat in 48 \<le> n \<and> n \<le> 57)"

definition lstrip :: "string \<Rightarrow> string" where
  "lstrip s = dropWhile is_space s"

definition rstrip :: "string \<Rightarrow> string" where
  "rstrip s = rev (dropWhile is_space (rev s))"

definition strip :: "string \<Rightarrow> string" where
  "strip s = rstrip (lstrip s)"

text \<open>The value of a string of decimal digits.\<close>

definition digits_val :: "string \<Rightarrow> nat" where
  "digits_val ds = foldl (\<lambda>acc c. 10 * acc + (of_char c - 48)) 0 ds"

text \<open>
  \<^verbatim>\<open>re.match(r"^[+-]?\d+$", s)\<close> followed by \<^verbatim>\<open>float(s)\<close>, on a stripped string: the
  value of an optionally signed run of digits, \<open>None\<close> where the pattern does not match.
\<close>

definition signed_digits :: "string \<Rightarrow> int option" where
  "signed_digits s =
     (let (neg, ds) = (case s of
                          c # r \<Rightarrow> if c = CHR ''-'' then (True, r)
                                   else if c = CHR ''+'' then (False, r) else (False, s)
                        | [] \<Rightarrow> (False, s))
      in if ds \<noteq> [] \<and> list_all is_digit ds
         then Some (if neg then - int (digits_val ds) else int (digits_val ds))
         else None)"

text \<open>
  \<^verbatim>\<open>american_to_decimal\<close> (pod_utils.py, lines 17-31). A string must be an optionally
  signed integer; every other value goes through \<^verbatim>\<open>float(str(x).strip())\<close>, which is the
  number itself for a number and raises \<^verbatim>\<open>ValueError\<close> (caught, giving \<^verbatim>\<open>None\<close>) for a
  boolean, a list or a dictionary, whose \<^verbatim>\<open>str\<close> is no float literal.
\<close>

definition odds_to_decimal :: "real \<Rightarrow> real option" where
  "odds_to_decimal odds =
     (if 0 < odds then Some (odds / 100 + 1)
      else if odds < 0 then Some (100 / \<bar>odds\<bar> + 1)
      else None)"

fun american_to_decimal :: "json \<Rightarrow> real option" where
  "american_to_decimal JNone = None"
| "american_to_decimal (JStr s) =
     (case signed_digits (strip s) of
        None \<Rightarrow> None
      | Some i \<Rightarrow> odds_to_decimal (of_int i))"
| "american_to_decimal (JNum x) = odds_to_decimal x"
| "american_to_decimal (JBool b) = None"
| "american_to_decimal (JList xs) = None"
| "american_to_decimal (JDict kvs) = None"

text \<open>
  \<^verbatim>\<open>decimal_to_american\<close> (lines 33-41). The result is a string: the rounded integer,
  with an explicit plus sign when the decimal price is at least 2.
\<close>

fun decimal_to_american :: "json \<Rightarrow> string option" where
  "decimal_to_american (JNum d) =
     (if d \<le> 10001 / 10000 then None
      else if 2 \<le> d then Some (CHR ''+'' # py_str_int (py_round ((d - 1) * 100)))
      else Some (py_str_int (py_round (- 100 / (d - 1)))))"
| "decimal_to_american (JBool b) = None"
| "decimal_to_american _ = None"

text \<open>An \<^verbatim>\<open>Optional[float]\<close> as a Python value.\<close>

fun opt_num :: "real option \<Rightarrow> json" where
  "opt_num None = JNone"
| "opt_num (Some x) = JNum x"

text \<open>
  \<^verbatim>\<open>calculate_ev\<close> (lines 43-47). The guard is evaluated left to right and stops at the
  first true disjunct; \<^verbatim>\<open>x <= 0\<close> raises \<^verbatim>\<open>TypeError\<close> on a non-number.
\<close>

definition le_zero :: "json \<Rightarrow> exn + bool" where
  "le_zero v = (case num_of v of None \<Rightarrow> Inl TypeError | Some x \<Rightarrow> Inr (x \<le> 0))"

definition calculate_ev :: "json \<Rightarrow> json \<Rightarrow> exn + json" where
  "calculate_ev bet_decimal true_decimal =
     (if \<not> truthy bet_decimal \<or> \<not> truthy true_decimal then Inr (JNum 0)
      else case le_zero bet_decimal of
             Inl e \<Rightarrow> Inl e
           | Inr True \<Rightarrow> Inr (JNum 0)
           | Inr False \<Rightarrow>
               (case le_zero true_decimal of
                  Inl e \<Rightarrow> Inl e
                | Inr True \<Rightarrow> Inr (JNum 0)
                | Inr False \<Rightarrow>
                    (case (num_of bet_decimal, num_of true_decimal) of
                       (Some b, Some t) \<Rightarrow> Inr (JNum (b / t - 1))
                     | _ \<Rightarrow> Inl TypeError)))"

section \<open>No-vig prices\<close>

text \<open>
  \<^verbatim>\<open>adjust_power_probabilities\<close> (lines 49-94). The probabilities kept are positive, so
  \<^verbatim>\<open>math.pow(p, k)\<close> is \<open>p powr k\<close> and \<^verbatim>\<open>math.log(p)\<close> is \<open>ln p\<close>, and neither raises.
  The loop runs at most \<^verbatim>\<open>max_iterations\<close> times and yields the exponent \<open>k\<close>.
\<close>

fun power_iterate :: "nat \<Rightarrow> real \<Rightarrow> real \<Rightarrow> real list \<Rightarrow> real" where
  "power_iterate 0 tolerance k ps = k"
| "power_iterate (Suc n) tolerance k ps =
     (let sum_powered_probs = sum_list (map (\<lambda>p. p powr k) ps)
      in if sum_powered_probs = 0 then k
         else let overround_metric = sum_powered_probs - 1
              in if \<bar>overround_metric\<bar> < tolerance then k
                 else let derivative = sum_list (map (\<lambda>p. p powr k * ln p) ps)
                      in if \<bar>derivative\<bar> < 1 / 10 ^ 9 then k
                         else power_iterate n tolerance (k - overround_metric / derivative) ps)"

definition adjust_power_probabilities :: "real option list \<Rightarrow> real list" where
  "adjust_power_probabilities probabilities =
     (let valid_probs_for_power = [p. Some p \<leftarrow> probabilities, 0 < p]
      in if length valid_probs_for_power < 2
         then replicate (length valid_probs_for_power) 0
         else let k = power_iterate 100 (1 / 10 ^ 4) 1 valid_probs_for_power;
                  final_powered_probs = map (\<lambda>p. p powr k) valid_probs_for_power;
                  sum_final_powered_probs = sum_list final_powered_probs
              in if sum_final_powered_probs = 0
                 then replicate (length valid_probs_for_power)
                        (1 / real (length valid_probs_for_power))
                 else map (\<lambda>p_pow. p_pow / sum_final_powered_probs) final_powered_probs)"

text \<open>
  \<^verbatim>\<open>calculate_nvp_for_market\<close> (lines 96-122). An entry is valid when it is a number
  greater than 1.0001 (\<^verbatim>\<open>True\<close> counts as the number 1 and is never valid).
\<close>

definition valid_odd :: "json \<Rightarrow> bool" where
  "valid_odd v = (case num_of v of None \<Rightarrow> False | Some x \<Rightarrow> 10001 / 10000 < x)"

definition odd_value :: "json \<Rightarrow> real" where
  "odd_value v = (case num_of v of None \<Rightarrow> 0 | Some x \<Rightarrow> x)"

definition valid_odds_indices :: "json list \<Rightarrow> nat list" where
  "valid_odds_indices odds_list = [i. i \<leftarrow> [0..<length odds_list], valid_odd (odds_list ! i)]"

text \<open>The final loop: the i-th price goes to the i-th valid index, while there are prices.\<close>

fun place_nvps :: "real option list \<Rightarrow> nat list \<Rightarrow> real option list \<Rightarrow> real option list" where
  "place_nvps final_nvp_list [] nvps = final_nvp_list"
| "place_nvps final_nvp_list (original_idx # idxs) [] = final_nvp_list"
| "place_nvps final_nvp_list (original_idx # idxs) (v # nvps) =
     place_nvps (final_nvp_list[original_idx := v]) idxs nvps"

definition calculate_nvp_for_market :: "json list \<Rightarrow> real option list" where
  "calculate_nvp_for_market odds_list =
     (let idxs = valid_odds_indices odds_list
      in if length idxs < 2 then replicate (length odds_list) None
         else let current_valid_odds = map (\<lambda>i. odd_value (odds_list ! i)) idxs
              in if list_ex (\<lambda>x. x = 0) current_valid_odds
                 then replicate (length odds_list) None
                 else let implied_probs = map (\<lambda>x. 1 / x) current_valid_odds
                      in if sum_list implied_probs = 0 then replicate (length odds_list) None
                         else let nvps_for_valid =
                                    (if sum_list implied_probs \<le> 10001 / 10000
                                     then map Some current_valid_odds
                                     else map (\<lambda>p. if 1 / 10 ^ 9 < p
                                                     then Some (py_round_to (1 / p) 3) else None)
                                            (adjust_power_probabilities (map Some implied_probs)))
                              in place_nvps (replicate (length odds_list) None) idxs nvps_for_valid)"


section \<open>Python operations on values\<close>

text \<open>Evaluation that may raise: \<open>Inl e\<close> is the exception \<open>e\<close>.\<close>

definition ebind :: "exn + 'a \<Rightarrow> ('a \<Rightarrow> exn + 'b) \<Rightarrow> exn + 'b" where
  "ebind m f = (case m of Inl e \<Rightarrow> Inl e | Inr v \<Rightarrow> f v)"

text \<open>\<^verbatim>\<open>d.get(k, default)\<close>: only a dictionary has the method.\<close>

definition py_get :: "json \<Rightarrow> string \<Rightarrow> json \<Rightarrow> exn + json" where
  "py_get d k dflt =
     (case d of
        JDict kvs \<Rightarrow> Inr (case map_of kvs k of Some v \<Rightarrow> v | None \<Rightarrow> dflt)
      | _ \<Rightarrow> Inl AttributeError)"

text \<open>\<^verbatim>\<open>d.get(k)\<close>, with default \<^verbatim>\<open>None\<close>.\<close>

definition get0 :: "json \<Rightarrow> string \<Rightarrow> exn + json" where
  "get0 d k = py_get d k JNone"

text \<open>\<^verbatim>\<open>d[k]\<close> with a string key.\<close>

definition py_index :: "json \<Rightarrow> string \<Rightarrow> exn + json" where
  "py_index d k =
     (case d of
        JDict kvs \<Rightarrow> (case map_of kvs k of Some v \<Rightarrow> Inr v | None \<Rightarrow> Inl KeyError)
      | _ \<Rightarrow> Inl TypeError)"

text \<open>\<^verbatim>\<open>d.items()\<close>.\<close>

definition py_items :: "json \<Rightarrow> exn + (string \<times> json) list" where
  "py_items d = (case d of JDict kvs \<Rightarrow> Inr kvs | _ \<Rightarrow> Inl AttributeError)"

text \<open>The elements a \<^verbatim>\<open>for\<close> loop draws from a value: the items of a list, the keys of
  a dictionary, the characters of a string; anything else is not iterable.\<close>

definition py_iter :: "json \<Rightarrow> exn + json list" where
  "py_iter v =
     (case v of
        JList xs \<Rightarrow> Inr xs
      | JDict kvs \<Rightarrow> Inr (map (\<lambda>kv. JStr (fst kv)) kvs)
      | JStr s \<Rightarrow> Inr (map (\<lambda>c. JStr [c]) s)
      | _ \<Rightarrow> Inl TypeError)"

definition is_dict :: "json \<Rightarrow> bool" where
  "is_dict v = (case v of JDict kvs \<Rightarrow> True | _ \<Rightarrow> False)"

text \<open>
  \<^verbatim>\<open>copy.deepcopy(v)\<close>. The copy of a JSON-shaped value is the value; the copy recurses
  into lists and dictionaries, one level of calls per level of nesting, and raises
  \<^verbatim>\<open>RecursionError\<close> where the nesting is deeper than the interpreter's recursion limit
  leaves room for at the call. \<open>max_depth\<close>, the deepest nesting that can be copied, is
  a parameter of the model.
\<close>

fun depth :: "json \<Rightarrow> nat" where
  "depth (JList xs) = Suc (fold max (map depth xs) 0)"
| "depth (JDict kvs) = Suc (fold max (map (\<lambda>kv. depth (snd kv)) kvs) 0)"
| "depth v = 0"

definition deepcopy :: "nat \<Rightarrow> json \<Rightarrow> exn + json" where
  "deepcopy max_depth v = (if depth v \<le> max_depth then Inr v else Inl RecursionError)"

text \<open>The value \<^verbatim>\<open>[[...[None]...]]\<close> with \<open>n + 1\<close> pairs of brackets.\<close>

fun nested :: "nat \<Rightarrow> json" where
  "nested 0 = JList [JNone]"
| "nested (Suc n) = JList [nested n]"

text \<open>\<^verbatim>\<open>a or b\<close> on values already computed.\<close>

definition py_or :: "json \<Rightarrow> json \<Rightarrow> json" where
  "py_or a b = (if truthy a then a else b)"

text \<open>
  \<^verbatim>\<open>float(x)\<close>. How Python reads a string as a float is a parameter \<open>fl\<close> of the model:
  \<open>fl s\<close> is the value, or \<open>None\<close> where \<^verbatim>\<open>float(s)\<close> raises \<^verbatim>\<open>ValueError\<close>.
\<close>

definition py_float :: "(string \<Rightarrow> real option) \<Rightarrow> json \<Rightarrow> exn + real" where
  "py_float fl v =
     (case v of
        JNum x \<Rightarrow> Inr x
      | JBool b \<Rightarrow> Inr (if b then 1 else 0)
      | JStr s \<Rightarrow> (case fl s of Some x \<Rightarrow> Inr x | None \<Rightarrow> Inl ValueError)
      | _ \<Rightarrow> Inl TypeError)"

text \<open>Unary minus.\<close>

definition py_neg :: "json \<Rightarrow> exn + json" where
  "py_neg v = (case num_of v of Some x \<Rightarrow> Inr (JNum (- x)) | None \<Rightarrow> Inl TypeError)"

text \<open>
  \<^verbatim>\<open>math.isclose(a, b, abs_tol=0.01)\<close> on floats, with the default \<^verbatim>\<open>rel_tol=1e-09\<close>.
\<close>

definition isclose :: "real \<Rightarrow> real \<Rightarrow> bool" where
  "isclose a b = (\<bar>a - b\<bar> \<le> max (1 / 10 ^ 9 * max \<bar>a\<bar> \<bar>b\<bar>) (1 / 100))"

text \<open>The same on values: an argument that is no number raises \<^verbatim>\<open>TypeError\<close>.\<close>

definition isclose_json :: "json \<Rightarrow> json \<Rightarrow> exn + bool" where
  "isclose_json a b =
     (case (num_of a, num_of b) of
        (Some x, Some y) \<Rightarrow> Inr (isclose x y)
      | _ \<Rightarrow> Inl TypeError)"

section \<open>Lines and bet descriptions\<close>

text \<open>
  Text built from values. \<open>Lit s\<close> is the literal text \<open>s\<close>, \<open>Str v\<close> the text \<^verbatim>\<open>str(v)\<close>
  of a value (the rendering of floats is not modelled); a list of pieces is their
  concatenation.
\<close>

datatype piece = Lit string | Str json

text \<open>\<^verbatim>\<open>format_bet_description\<close> (lines 304-328).\<close>

definition format_bet_description ::
  "string \<Rightarrow> string \<Rightarrow> piece list \<Rightarrow> json \<Rightarrow> json \<Rightarrow> piece list" where
  "format_bet_description market selection line home_team away_team =
     (if market = ''Moneyline'' then
        (if selection = ''Home'' \<and> truthy home_team then [Lit ''ML - '', Str home_team]
         else if selection = ''Away'' \<and> truthy away_team then [Lit ''ML - '', Str away_team]
         else [Lit ''ML - '', Lit selection])
      else if market = ''Spread'' then
        (if selection = ''Home'' \<and> truthy home_team then [Str home_team, Lit '' ''] @ line
         else if selection = ''Away'' \<and> truthy away_team then [Str away_team, Lit '' ''] @ line
         else [Lit selection, Lit '' ''] @ line)
      else if market = ''Total'' then
        (if selection = ''Over'' then [Lit ''Over ''] @ line
         else if selection = ''Under'' then [Lit ''Under ''] @ line
         else [Lit selection, Lit '' ''] @ line)
      else [Lit market, Lit '' - '', Lit selection])"

text \<open>
  \<^verbatim>\<open>normalize_total_line\<close> (lines 289-302). In a string, the character \<^verbatim>\<open>0xBD\<close> (one
  half) becomes \<^verbatim>\<open>.5\<close>, blanks go and commas become points; then two numbers separated
  by a comma, a slash or a blank are averaged, and anything else is read by \<^verbatim>\<open>float\<close>.
  The \<^verbatim>\<open>str\<close> of a list or a dictionary starts with a bracket and is never a number.
\<close>

definition half_char :: char where
  "half_char = char_of (189 :: nat)"

definition clean_line :: "string \<Rightarrow> string" where
  "clean_line s =
     map (\<lambda>c. if c = CHR '','' then CHR ''.'' else c)
       (filter (\<lambda>c. c \<noteq> CHR '' '')
         (concat (map (\<lambda>c. if c = half_char then ''.5'' else [c]) s)))"

text \<open>A maximal prefix \<^verbatim>\<open>[0-9]+\.?[0-9]*\<close>: the text matched and the rest, if any.\<close>

definition take_number :: "string \<Rightarrow> (string \<times> string) option" where
  "take_number s =
     (let ip = takeWhile is_digit s; r = dropWhile is_digit s
      in if ip = [] then None
         else (case r of
                 c # r' \<Rightarrow> if c = CHR ''.''
                            then Some (ip @ [c] @ takeWhile is_digit r', dropWhile is_digit r')
                            else Some (ip, r)
               | [] \<Rightarrow> Some (ip, r)))"

text \<open>\<^verbatim>\<open>float\<close> of such a text: integer part and optional fraction digits.\<close>

definition number_val :: "string \<Rightarrow> real" where
  "number_val t =
     (let ip = takeWhile is_digit t; fp = drop 1 (dropWhile is_digit t)
      in real (digits_val ip) + real (digits_val fp) / 10 ^ length fp)"

definition asian_line :: "string \<Rightarrow> real option" where
  "asian_line s =
     (case take_number s of
        None \<Rightarrow> None
      | Some (g1, r) \<Rightarrow>
          (case r of
             [] \<Rightarrow> None
           | c # r' \<Rightarrow>
               if c = CHR '','' \<or> c = CHR ''/'' \<or> c = CHR '' '' then
                 (case take_number r' of
                    None \<Rightarrow> None
                  | Some (g2, r'') \<Rightarrow> Some ((number_val g1 + number_val g2) / 2))
               else None))"

definition normalize_total_line :: "(string \<Rightarrow> real option) \<Rightarrow> json \<Rightarrow> real option" where
  "normalize_total_line fl line =
     (case line of
        JNone \<Rightarrow> None
      | JNum x \<Rightarrow> Some x
      | JBool b \<Rightarrow> Some (if b then 1 else 0)
      | JStr s \<Rightarrow>
          (let l = clean_line s
           in case asian_line l of Some x \<Rightarrow> Some x | None \<Rightarrow> fl l)
      | JList xs \<Rightarrow> None
      | JDict kvs \<Rightarrow> None)"

section \<open>The EV engine\<close>

text \<open>
  A row of the result of \<^verbatim>\<open>analyze_markets_for_ev\<close>. The field \<open>line\<close> is the text of
  the line (empty for a moneyline), \<open>ev\<close> is the value whose percentage the source
  formats, \<open>pinnacle_limit\<close> is \<open>None\<close> where the row has no such key.
\<close>

record ev_row =
  market :: string
  selection :: string
  line :: "piece list"
  pinnacle_nvp :: json
  pinnacle_limit :: "json option"
  betbck_odds :: json
  ev :: json
  home_team :: json
  away_team :: json
  bet :: "piece list"

text \<open>The messages logged at level \<^verbatim>\<open>error\<close>; other log levels are not modelled.\<close>

datatype log_msg =
    Err_1H_BetBCK_without_full_game
  | Err_1H_Pinnacle_without_full_game
  | Err_validation_exception exn
  | Err_validation_failed
  | Err_no_full_game_period
  | Err_analyze_exception exn
  | Err_analyze_1h_exception exn

text \<open>\<^verbatim>\<open>_validate_period_separation\<close> (lines 331-364): the verdict and what it logs.\<close>

definition validate_checks :: "json \<Rightarrow> json \<Rightarrow> exn + (bool \<times> bool \<times> bool)" where
  "validate_checks bet_data pinnacle_data =
     ebind (get0 bet_data ''1H_data'') (\<lambda>b1h.
     ebind (py_get pinnacle_data ''data'' (JDict [])) (\<lambda>pin_data.
     ebind (py_get pin_data ''periods'' (JDict [])) (\<lambda>periods.
     ebind (get0 periods ''num_1'') (\<lambda>p1a.
     ebind (if truthy p1a then Inr p1a else get0 periods ''1'') (\<lambda>p1.
     ebind (get0 periods ''num_0'') (\<lambda>p0a.
     ebind (if truthy p0a then Inr p0a else get0 periods ''0'') (\<lambda>p0.
     Inr (truthy b1h, truthy p1, truthy p0))))))))"

definition validate_period_separation :: "json \<Rightarrow> json \<Rightarrow> bool \<times> log_msg list" where
  "validate_period_separation bet_data pinnacle_data =
     (case validate_checks bet_data pinnacle_data of
        Inl e \<Rightarrow> (False, [Err_validation_exception e])
      | Inr (has_1h_betbck, has_1h_pinnacle, has_full_game_pinnacle) \<Rightarrow>
          if has_1h_betbck \<and> \<not> has_full_game_pinnacle
          then (False, [Err_1H_BetBCK_without_full_game])
          else if has_1h_pinnacle \<and> \<not> has_full_game_pinnacle
          then (False, [Err_1H_Pinnacle_without_full_game])
          else (True, []))"

text \<open>
  The body shared by every pairing once its guard holds: convert the secondary price,
  fetch the fair decimal price, and build the row when both are truthy. \<open>line_c\<close> and
  \<open>limit\<close> compute the \<^verbatim>\<open>line\<close> and \<^verbatim>\<open>pinnacle_limit\<close> entries and are evaluated only
  when the row is built.
\<close>

definition make_row ::
  "string \<Rightarrow> string \<Rightarrow> (exn + piece list) \<Rightarrow> json \<Rightarrow> json \<Rightarrow> string \<Rightarrow> string \<Rightarrow>
   (exn + json option) \<Rightarrow> json \<Rightarrow> exn + ev_row option" where
  "make_row mkt sel line_c odds pin nvp_key nvp_american_key limit pin_data =
     (let bet_odds = american_to_decimal odds
      in ebind (get0 pin nvp_key) (\<lambda>true_odds.
         if truthy (opt_num bet_odds) \<and> truthy true_odds then
           ebind (calculate_ev (opt_num bet_odds) true_odds) (\<lambda>ev_v.
           ebind (py_get pin_data ''home'' (JStr [])) (\<lambda>home.
           ebind (py_get pin_data ''away'' (JStr [])) (\<lambda>away.
           ebind line_c (\<lambda>line_txt.
           ebind (py_get pin nvp_american_key (JStr ''N/A'')) (\<lambda>nvp_am.
           ebind limit (\<lambda>lim.
           Inr (Some \<lparr> market = mkt, selection = sel, line = line_txt, pinnacle_nvp = nvp_am,
                        pinnacle_limit = lim, betbck_odds = odds, ev = ev_v,
                        home_team = home, away_team = away,
                        bet = format_bet_description mkt sel line_txt home away \<rparr>)))))))
         else Inr None))"

text \<open>A limit expression \<^verbatim>\<open>a.get(k) or meta_limits.get(k1) or ...\<close>, left to right.\<close>

fun limit_chain :: "(json \<times> string) list \<Rightarrow> exn + json" where
  "limit_chain [] = Inr JNone"
| "limit_chain [(d, k)] = get0 d k"
| "limit_chain ((d, k) # rest) =
     ebind (get0 d k) (\<lambda>v. if truthy v then Inr v else limit_chain rest)"

definition limit_of :: "(json \<times> string) list \<Rightarrow> exn + json option" where
  "limit_of chain = ebind (limit_chain chain) (\<lambda>v. Inr (Some v))"

text \<open>An optional row as the list of rows appended.\<close>

definition rows_of :: "ev_row option \<Rightarrow> ev_row list" where
  "rows_of r = (case r of None \<Rightarrow> [] | Some x \<Rightarrow> [x])"

text \<open>
  One moneyline pairing: \<^verbatim>\<open>if bet_data.get(k) and ml.get(nvp_american_k): ...\<close>. The second
  lookup is made only when the first value is truthy.
\<close>

definition moneyline_side ::
  "string \<Rightarrow> string \<Rightarrow> json \<Rightarrow> string \<Rightarrow> json \<Rightarrow> string \<Rightarrow> string \<Rightarrow>
   (json \<times> string) list \<Rightarrow> json \<Rightarrow> exn + ev_row list" where
  "moneyline_side mkt sel bet_data bet_key ml nvp_key nvp_american_key chain pin_data =
     ebind (get0 bet_data bet_key) (\<lambda>odds.
     if \<not> truthy odds then Inr []
     else ebind (get0 ml nvp_american_key) (\<lambda>nvp_am.
          if \<not> truthy nvp_am then Inr []
          else ebind (py_index bet_data bet_key) (\<lambda>odds'.
               ebind (make_row mkt sel (Inr []) odds' ml nvp_key nvp_american_key (limit_of chain) pin_data)
                 (\<lambda>r. Inr (rows_of r)))))"

text \<open>Running fallible steps in order and appending their rows; the first exception
  ends the run.\<close>

fun collect :: "('a \<Rightarrow> exn + ev_row list) \<Rightarrow> 'a list \<Rightarrow> exn + ev_row list" where
  "collect f [] = Inr []"
| "collect f (x # xs) = ebind (f x) (\<lambda>r. ebind (collect f xs) (\<lambda>rs. Inr (r @ rs)))"

text \<open>
  The guarded body of a spread pairing, inside its own \<^verbatim>\<open>try\<close>: an exception there
  skips the pair (\<^verbatim>\<open>continue\<close>). \<open>away\<close> tells the away side, which compares with the
  negated reference handicap and reports the negated line.
\<close>

definition spread_pair_body ::
  "(string \<Rightarrow> real option) \<Rightarrow> string \<Rightarrow> bool \<Rightarrow> json \<Rightarrow> json \<Rightarrow> json \<Rightarrow> json \<Rightarrow>
   json \<Rightarrow> json \<Rightarrow> exn + ev_row option" where
  "spread_pair_body fl mkt away s bet_line pin_spread hdp meta_limits pin_data =
     (if bet_line = JNone \<or> hdp = JNone then Inr None
      else ebind (py_float fl bet_line) (\<lambda>x.
           ebind (py_float fl hdp) (\<lambda>y.
           if \<not> isclose x (if away then - y else y) then Inr None
           else ebind (get0 pin_spread (if away then ''nvp_american_away'' else ''nvp_american_home''))
                  (\<lambda>nvp_am.
                if \<not> truthy nvp_am then Inr None
                else ebind (get0 s ''odds'') (\<lambda>odds.
                     make_row mkt (if away then ''Away'' else ''Home'')
                       (ebind (if away then py_neg hdp else Inr hdp) (\<lambda>shown. Inr [Str shown]))
                       odds pin_spread
                       (if away then ''nvp_away'' else ''nvp_home'')
                       (if away then ''nvp_american_away'' else ''nvp_american_home'')
                       (limit_of [(pin_spread, ''max''), (meta_limits, ''max_spread'')])
                       pin_data)))))"

definition spread_pair ::
  "(string \<Rightarrow> real option) \<Rightarrow> string \<Rightarrow> bool \<Rightarrow> json \<Rightarrow> json \<Rightarrow> json \<Rightarrow> json \<Rightarrow>
   json \<Rightarrow> json \<Rightarrow> ev_row list" where
  "spread_pair fl mkt away s bet_line pin_spread hdp meta_limits pin_data =
     (case spread_pair_body fl mkt away s bet_line pin_spread hdp meta_limits pin_data of
        Inl e \<Rightarrow> []
      | Inr r \<Rightarrow> rows_of r)"

text \<open>The bets of one side: \<^verbatim>\<open>for s in bet_data.get(key, [])\<close> with \<^verbatim>\<open>s.get('line')\<close>.\<close>

definition side_bets :: "json \<Rightarrow> string \<Rightarrow> exn + json list" where
  "side_bets bet_data key = ebind (py_get bet_data key (JList [])) py_iter"

text \<open>Full game, moneyline (lines 610-683).\<close>

definition full_game_moneyline :: "json \<Rightarrow> json \<Rightarrow> json \<Rightarrow> json \<Rightarrow> exn + ev_row list" where
  "full_game_moneyline bet_data ml meta_limits pin_data =
     collect (\<lambda>(sel, bet_key, nvp_key, nvp_american_key).
        moneyline_side ''Moneyline'' sel bet_data bet_key ml nvp_key nvp_american_key
          [(ml, ''max_money_line''), (meta_limits, ''max_money_line''),
           (meta_limits, ''max_spread''), (meta_limits, ''max_total'')] pin_data)
       [(''Home'', ''home_moneyline_american'', ''nvp_home'', ''nvp_american_home''),
        (''Away'', ''away_moneyline_american'', ''nvp_away'', ''nvp_american_away''),
        (''Draw'', ''draw_moneyline_american'', ''nvp_draw'', ''nvp_american_draw'')]"

text \<open>Full game, spreads (lines 685-745): for each reference spread, the home bets and
  then the away bets.\<close>

definition full_game_spread_side ::
  "(string \<Rightarrow> real option) \<Rightarrow> bool \<Rightarrow> json \<Rightarrow> json \<Rightarrow> json \<Rightarrow> json \<Rightarrow> json \<Rightarrow>
   exn + ev_row list" where
  "full_game_spread_side fl away bet_data pin_spread hdp meta_limits pin_data =
     ebind (side_bets bet_data (if away then ''away_spreads'' else ''home_spreads''))
       (collect (\<lambda>s. ebind (get0 s ''line'') (\<lambda>bet_line.
          Inr (spread_pair fl ''Spread'' away s bet_line pin_spread hdp meta_limits pin_data))))"

definition full_game_spreads ::
  "(string \<Rightarrow> real option) \<Rightarrow> json \<Rightarrow> json \<Rightarrow> json \<Rightarrow> json \<Rightarrow> exn + ev_row list" where
  "full_game_spreads fl bet_data full_game meta_limits pin_data =
     ebind (get0 full_game ''spreads'') (\<lambda>sp.
     ebind (py_items (if is_dict sp then sp else JDict [])) (\<lambda>pin_spreads.
     collect (\<lambda>(spread_key, pin_spread).
        ebind (get0 pin_spread ''hdp'') (\<lambda>hdp.
        ebind (full_game_spread_side fl False bet_data pin_spread hdp meta_limits pin_data) (\<lambda>h.
        ebind (full_game_spread_side fl True bet_data pin_spread hdp meta_limits pin_data) (\<lambda>a.
        Inr (h @ a))))) pin_spreads))"

text \<open>
  Full game, totals (lines 747-820): the aggregate total of the secondary book against
  every reference total; the best over and the best under are kept.
\<close>

definition ev_greater :: "json \<Rightarrow> json \<Rightarrow> bool" where
  "ev_greater a b = (case (num_of a, num_of b) of (Some x, Some y) \<Rightarrow> y < x | _ \<Rightarrow> False)"

definition keep_best :: "ev_row option \<Rightarrow> ev_row option \<Rightarrow> ev_row option" where
  "keep_best best cand =
     (case cand of
        None \<Rightarrow> best
      | Some r \<Rightarrow> (case best of
                     None \<Rightarrow> Some r
                   | Some b \<Rightarrow> if ev_greater (ev r) (ev b) then Some r else best))"

definition total_candidate ::
  "string \<Rightarrow> string \<Rightarrow> json \<Rightarrow> json \<Rightarrow> real \<Rightarrow> string \<Rightarrow> string \<Rightarrow> json \<Rightarrow> json \<Rightarrow>
   exn + ev_row option" where
  "total_candidate mkt sel odds pin_total pin_line nvp_key nvp_american_key meta_limits pin_data =
     (if \<not> truthy odds then Inr None
      else ebind (get0 pin_total nvp_american_key) (\<lambda>nvp_am.
           if \<not> truthy nvp_am then Inr None
           else make_row mkt sel (Inr [Str (JNum pin_line)]) odds pin_total nvp_key nvp_american_key
                  (limit_of [(pin_total, ''max''), (meta_limits, ''max_total'')]) pin_data))"

fun best_totals ::
  "(string \<Rightarrow> real option) \<Rightarrow> real option \<Rightarrow> json \<Rightarrow> json \<Rightarrow> json \<Rightarrow> json \<Rightarrow>
   (string \<times> json) list \<Rightarrow> ev_row option \<times> ev_row option \<Rightarrow>
   exn + (ev_row option \<times> ev_row option)" where
  "best_totals fl bck_line over_odds under_odds meta_limits pin_data [] best = Inr best"
| "best_totals fl bck_line over_odds under_odds meta_limits pin_data ((total_key, pin_total) # rest) best =
     ebind (get0 pin_total ''points'') (\<lambda>points.
       case (bck_line, normalize_total_line fl points) of
         (Some bl, Some pin_line) \<Rightarrow>
           if isclose bl pin_line then
             ebind (total_candidate ''Total'' ''Over'' over_odds pin_total pin_line
                      ''nvp_over'' ''nvp_american_over'' meta_limits pin_data) (\<lambda>ov.
             ebind (total_candidate ''Total'' ''Under'' under_odds pin_total pin_line
                      ''nvp_under'' ''nvp_american_under'' meta_limits pin_data) (\<lambda>un.
             best_totals fl bck_line over_odds under_odds meta_limits pin_data rest
               (keep_best (fst best) ov, keep_best (snd best) un)))
           else best_totals fl bck_line over_odds under_odds meta_limits pin_data rest best
       | _ \<Rightarrow> best_totals fl bck_line over_odds under_odds meta_limits pin_data rest best)"

definition full_game_totals ::
  "(string \<Rightarrow> real option) \<Rightarrow> json \<Rightarrow> json \<Rightarrow> json \<Rightarrow> json \<Rightarrow> exn + ev_row list" where
  "full_game_totals fl bet_data full_game meta_limits pin_data =
     ebind (get0 full_game ''totals'') (\<lambda>tt.
     ebind (py_items (if is_dict tt then tt else JDict [])) (\<lambda>pin_totals.
     ebind (get0 bet_data ''game_total_line'') (\<lambda>gtl.
     if gtl = JNone then Inr []
     else ebind (get0 bet_data ''game_total_over_odds'') (\<lambda>over_odds.
          ebind (get0 bet_data ''game_total_under_odds'') (\<lambda>under_odds.
          ebind (best_totals fl (normalize_total_line fl gtl) over_odds under_odds
                   meta_limits pin_data pin_totals (None, None)) (\<lambda>best.
          Inr (rows_of (fst best) @ rows_of (snd best))))))))"

text \<open>The full-game part of \<^verbatim>\<open>analyze_markets_for_ev\<close> (lines 610-820), for the period-0
  markets \<open>full_game\<close>.\<close>

definition full_game_rows ::
  "(string \<Rightarrow> real option) \<Rightarrow> json \<Rightarrow> json \<Rightarrow> json \<Rightarrow> exn + ev_row list" where
  "full_game_rows fl bet_data full_game pin_data =
     ebind (py_get full_game ''money_line'' (JDict [])) (\<lambda>ml0.
     ebind (get0 full_game ''meta'') (\<lambda>meta.
     (let meta_limits = (if is_dict meta then meta else JDict []);
          ml = (if is_dict ml0 then ml0 else JDict [])
      in ebind (full_game_moneyline bet_data ml meta_limits pin_data) (\<lambda>m.
         ebind (full_game_spreads fl bet_data full_game meta_limits pin_data) (\<lambda>sp.
         ebind (full_game_totals fl bet_data full_game meta_limits pin_data) (\<lambda>t.
         Inr (m @ sp @ t)))))))"

text \<open>First half, moneyline (lines 379-417): home and away only.\<close>

definition first_half_moneyline :: "json \<Rightarrow> json \<Rightarrow> json \<Rightarrow> json \<Rightarrow> exn + ev_row list" where
  "first_half_moneyline bet_1h_data pin_ml meta_limits pin_data =
     collect (\<lambda>(sel, bet_key, nvp_key, nvp_american_key).
        moneyline_side ''1H Moneyline'' sel bet_1h_data bet_key pin_ml nvp_key nvp_american_key
          [(pin_ml, ''max_money_line''), (meta_limits, ''max_money_line'')] pin_data)
       [(''Home'', ''home_moneyline_american'', ''nvp_home'', ''nvp_american_home''),
        (''Away'', ''away_moneyline_american'', ''nvp_away'', ''nvp_american_away'')]"

text \<open>First half, spreads (lines 419-470): for each bet of a side, every reference
  spread.\<close>

definition first_half_spread_side ::
  "(string \<Rightarrow> real option) \<Rightarrow> bool \<Rightarrow> json \<Rightarrow> json \<Rightarrow> json \<Rightarrow> json \<Rightarrow> exn + ev_row list" where
  "first_half_spread_side fl away bet_1h_data pin_spreads meta_limits pin_data =
     ebind (side_bets bet_1h_data (if away then ''away_spreads'' else ''home_spreads''))
       (collect (\<lambda>spread.
          ebind (get0 spread ''line'') (\<lambda>bet_line.
          ebind (py_items pin_spreads)
            (collect (\<lambda>(spread_key, pin_spread).
               ebind (get0 pin_spread ''hdp'') (\<lambda>hdp.
               Inr (spread_pair fl ''1H Spread'' away spread bet_line pin_spread hdp
                      meta_limits pin_data)))))))"

text \<open>
  First half, totals (lines 472-522): the per-side total lists against every reference
  total. The secondary line is compared as it is; the under rows carry no limit.
\<close>

definition first_half_total_body ::
  "bool \<Rightarrow> json \<Rightarrow> json \<Rightarrow> json \<Rightarrow> real option \<Rightarrow> json \<Rightarrow> json \<Rightarrow> exn + ev_row option" where
  "first_half_total_body is_under total_bet bet_line pin_total pin_line meta_limits pin_data =
     (case pin_line of
        None \<Rightarrow> Inr None
      | Some pl \<Rightarrow>
          if bet_line = JNone then Inr None
          else ebind (isclose_json bet_line (JNum pl)) (\<lambda>close.
               if \<not> close then Inr None
               else ebind (get0 pin_total (if is_under then ''nvp_american_under'' else ''nvp_american_over''))
                      (\<lambda>nvp_am.
                    if \<not> truthy nvp_am then Inr None
                    else ebind (get0 total_bet ''odds'') (\<lambda>odds.
                         make_row ''1H Total'' (if is_under then ''Under'' else ''Over'')
                           (Inr [Str (JNum pl)]) odds pin_total
                           (if is_under then ''nvp_under'' else ''nvp_over'')
                           (if is_under then ''nvp_american_under'' else ''nvp_american_over'')
                           (if is_under then Inr None
                            else limit_of [(pin_total, ''max''), (meta_limits, ''max_total'')])
                           pin_data))))"

definition first_half_total_pair ::
  "bool \<Rightarrow> json \<Rightarrow> json \<Rightarrow> json \<Rightarrow> real option \<Rightarrow> json \<Rightarrow> json \<Rightarrow> ev_row list" where
  "first_half_total_pair is_under total_bet bet_line pin_total pin_line meta_limits pin_data =
     (case first_half_total_body is_under total_bet bet_line pin_total pin_line meta_limits pin_data of
        Inl e \<Rightarrow> []
      | Inr r \<Rightarrow> rows_of r)"

definition first_half_total_side ::
  "(string \<Rightarrow> real option) \<Rightarrow> bool \<Rightarrow> json \<Rightarrow> json \<Rightarrow> json \<Rightarrow> json \<Rightarrow> exn + ev_row list" where
  "first_half_total_side fl is_under bet_1h_data pin_totals meta_limits pin_data =
     ebind (side_bets bet_1h_data (if is_under then ''away_totals'' else ''home_totals''))
       (collect (\<lambda>total_bet.
          ebind (get0 total_bet ''line'') (\<lambda>bet_line.
          ebind (py_items pin_totals)
            (collect (\<lambda>(total_key, pin_total).
               ebind (get0 pin_total ''points'') (\<lambda>points.
               Inr (first_half_total_pair is_under total_bet bet_line pin_total
                      (normalize_total_line fl points) meta_limits pin_data)))))))"

text \<open>The body of \<^verbatim>\<open>_analyze_1h_markets_for_ev\<close> inside its \<^verbatim>\<open>try\<close> (lines 375-525).\<close>

definition first_half_rows ::
  "(string \<Rightarrow> real option) \<Rightarrow> json \<Rightarrow> json \<Rightarrow> json \<Rightarrow> exn + ev_row list" where
  "first_half_rows fl bet_1h_data pinnacle_1h_data pin_data =
     ebind (py_get pin_data ''home'' (JStr [])) (\<lambda>home.
     ebind (py_get pin_data ''away'' (JStr [])) (\<lambda>away.
     ebind (py_get pinnacle_1h_data ''money_line'' (JDict [])) (\<lambda>pin_ml.
     ebind (py_get pinnacle_1h_data ''meta'' (JDict [])) (\<lambda>meta_limits.
     ebind (first_half_moneyline bet_1h_data pin_ml meta_limits pin_data) (\<lambda>m.
     ebind (py_get pinnacle_1h_data ''spreads'' (JDict [])) (\<lambda>pin_spreads.
     ebind (first_half_spread_side fl False bet_1h_data pin_spreads meta_limits pin_data) (\<lambda>sh.
     ebind (first_half_spread_side fl True bet_1h_data pin_spreads meta_limits pin_data) (\<lambda>sa.
     ebind (py_get pinnacle_1h_data ''totals'' (JDict [])) (\<lambda>pin_totals.
     ebind (first_half_total_side fl False bet_1h_data pin_totals meta_limits pin_data) (\<lambda>tov.
     ebind (first_half_total_side fl True bet_1h_data pin_totals meta_limits pin_data) (\<lambda>tun.
     Inr (m @ sh @ sa @ tov @ tun))))))))))))"

text \<open>\<^verbatim>\<open>_analyze_1h_markets_for_ev\<close> (lines 367-529): any exception gives no rows.\<close>

definition analyze_1h_markets_for_ev ::
  "(string \<Rightarrow> real option) \<Rightarrow> json \<Rightarrow> json \<Rightarrow> json \<Rightarrow> ev_row list \<times> log_msg list" where
  "analyze_1h_markets_for_ev fl bet_1h_data pinnacle_1h_data pin_data =
     (case first_half_rows fl bet_1h_data pinnacle_1h_data pin_data of
        Inl e \<Rightarrow> ([], [Err_analyze_1h_exception e])
      | Inr rows \<Rightarrow> (rows, []))"

text \<open>The period-1 markets of the reference event:
  \<^verbatim>\<open>periods.get('num_1') or periods.get('1')\<close>; likewise period 0.\<close>

definition period_of :: "json \<Rightarrow> string \<Rightarrow> string \<Rightarrow> exn + json" where
  "period_of periods k1 k2 =
     ebind (get0 periods k1) (\<lambda>a. if truthy a then Inr a else get0 periods k2)"

text \<open>The first-half step of \<^verbatim>\<open>analyze_markets_for_ev\<close> (lines 822-833).\<close>

definition first_half_step ::
  "(string \<Rightarrow> real option) \<Rightarrow> json \<Rightarrow> json \<Rightarrow> json \<Rightarrow> exn + (ev_row list \<times> log_msg list)" where
  "first_half_step fl bet_data periods pin_data =
     ebind (get0 bet_data ''1H_data'') (\<lambda>b1h.
     if \<not> truthy b1h then Inr ([], [])
     else ebind (period_of periods ''num_1'' ''1'') (\<lambda>first_half.
          if truthy first_half \<and> is_dict first_half
          then ebind (py_index bet_data ''1H_data'') (\<lambda>bet_1h_data.
               Inr (analyze_1h_markets_for_ev fl bet_1h_data first_half pin_data))
          else Inr ([], [])))"

text \<open>The body of \<^verbatim>\<open>analyze_markets_for_ev\<close> inside its \<^verbatim>\<open>try\<close> (lines 572-835).\<close>

definition analyze_body ::
  "(string \<Rightarrow> real option) \<Rightarrow> json \<Rightarrow> json \<Rightarrow> exn + (ev_row list \<times> log_msg list)" where
  "analyze_body fl bet_data pinnacle_data =
     ebind (py_index pinnacle_data ''data'') (\<lambda>pin_data.
     if pin_data = JNone \<or> \<not> is_dict pin_data then Inr ([], [])
     else ebind (py_get pin_data ''periods'' (JDict [])) (\<lambda>periods.
          if periods = JNone \<or> \<not> is_dict periods then Inr ([], [])
          else ebind (period_of periods ''num_0'' ''0'') (\<lambda>full_game.
               if full_game = JNone \<or> \<not> is_dict full_game then Inr ([], [])
               else if \<not> truthy full_game then Inr ([], [Err_no_full_game_period])
               else ebind (full_game_rows fl bet_data full_game pin_data) (\<lambda>fg.
                    ebind (first_half_step fl bet_data periods pin_data) (\<lambda>h.
                    Inr (fg @ fst h, snd h))))))"

text \<open>
  \<^verbatim>\<open>analyze_markets_for_ev\<close> after its two copies (lines 545-839): the rows returned and
  the errors logged, or the exception that escapes. The checks before the \<^verbatim>\<open>try\<close> are
  not protected by it.
\<close>

definition analyze_copies ::
  "(string \<Rightarrow> real option) \<Rightarrow> json \<Rightarrow> json \<Rightarrow> exn + (ev_row list \<times> log_msg list)" where
  "analyze_copies fl bet_data_copy pinnacle_data_copy =
     (let v = validate_period_separation bet_data_copy pinnacle_data_copy
      in if \<not> fst v then Inr ([], snd v @ [Err_validation_failed])
         else if \<not> truthy pinnacle_data_copy then Inr ([], [])
         else if \<not> is_dict pinnacle_data_copy then Inr ([], [])
         else ebind (get0 pinnacle_data_copy ''data'') (\<lambda>d.
              if \<not> truthy d then Inr ([], [])
              else ebind (py_index pinnacle_data_copy ''data'') (\<lambda>d'.
                   if d' = JNone then Inr ([], [])
                   else (case analyze_body fl bet_data_copy pinnacle_data_copy of
                           Inl e \<Rightarrow> Inr ([], [Err_analyze_exception e])
                         | Inr r \<Rightarrow> Inr r))))"

text \<open>
  \<^verbatim>\<open>analyze_markets_for_ev\<close> (lines 532-839). The two copies at lines 542-543,
  \<^verbatim>\<open>copy.deepcopy(x) if x else {}\<close>, stand before every \<^verbatim>\<open>try\<close>: an exception there
  escapes.
\<close>

definition analyze_markets_for_ev ::
  "nat \<Rightarrow> (string \<Rightarrow> real option) \<Rightarrow> json \<Rightarrow> json \<Rightarrow> exn + (ev_row list \<times> log_msg list)" where
  "analyze_markets_for_ev max_depth fl bet_data pinnacle_data =
     ebind (if truthy bet_data then deepcopy max_depth bet_data else Inr (JDict []))
       (\<lambda>bet_data_copy.
     ebind (if truthy pinnacle_data then deepcopy max_depth pinnacle_data else Inr (JDict []))
       (\<lambda>pinnacle_data_copy.
     analyze_copies fl bet_data_copy pinnacle_data_copy))"

text \<open>
  The markets of a period as \<^verbatim>\<open>analyze_markets_for_ev\<close> reads them from the reference
  event: \<^verbatim>\<open>pinnacle_data['data'].get('periods', {})\<close>, then \<^verbatim>\<open>.get(k1) or .get(k2)\<close>
  (lines 572-595 for period 0, line 825 for period 1).
\<close>

definition reference_period :: "json \<Rightarrow> string \<Rightarrow> string \<Rightarrow> exn + json" where
  "reference_period pinnacle_data k1 k2 =
     ebind (py_index (if truthy pinnacle_data then pinnacle_data else JDict []) ''data'') (\<lambda>pin_data.
     ebind (py_get pin_data ''periods'' (JDict [])) (\<lambda>periods.
     period_of periods k1 k2))"

text \<open>
  Two projections used to state what a computation does not read: the secondary game
  without its \<^verbatim>\<open>1H_data\<close> entry, and the reference event reduced to its two team names.
\<close>

definition without_1h :: "json \<Rightarrow> json" where
  "without_1h bet_data =
     (case bet_data of
        JDict kvs \<Rightarrow> JDict (filter (\<lambda>kv. fst kv \<noteq> ''1H_data'') kvs)
      | _ \<Rightarrow> bet_data)"

definition teams_only :: "json \<Rightarrow> json" where
  "teams_only pin_data =
     JDict [(''home'', case py_get pin_data ''home'' (JStr []) of Inr v \<Rightarrow> v | Inl e \<Rightarrow> JStr []),
            (''away'', case py_get pin_data ''away'' (JStr []) of Inr v \<Rightarrow> v | Inl e \<Rightarrow> JStr [])]"

text \<open>The event data \<^verbatim>\<open>pinnacle_data['data']\<close> as the engine reads it.\<close>

definition event_data :: "json \<Rightarrow> exn + json" where
  "event_data pinnacle_data =
     py_index (if truthy pinnacle_data then pinnacle_data else JDict []) ''data''"

section \<open>Strings and regular expressions\<close>

text \<open>
  Strings are lists of characters read as ASCII: characters outside ASCII are treated
  as symbols that are neither letters, digits nor whitespace and have no case.
\<close>

definition is_upper :: "char \<Rightarrow> bool" where
  "is_upper c = (let n = of_char c :: nat in 65 \<le> n \<and> n \<le> 90)"

definition is_lower :: "char \<Rightarrow> bool" where
  "is_lower c = (let n = of_char c :: nat in 97 \<le> n \<and> n \<le> 122)"

definition is_alpha :: "char \<Rightarrow> bool" where
  "is_alpha c = (is_upper c \<or> is_lower c)"

text \<open>The regex class \<^verbatim>\<open>\w\<close>.\<close>

definition is_word :: "char \<Rightarrow> bool" where
  "is_word c = (is_alpha c \<or> is_digit c \<or> c = CHR ''_'')"

definition lower_char :: "char \<Rightarrow> char" where
  "lower_char c = (if is_upper c then char_of (of_char c + (32 :: nat)) else c)"

text \<open>\<^verbatim>\<open>s.lower()\<close>.\<close>

definition lower :: "string \<Rightarrow> string" where
  "lower s = map lower_char s"

text \<open>\<^verbatim>\<open>s.startswith(p)\<close>, \<^verbatim>\<open>s.endswith(p)\<close> and \<^verbatim>\<open>p in s\<close>.\<close>

definition startswith :: "string \<Rightarrow> string \<Rightarrow> bool" where
  "startswith s p = (take (length p) s = p)"

definition endswith :: "string \<Rightarrow> string \<Rightarrow> bool" where
  "endswith s p = (length p \<le> length s \<and> drop (length s - length p) s = p)"

fun contains :: "string \<Rightarrow> string \<Rightarrow> bool" where
  "contains [] p = (p = [])"
| "contains (c # cs) p = (startswith (c # cs) p \<or> contains cs p)"

text \<open>\<^verbatim>\<open>s.replace(old, new)\<close> for a non-empty \<open>old\<close>: leftmost occurrences, not
  overlapping.\<close>

function replace_all :: "string \<Rightarrow> string \<Rightarrow> string \<Rightarrow> string" where
  "replace_all old new [] = []"
| "replace_all old new (c # cs) =
     (if old \<noteq> [] \<and> startswith (c # cs) old
      then new @ replace_all old new (drop (length old) (c # cs))
      else c # replace_all old new cs)"
  by pat_completeness auto
termination
  by (relation "measure (\<lambda>(old, new, s). length s)") (auto simp: startswith_def)

text \<open>\<^verbatim>\<open>" ".join(s.split())\<close>: the words of \<open>s\<close> separated by single blanks.\<close>

function split_ws :: "string \<Rightarrow> string list" where
  "split_ws s =
     (let t = dropWhile is_space s
      in if t = [] then []
         else takeWhile (\<lambda>c. \<not> is_space c) t # split_ws (dropWhile (\<lambda>c. \<not> is_space c) t))"
  by pat_completeness auto
termination
proof (relation "measure length")
  show "wf (measure length)" by simp
next
  fix s t :: string
  assume t: "t = dropWhile is_space s" and ne: "t \<noteq> []"
  from ne obtain c r where cr: "t = c # r"
    by (cases t) simp_all
  have "dropWhile is_space s \<noteq> []"
    using ne t by simp
  then have "\<not> is_space (hd (dropWhile is_space s))"
    by (rule hd_dropWhile)
  then have "\<not> is_space c"
    using cr t by simp
  then have "dropWhile (\<lambda>c. \<not> is_space c) t = dropWhile (\<lambda>c. \<not> is_space c) r"
    using cr by simp
  moreover have "length (dropWhile (\<lambda>c. \<not> is_space c) r) \<le> length r"
    by (rule length_dropWhile_le)
  moreover have "length t \<le> length s"
    using t by (simp add: length_dropWhile_le)
  ultimately show "(dropWhile (\<lambda>c. \<not> is_space c) t, s) \<in> measure length"
    using cr by simp
qed

fun join_blank :: "string list \<Rightarrow> string" where
  "join_blank [] = []"
| "join_blank [w] = w"
| "join_blank (w # ws) = w @ '' '' @ join_blank ws"

text \<open>
  Regular expressions over characters, matched by derivatives. \<open>Cls P\<close> is a character
  class given by its predicate.
\<close>

datatype rx = Zero | Eps | Cls "char \<Rightarrow> bool" | Seq rx rx | Alt rx rx | Star rx

fun nullable :: "rx \<Rightarrow> bool" where
  "nullable Zero = False"
| "nullable Eps = True"
| "nullable (Cls P) = False"
| "nullable (Seq r s) = (nullable r \<and> nullable s)"
| "nullable (Alt r s) = (nullable r \<or> nullable s)"
| "nullable (Star r) = True"

fun deriv :: "char \<Rightarrow> rx \<Rightarrow> rx" where
  "deriv c Zero = Zero"
| "deriv c Eps = Zero"
| "deriv c (Cls P) = (if P c then Eps else Zero)"
| "deriv c (Seq r s) =
     (if nullable r then Alt (Seq (deriv c r) s) (deriv c s) else Seq (deriv c r) s)"
| "deriv c (Alt r s) = Alt (deriv c r) (deriv c s)"
| "deriv c (Star r) = Seq (deriv c r) (Star r)"

text \<open>Whether the whole string matches.\<close>

fun rmatch :: "rx \<Rightarrow> string \<Rightarrow> bool" where
  "rmatch r [] = nullable r"
| "rmatch r (c # cs) = rmatch (deriv c r) cs"

definition Plus :: "rx \<Rightarrow> rx" where
  "Plus r = Seq r (Star r)"

text \<open>A literal text under \<^verbatim>\<open>re.IGNORECASE\<close>.\<close>

fun lit_ci :: "string \<Rightarrow> rx" where
  "lit_ci [] = Eps"
| "lit_ci (c # cs) = Seq (Cls (\<lambda>x. lower_char x = lower_char c)) (lit_ci cs)"

fun seqs :: "rx list \<Rightarrow> rx" where
  "seqs [] = Eps"
| "seqs (r # rs) = Seq r (seqs rs)"

fun alts :: "rx list \<Rightarrow> rx" where
  "alts [] = Zero"
| "alts (r # rs) = Alt r (alts rs)"

text \<open>
  A lazy group \<^verbatim>\<open>(C+?)\<close> at the start of a pattern whose remainder \<open>r\<close> must match the
  rest of the string: the shortest non-empty prefix of characters of the class \<open>P\<close>
  after which \<open>r\<close> matches. \<open>pre\<close> is the prefix consumed so far.
\<close>

fun lazy_group :: "(char \<Rightarrow> bool) \<Rightarrow> rx \<Rightarrow> string \<Rightarrow> string \<Rightarrow> string option" where
  "lazy_group P r pre [] = (if pre \<noteq> [] \<and> rmatch r [] then Some pre else None)"
| "lazy_group P r pre (c # cs) =
     (if pre \<noteq> [] \<and> rmatch r (c # cs) then Some pre
      else if P c then lazy_group P r (pre @ [c]) cs else None)"

section \<open>Team names\<close>

text \<open>\<^verbatim>\<open>TEAM_ALIASES\<close> (pod_utils.py, lines 191-215), in the order of the source.\<close>

definition TEAM_ALIASES :: "(string \<times> string list) list" where
  "TEAM_ALIASES =
     [(''north korea'', [''korea dpr'', ''dpr korea'', ''democratic people's republic of korea'']),
      (''south korea'', [''korea republic'', ''republic of korea'']),
      (''ivory coast'', [''cote d'ivoire'']),
      (''czech republic'', [''czechia'']),
      (''united states'', [''usa'', ''us'', ''united states of america'']),
      (''iran'', [''iran'', ''iran isl'', ''islamic republic of iran'']),
      (''russia'', [''russian federation'']),
      (''tottenham'', [''tottenham hotspur'', ''spurs'']),
      (''psg'', [''paris saint germain'', ''paris sg'']),
      (''tiger cats'', [''tiger-cats'', ''hamilton tiger cats'', ''hamilton tiger-cats'']),
      (''blue bombers'', [''winnipeg blue bombers'']),
      (''roughriders'', [''saskatchewan roughriders'']),
      (''stampeders'', [''calgary stampeders'']),
      (''eskimos'', [''edmonton eskimos'', ''edmonton elks'']),
      (''redblacks'', [''ottawa redblacks'']),
      (''argonauts'', [''toronto argonauts'']),
      (''alouettes'', [''montreal alouettes'']),
      (''lions'', [''bc lions'', ''british columbia lions'']),
      (''new york'', [''ny'']),
      (''los angeles'', [''la'']),
      (''st louis'', [''st. louis'']),
      (''inter'', [''inter milan'', ''internazionale'']),
      (''altach'', [''rheindorf altach'', ''scr altach''])]"

text \<open>\<^verbatim>\<open>alias_normalize\<close> (lines 217-223).\<close>

fun alias_lookup :: "(string \<times> string list) list \<Rightarrow> string \<Rightarrow> string" where
  "alias_lookup [] name = name"
| "alias_lookup ((canonical, aliases) # rest) name =
     (if name = canonical \<or> name \<in> set aliases then canonical else alias_lookup rest name)"

definition alias_normalize :: "string \<Rightarrow> string" where
  "alias_normalize name = alias_lookup TEAM_ALIASES (strip (lower name))"

text \<open>\<^verbatim>\<open>re.sub(r'^\d+\s*', '', name)\<close>.\<close>

definition strip_leading_number :: "string \<Rightarrow> string" where
  "strip_leading_number s =
     (case s of
        [] \<Rightarrow> []
      | c # cs \<Rightarrow> if is_digit c then dropWhile is_space (dropWhile is_digit s) else s)"

text \<open>
  The pitcher patterns (lines 233-242), each \<^verbatim>\<open>^([A-Za-z\s]+?)\<close> followed by one of the
  remainders below up to the end of the name. Under \<^verbatim>\<open>re.IGNORECASE\<close> the classes
  \<^verbatim>\<open>[A-Z]\<close> and \<^verbatim>\<open>[a-z]\<close> are both any letter.
\<close>

definition pitcher_tail :: rx where
  "pitcher_tail =
     seqs [Star (Cls is_space), Cls (\<lambda>c. c = CHR ''-''), Star (Cls is_space),
           Cls (\<lambda>c. lower_char c = CHR ''l'' \<or> lower_char c = CHR ''r''),
           Plus (Cls is_space), lit_ci ''must'', Plus (Cls is_space), lit_ci ''start'']"

definition pitcher_patterns :: "rx list" where
  "pitcher_patterns =
     [seqs [Cls is_alpha, Star (Cls is_alpha), Plus (Cls is_space),
            Cls is_alpha, Star (Cls is_alpha), pitcher_tail],
      seqs [Cls is_alpha, Star (Cls is_alpha), pitcher_tail],
      seqs [Cls is_alpha, pitcher_tail]]"

fun strip_pitcher :: "rx list \<Rightarrow> string \<Rightarrow> string" where
  "strip_pitcher [] name = name"
| "strip_pitcher (p # ps) name =
     (case lazy_group (\<lambda>c. is_alpha c \<or> is_space c) p [] name of
        Some g \<Rightarrow> strip g
      | None \<Rightarrow> strip_pitcher ps name)"

text \<open>
  The prop and future phrases (line 245): \<^verbatim>\<open>re.match\<close> of \<^verbatim>\<open>(.+?)\s*(?:...)\<close>, not
  anchored at the end; a dot is any character but a newline.
\<close>

definition not_newline :: "char \<Rightarrow> bool" where
  "not_newline c = (c \<noteq> CHR 0x0A)"

definition trophy_rest :: rx where
  "trophy_rest =
     seqs [Star (Cls is_space),
           alts [lit_ci ''to lift the trophy'', lit_ci ''lift the trophy'',
                 Seq (lit_ci ''to win'') (Star (Cls not_newline)),
                 Seq (lit_ci ''wins'') (Star (Cls not_newline)),
                 lit_ci ''(match)'', lit_ci ''series price'', lit_ci ''to win series'',
                 lit_ci ''(corners)''],
           Star (Cls (\<lambda>c. True))]"

definition strip_trophy :: "string \<Rightarrow> string" where
  "strip_trophy name =
     (case lazy_group not_newline trophy_rest [] name of
        Some g \<Rightarrow> strip g
      | None \<Rightarrow> name)"

text \<open>
  \<^verbatim>\<open>re.sub(r'\s*\((?:games|sets|...)\)$', '', s)\<close> (line 249): a market tag in parentheses
  at the very end goes, with the whitespace before it.
\<close>

definition market_tags :: "string list" where
  "market_tags = [''games'', ''sets'', ''match'', ''hits+runs+errors'', ''h+r+e'', ''hre'', ''corners'']"

definition strip_market_tag :: "string \<Rightarrow> string" where
  "strip_market_tag s =
     (case find (\<lambda>t. endswith s (''('' @ t @ '')'')) market_tags of
        Some t \<Rightarrow> rstrip (take (length s - (length t + 2)) s)
      | None \<Rightarrow> s)"

text \<open>
  \<^verbatim>\<open>re.sub(r'\s*\([^)]*\)', '', s)\<close> (line 250): from left to right, every parenthesised
  segment goes, with the whitespace before it; an opening parenthesis that is never
  closed stays.
\<close>

function remove_parens :: "string \<Rightarrow> string" where
  "remove_parens [] = []"
| "remove_parens (c # cs) =
     (case dropWhile is_space (c # cs) of
        [] \<Rightarrow> c # remove_parens cs
      | p # r \<Rightarrow>
          if p = CHR ''('' \<and> CHR '')'' \<in> set r
          then remove_parens (drop 1 (dropWhile (\<lambda>x. x \<noteq> CHR '')'') r))
          else c # remove_parens cs)"
  by pat_completeness auto
termination
proof (relation "measure length")
  show "wf (measure length)" by simp
next
  fix c :: char and cs :: string
  show "(cs, c # cs) \<in> measure length" by simp
next
  fix c p :: char and cs r :: string
  assume d: "dropWhile is_space (c # cs) = p # r"
  have "length (p # r) \<le> length (c # cs)"
    unfolding d[symmetric] by (rule length_dropWhile_le)
  moreover have "length (dropWhile (\<lambda>x. x \<noteq> CHR '')'') r) \<le> length r"
    by (rule length_dropWhile_le)
  ultimately show "(drop 1 (dropWhile (\<lambda>x. x \<noteq> CHR '')'') r), c # cs) \<in> measure length"
    by simp
next
  fix c p :: char and cs r :: string
  show "(cs, c # cs) \<in> measure length" by simp
qed

text \<open>The league and country suffixes (lines 251-263), one after the other.\<close>

definition league_country_suffixes :: "string list" where
  "league_country_suffixes =
     [''mlb'', ''nba'', ''nfl'', ''nhl'', ''ncaaf'', ''ncaab'', ''wnba'',
      ''poland'', ''bulgaria'', ''uruguay'', ''colombia'', ''peru'', ''argentina'',
      ''sweden'', ''romania'', ''finland'', ''england'', ''japan'', ''austria'',
      ''liga 1'', ''serie a'', ''bundesliga'', ''la liga'', ''ligue 1'', ''premier league'',
      ''epl'', ''mls'', ''tipico bundesliga'']"

definition strip_suffix :: "string \<Rightarrow> string \<Rightarrow> string" where
  "strip_suffix norm_name suffix =
     (if endswith (lower norm_name) suffix then
        (let temp_name = strip (take (length norm_name - length suffix) norm_name)
         in if temp_name \<noteq> [] \<or> length norm_name = length suffix then temp_name else norm_name)
      else norm_name)"

text \<open>The common prefixes (lines 264-268), one pass over the list.\<close>

definition common_prefixes :: "string list" where
  "common_prefixes =
     [''if '', ''fc '', ''sc '', ''bk '', ''sk '', ''ac '', ''as '', ''fk '', ''cd '', ''ca '',
      ''afc '', ''cfr '', ''kc '', ''scr '']"

definition strip_prefix :: "string \<Rightarrow> string \<Rightarrow> string" where
  "strip_prefix norm_name p =
     (if startswith norm_name p then strip (drop (length p) norm_name) else norm_name)"

text \<open>The fixed rewrites (lines 269-276), decided on the lower-cased name as it was
  before the suffixes and prefixes went.\<close>

definition fixed_rewrites :: "string \<Rightarrow> string \<Rightarrow> string" where
  "fixed_rewrites name_lower norm_name =
     (if contains name_lower ''tottenham hotspur'' then ''tottenham''
      else if contains name_lower ''paris saint germain'' \<or> contains name_lower ''paris sg''
      then ''psg''
      else if contains name_lower ''new york'' then replace_all ''new york'' ''ny'' norm_name
      else if contains name_lower ''los angeles'' then replace_all ''los angeles'' ''la'' norm_name
      else if contains name_lower ''st louis'' then replace_all ''st louis'' ''st. louis'' norm_name
      else if contains name_lower ''inter milan'' \<or> name_lower = ''internazionale'' then ''inter''
      else if contains name_lower ''rheindorf altach'' then ''altach''
      else if contains name_lower ''scr altach'' then ''altach''
      else norm_name)"

text \<open>\<^verbatim>\<open>re.sub(r'^[^\w]+|[^\w]+$', '', s)\<close> and \<^verbatim>\<open>re.sub(r'[^\w\s\.\-\+]', '', s)\<close>
  (lines 277-278).\<close>

definition trim_non_word :: "string \<Rightarrow> string" where
  "trim_non_word s =
     rev (dropWhile (\<lambda>c. \<not> is_word c) (rev (dropWhile (\<lambda>c. \<not> is_word c) s)))"

definition keep_name_chars :: "string \<Rightarrow> string" where
  "keep_name_chars s =
     filter (\<lambda>c. is_word c \<or> is_space c \<or> c = CHR ''.'' \<or> c = CHR ''-'' \<or> c = CHR ''+'') s"

text \<open>\<^verbatim>\<open>normalize_team_name_for_matching\<close> (lines 225-280).\<close>

definition normalize_team_name_for_matching :: "string \<Rightarrow> string" where
  "normalize_team_name_for_matching original =
     (if original = [] then []
      else
        let name1 = strip (strip_leading_number original);
            name2 = strip_pitcher pitcher_patterns name1;
            name = strip_trophy name2;
            n1 = strip (strip_market_tag (lower name));
            n2 = strip (remove_parens n1);
            n3 = foldl strip_suffix n2 league_country_suffixes;
            n4 = foldl strip_prefix n3 common_prefixes;
            n5 = foldl strip_prefix n4 common_prefixes;
            n6 = fixed_rewrites (lower name) n5;
            n7 = keep_name_chars (trim_non_word n6);
            final_normalized_name = strip (join_blank (split_ws n7))
        in if final_normalized_name \<noteq> [] then final_normalized_name
           else strip (lower original))"

text \<open>
  The language of a regular expression, against which the matcher is justified, and the
  normaliser without its two regular-expression steps (the pitcher patterns and the
  prop and future phrases), which it equals on names that those steps leave alone.
\<close>

inductive_set star :: "string set \<Rightarrow> string set" for A :: "string set" where
  star_nil: "[] \<in> star A"
| star_step: "u \<in> A \<Longrightarrow> v \<in> star A \<Longrightarrow> u @ v \<in> star A"

fun lang :: "rx \<Rightarrow> string set" where
  "lang Zero = {}"
| "lang Eps = {[]}"
| "lang (Cls P) = {[c] | c. P c}"
| "lang (Seq r s) = {u @ v | u v. u \<in> lang r \<and> v \<in> lang s}"
| "lang (Alt r s) = lang r \<union> lang s"
| "lang (Star r) = star (lang r)"

text \<open>The phrases one of which every match of the prop and future pattern contains.\<close>

definition trophy_phrases :: "string list" where
  "trophy_phrases =
     [''lift the trophy'', ''to win'', ''wins'', ''(match)'', ''series price'', ''(corners)'']"

definition has_trophy_phrase :: "string \<Rightarrow> bool" where
  "has_trophy_phrase s = list_ex (contains (lower s)) trophy_phrases"

definition normalize_plain :: "string \<Rightarrow> string" where
  "normalize_plain original =
     (if original = [] then []
      else
        let name = strip (strip_leading_number original);
            n1 = strip (strip_market_tag (lower name));
            n2 = strip (remove_parens n1);
            n3 = foldl strip_suffix n2 league_country_suffixes;
            n4 = foldl strip_prefix n3 common_prefixes;
            n5 = foldl strip_prefix n4 common_prefixes;
            n6 = fixed_rewrites (lower name) n5;
            n7 = keep_name_chars (trim_non_word n6);
            final_normalized_name = strip (join_blank (split_ws n7))
        in if final_normalized_name \<noteq> [] then final_normalized_name
           else strip (lower original))"

section \<open>Matching reference events to secondary games\<close>

text \<open>
  \<^verbatim>\<open>match_pinnacle_to_betbck\<close> of \<^verbatim>\<open>backend/match_games.py\<close> (lines 252-560) on JSON-shaped
  values. Three things the source takes from outside are parameters of the model:
  \<open>tsr\<close> is \<^verbatim>\<open>rapidfuzz\<close>'s \<^verbatim>\<open>token_set_ratio\<close>, or \<open>None\<close> where the import failed and the
  name is bound to \<^verbatim>\<open>None\<close>; \<open>far_apart a b\<close> tells whether the time check, inside its
  \<^verbatim>\<open>try\<close>, finds the two \<^verbatim>\<open>event_datetime\<close> values more than 86400 seconds apart (it is
  false where parsing raises); \<open>py_str v\<close> is \<^verbatim>\<open>str(v)\<close> for a value that is no string. The
  set \<^verbatim>\<open>matched_betbck_ids\<close>, kept as an attribute of the function from one call to the
  next, is passed in and returned. Logging is left out, except where building a
  message can raise; what the attribute holds after an exception is not modelled.
\<close>











































section \<open>Verified properties\<close>

subsection \<open>Odds arithmetic\<close>

lemma py_round_of_int: "py_round (of_int n) = n"
  by (simp add: py_round_def)

lemma round_trip_negative:
  assumes "- 100000 \<le> a" and "a \<le> - 101"
  shows "decimal_to_american (opt_num (american_to_decimal (JNum (of_int a)))) = Some (py_str_int a)"
proof -
  define r where "r = (of_int a :: real)"
  have r: "r \<le> - 101" "- 100000 \<le> r"
    using assms by (simp_all add: r_def)
  have d: "american_to_decimal (JNum r) = Some (100 / \<bar>r\<bar> + 1)"
    using r by (simp add: odds_to_decimal_def)
  have not_low: "\<not> (100 / \<bar>r\<bar> + 1 \<le> 10001 / 10000)"
    using r by (simp add: field_simps)
  have not_high: "\<not> (2 \<le> 100 / \<bar>r\<bar> + 1)"
    using r by (simp add: field_simps)
  have inv: "- 100 / (100 / \<bar>r\<bar> + 1 - 1) = r"
    using r by (simp add: field_simps)
  show ?thesis
    unfolding r_def[symmetric] d using not_low not_high inv by (simp add: r_def py_round_of_int)
qed

lemma round_trip_positive:
  assumes "100 \<le> a"
  shows "decimal_to_american (opt_num (american_to_decimal (JNum (of_int a))))
           = Some (CHR ''+'' # py_str_int a)"
  using assms by (simp add: odds_to_decimal_def py_round_of_int)

text \<open>
  C2 (odds round-trip), as amended. For an American price \<open>a\<close> with \<open>100 \<le> a \<le> 100000\<close>
  or \<open>-100000 \<le> a \<le> -101\<close>, converting to decimal and back gives the decimal rendering
  of \<open>a\<close>, written with an explicit plus sign when \<open>a\<close> is positive.
\<close>

theorem odds_round_trip:
  assumes "(100 \<le> a \<and> a \<le> 100000) \<or> (- 100000 \<le> a \<and> a \<le> - 101)"
  shows "decimal_to_american (opt_num (american_to_decimal (JNum (of_int a))))
           = Some (if 0 < a then CHR ''+'' # py_str_int a else py_str_int a)"
  using assms round_trip_positive[of a] round_trip_negative[of a] by auto

theorem odds_round_trip_witness:
  "decimal_to_american (opt_num (american_to_decimal (JNum 150))) = Some ''+150'' \<and>
   decimal_to_american (opt_num (american_to_decimal (JNum (- 110)))) = Some ''-110''"
  using odds_round_trip[of 150] odds_round_trip[of "- 110"]
  by (simp add: py_str_int_def digit_char_def)

text \<open>
  The claim as stated fails at \<open>a = -100\<close>: the decimal price is exactly 2, which
  \<^verbatim>\<open>decimal_to_american\<close> renders as \<^verbatim>\<open>+100\<close>, not as \<^verbatim>\<open>-100\<close>.
\<close>

theorem odds_round_trip_counterexample:
  "decimal_to_american (opt_num (american_to_decimal (JNum (of_int (- 100))))) = Some ''+100'' \<and>
   decimal_to_american (opt_num (american_to_decimal (JNum (of_int (- 100)))))
     \<noteq> Some (py_str_int (- 100))"
  by (simp add: odds_to_decimal_def py_round_def py_str_int_def digit_char_def)

text \<open>
  C4 (EV definition), as amended. On numbers, \<^verbatim>\<open>calculate_ev\<close> is
  \<open>bet_decimal / true_decimal - 1\<close> when both are positive and the number 0 otherwise.
\<close>

theorem calculate_ev_value:
  "calculate_ev (JNum b) (JNum t) = Inr (JNum (if 0 < b \<and> 0 < t then b / t - 1 else 0))"
  by (cases "b \<le> 0"; cases "t \<le> 0") (auto simp: calculate_ev_def le_zero_def)

theorem calculate_ev_value_witness:
  "calculate_ev (JNum 2) (JNum (8 / 5)) = Inr (JNum (1 / 4)) \<and>
   calculate_ev (JNum 2) (JNum (- 3)) = Inr (JNum 0)"
  using calculate_ev_value[of 2 "8 / 5"] calculate_ev_value[of 2 "- 3"] by simp

text \<open>
  The claim as stated fails where an argument is non-positive: the result is the number
  0, not an absent value.
\<close>

theorem calculate_ev_counterexample:
  "calculate_ev (JNum (- 1)) (JNum 2) = Inr (JNum 0) \<and> JNum 0 \<noteq> JNone"
  by (simp add: calculate_ev_def le_zero_def)

subsection \<open>No-vig prices\<close>

lemma concat_if_filter: "concat (map (\<lambda>i. if P i then [i] else []) l) = filter P l"
  by (induction l) simp_all

lemma valid_odds_indices_filter:
  "valid_odds_indices xs = filter (\<lambda>i. valid_odd (xs ! i)) [0..<length xs]"
  by (simp add: valid_odds_indices_def concat_if_filter)

lemma valid_odds_indices_distinct: "distinct (valid_odds_indices xs)"
  by (simp add: valid_odds_indices_filter)

lemma valid_odds_indices_set:
  "i \<in> set (valid_odds_indices xs) \<longleftrightarrow> i < length xs \<and> valid_odd (xs ! i)"
  by (simp add: valid_odds_indices_filter)

lemma odd_value_pos: "valid_odd v \<Longrightarrow> 0 < odd_value v"
  by (cases "num_of v") (simp_all add: valid_odd_def odd_value_def)

lemma sum_list_map_pos:
  fixes f :: "'a \<Rightarrow> real"
  assumes "l \<noteq> []" and "\<forall>x\<in>set l. 0 < f x"
  shows "0 < sum_list (map f l)"
  using assms
proof (induction l)
  case Nil
  then show ?case by simp
next
  case (Cons a l)
  show ?case
  proof (cases "l = []")
    case True
    then show ?thesis using Cons.prems by simp
  next
    case False
    then have "0 < sum_list (map f l)" using Cons by simp
    moreover have "0 < f a" using Cons.prems by simp
    ultimately show ?thesis by simp
  qed
qed


lemma nvp_no_zero:
  "\<not> list_ex (\<lambda>x. x = 0) (map (\<lambda>i. odd_value (xs ! i)) (valid_odds_indices xs))"
proof
  assume "list_ex (\<lambda>x. x = 0) (map (\<lambda>i. odd_value (xs ! i)) (valid_odds_indices xs))"
  then obtain i where "i \<in> set (valid_odds_indices xs)" and "odd_value (xs ! i) = 0"
    by (auto simp: list_ex_iff)
  then show False
    using odd_value_pos[of "xs ! i"] by (simp add: valid_odds_indices_set)
qed

lemma nvp_sum_pos:
  assumes "2 \<le> length (valid_odds_indices xs)"
  shows "0 < sum_list (map (\<lambda>x. 1 / x) (map (\<lambda>i. odd_value (xs ! i)) (valid_odds_indices xs)))"
proof -
  have ne: "map (\<lambda>i. odd_value (xs ! i)) (valid_odds_indices xs) \<noteq> []"
    using assms by auto
  have "\<forall>x\<in>set (map (\<lambda>i. odd_value (xs ! i)) (valid_odds_indices xs)). 0 < 1 / x"
    by (auto simp: valid_odds_indices_set odd_value_pos)
  with ne show ?thesis by (rule sum_list_map_pos)
qed


lemma nvp_pass_eq:
  assumes h1: "2 \<le> length (valid_odds_indices xs)"
    and h2: "sum_list (map (\<lambda>x. 1 / x) (map (\<lambda>i. odd_value (xs ! i)) (valid_odds_indices xs)))
               \<le> 10001 / 10000"
  shows "calculate_nvp_for_market xs =
     place_nvps (replicate (length xs) None) (valid_odds_indices xs)
       (map Some (map (\<lambda>i. odd_value (xs ! i)) (valid_odds_indices xs)))"
proof -
  have nlt: "\<not> length (valid_odds_indices xs) < 2"
    using h1 by simp
  have nzs: "sum_list (map (\<lambda>x. 1 / x) (map (\<lambda>i. odd_value (xs ! i)) (valid_odds_indices xs))) \<noteq> 0"
    using nvp_sum_pos[OF h1] by simp
  show ?thesis
    unfolding calculate_nvp_for_market_def Let_def
    by (simp only: nlt nvp_no_zero nzs h2 if_False if_True)
qed


lemma place_nvps_length: "length (place_nvps l idxs vs) = length l"
  by (induction l idxs vs rule: place_nvps.induct) simp_all

lemma place_nvps_map:
  "distinct idxs \<Longrightarrow> \<forall>j\<in>set idxs. j < length l \<Longrightarrow> i < length l \<Longrightarrow>
   place_nvps l idxs (map f idxs) ! i = (if i \<in> set idxs then f i else l ! i)"
proof (induction idxs arbitrary: l)
  case Nil
  then show ?case by simp
next
  case (Cons j js)
  have "place_nvps l (j # js) (map f (j # js)) ! i = place_nvps (l[j := f j]) js (map f js) ! i"
    by simp
  also have "\<dots> = (if i \<in> set js then f i else (l[j := f j]) ! i)"
    using Cons.prems by (intro Cons.IH) simp_all
  also have "\<dots> = (if i \<in> set (j # js) then f i else l ! i)"
    using Cons.prems by (auto simp: nth_list_update)
  finally show ?case .
qed

text \<open>
  C3 (no-vig pass-through), as amended. With fewer than two valid entries every output is
  absent. With at least two valid entries whose implied probabilities sum to at most
  1.0001, every valid entry's fair price is its input price and every other output is
  absent.
\<close>

theorem nvp_pass_through:
  "(length (valid_odds_indices xs) < 2 \<longrightarrow>
      calculate_nvp_for_market xs = replicate (length xs) None) \<and>
   (2 \<le> length (valid_odds_indices xs) \<and>
    sum_list (map (\<lambda>i. 1 / odd_value (xs ! i)) (valid_odds_indices xs)) \<le> 10001 / 10000 \<longrightarrow>
      length (calculate_nvp_for_market xs) = length xs \<and>
      (\<forall>i<length xs. calculate_nvp_for_market xs ! i =
         (if valid_odd (xs ! i) then Some (odd_value (xs ! i)) else None)))"
proof (intro conjI impI)
  assume "length (valid_odds_indices xs) < 2"
  then show "calculate_nvp_for_market xs = replicate (length xs) None"
    unfolding calculate_nvp_for_market_def Let_def by (simp only: if_True)
next
  assume h: "2 \<le> length (valid_odds_indices xs) \<and>
    sum_list (map (\<lambda>i. 1 / odd_value (xs ! i)) (valid_odds_indices xs)) \<le> 10001 / 10000"
  let ?idxs = "valid_odds_indices xs"
  let ?init = "replicate (length xs) (None :: real option)"
  let ?f = "\<lambda>i. Some (odd_value (xs ! i))"
  have sum_eq: "sum_list (map (\<lambda>x. 1 / x) (map (\<lambda>i. odd_value (xs ! i)) ?idxs))
      = sum_list (map (\<lambda>i. 1 / odd_value (xs ! i)) ?idxs)"
    by (simp only: map_map comp_def)
  have map_eq: "map Some (map (\<lambda>i. odd_value (xs ! i)) ?idxs) = map ?f ?idxs"
    by (simp only: map_map comp_def)
  have eq: "calculate_nvp_for_market xs = place_nvps ?init ?idxs (map ?f ?idxs)"
    using nvp_pass_eq[of xs] h by (simp only: sum_eq map_eq)
  show "length (calculate_nvp_for_market xs) = length xs"
    by (simp only: eq place_nvps_length length_replicate)
  show "\<forall>i<length xs. calculate_nvp_for_market xs ! i =
         (if valid_odd (xs ! i) then Some (odd_value (xs ! i)) else None)"
  proof (intro allI impI)
    fix i assume i: "i < length xs"
    have bound: "\<forall>j\<in>set ?idxs. j < length ?init"
      by (simp add: valid_odds_indices_set)
    have "place_nvps ?init ?idxs (map ?f ?idxs) ! i = (if i \<in> set ?idxs then ?f i else ?init ! i)"
      using valid_odds_indices_distinct bound by (rule place_nvps_map) (simp add: i)
    then show "calculate_nvp_for_market xs ! i =
         (if valid_odd (xs ! i) then Some (odd_value (xs ! i)) else None)"
      using i by (simp add: eq valid_odds_indices_set)
  qed
qed


theorem nvp_pass_through_witness:
  "calculate_nvp_for_market [JNum 3, JNone] = [None, None] \<and>
   calculate_nvp_for_market [JNum (21 / 10), JNone, JNum (21 / 10)] ! 0 = Some (21 / 10) \<and>
   calculate_nvp_for_market [JNum (21 / 10), JNone, JNum (21 / 10)] ! 1 = None \<and>
   calculate_nvp_for_market [JNum (21 / 10), JNone, JNum (21 / 10)] ! 2 = Some (21 / 10)"
proof -
  let ?xs = "[JNum (21 / 10), JNone, JNum (21 / 10)]"
  have idx1: "valid_odds_indices [JNum 3, JNone] = [0]"
    by (simp add: valid_odds_indices_def valid_odd_def upt_rec)
  have idx2: "valid_odds_indices ?xs = [0, 2]"
    by (simp add: valid_odds_indices_def valid_odd_def upt_rec)
  have a: "calculate_nvp_for_market [JNum 3, JNone] = [None, None]"
    using nvp_pass_through[of "[JNum 3, JNone]"] unfolding idx1 by simp
  have b: "\<forall>i<length ?xs. calculate_nvp_for_market ?xs ! i =
         (if valid_odd (?xs ! i) then Some (odd_value (?xs ! i)) else None)"
    using nvp_pass_through[of ?xs] unfolding idx2 by (simp add: odd_value_def)
  have "calculate_nvp_for_market ?xs ! 0 = Some (21 / 10)"
    using b[rule_format, of 0] by (simp add: valid_odd_def odd_value_def)
  moreover have "calculate_nvp_for_market ?xs ! 1 = None"
    using b[rule_format, of 1] by (simp add: valid_odd_def odd_value_def)
  moreover have "calculate_nvp_for_market ?xs ! 2 = Some (21 / 10)"
    using b[rule_format, of 2] by (simp add: valid_odd_def odd_value_def)
  ultimately show ?thesis using a by simp
qed

text \<open>
  The claim as stated fails with exactly one valid entry: its output is absent, not its
  input price.
\<close>

theorem nvp_pass_through_counterexample:
  "valid_odd (JNum 2) \<and> length (valid_odds_indices [JNum 2]) < 2 \<and>
   calculate_nvp_for_market [JNum 2] ! 0 = None \<and>
   calculate_nvp_for_market [JNum 2] ! 0 \<noteq> Some 2"
  by (simp add: calculate_nvp_for_market_def valid_odds_indices_def valid_odd_def)

subsection \<open>The EV engine: totality and the period guard\<close>

lemma ebind_Inr: "ebind m f = Inr v \<longleftrightarrow> (\<exists>x. m = Inr x \<and> f x = Inr v)"
  by (cases m) (simp_all add: ebind_def)

lemma get0_dict: "is_dict d \<Longrightarrow> \<exists>v. get0 d k = Inr v"
  by (cases d) (simp_all add: is_dict_def get0_def py_get_def)

lemma py_get_dict: "is_dict d \<Longrightarrow> \<exists>v. py_get d k dflt = Inr v"
  by (cases d) (simp_all add: is_dict_def py_get_def)

lemma py_get_not_dict: "\<not> is_dict d \<Longrightarrow> py_get d k dflt = Inl AttributeError"
  by (cases d) (simp_all add: is_dict_def py_get_def)

lemma index_after_get:
  "get0 d k = Inr v \<Longrightarrow> truthy v \<Longrightarrow> py_index d k = Inr v"
  by (cases d) (auto simp: get0_def py_get_def py_index_def split: option.splits)

lemma analyze_Inr_iff:
  "analyze_markets_for_ev max_depth fl bet_data pinnacle_data = Inr res \<longleftrightarrow>
     (truthy bet_data \<longrightarrow> depth bet_data \<le> max_depth) \<and>
     (truthy pinnacle_data \<longrightarrow> depth pinnacle_data \<le> max_depth) \<and>
     analyze_copies fl (if truthy bet_data then bet_data else JDict [])
       (if truthy pinnacle_data then pinnacle_data else JDict []) = Inr res"
  by (simp add: analyze_markets_for_ev_def deepcopy_def ebind_def)

lemma analyze_Inl_iff:
  "analyze_markets_for_ev max_depth fl bet_data pinnacle_data = Inl e \<longleftrightarrow>
     (truthy bet_data \<and> max_depth < depth bet_data \<or>
      truthy pinnacle_data \<and> max_depth < depth pinnacle_data) \<and> e = RecursionError \<or>
     (truthy bet_data \<longrightarrow> depth bet_data \<le> max_depth) \<and>
     (truthy pinnacle_data \<longrightarrow> depth pinnacle_data \<le> max_depth) \<and>
     analyze_copies fl (if truthy bet_data then bet_data else JDict [])
       (if truthy pinnacle_data then pinnacle_data else JDict []) = Inl e"
  by (auto simp: analyze_markets_for_ev_def deepcopy_def ebind_def)

lemma analyze_copies_total:
  "(\<exists>rows logs. analyze_copies fl b p = Inr (rows, logs)) \<and>
   (\<forall>e. analyze_body fl b p = Inl e \<longrightarrow> (\<exists>logs. analyze_copies fl b p = Inr ([], logs)))"
proof (cases "fst (validate_period_separation b p) \<and> truthy p \<and> is_dict p")
  case False
  then show ?thesis
    unfolding analyze_copies_def Let_def by auto
next
  case True
  then obtain d where d: "get0 p ''data'' = Inr d"
    using get0_dict by blast
  show ?thesis
  proof (cases "truthy d")
    case False
    then show ?thesis
      unfolding analyze_copies_def Let_def
      using True d by (simp add: ebind_def)
  next
    case t: True
    have i: "py_index p ''data'' = Inr d"
      using d t by (rule index_after_get)
    show ?thesis
      unfolding analyze_copies_def Let_def
      using True d t i
      by (cases "analyze_body fl b p") (auto simp: ebind_def)
  qed
qed

lemma depth_nested: "depth (nested n) = Suc n"
  by (induction n) simp_all

text \<open>
  C10 (EV engine totality), as amended. \<^verbatim>\<open>analyze_markets_for_ev\<close> returns a list of
  rows exactly when each argument that is copied (each truthy argument) is nested no
  deeper than \<^verbatim>\<open>copy.deepcopy\<close> can copy; the only exception that escapes is the
  \<^verbatim>\<open>RecursionError\<close> of a copy; and when the copies succeed and the protected body
  raises, the list returned is empty. This holds for every pair of values, \<^verbatim>\<open>None\<close>,
  non-dictionaries and malformed sub-objects included, and every reading of strings as
  floats.
\<close>

theorem analyze_total:
  "((\<exists>rows logs. analyze_markets_for_ev max_depth fl bet_data pinnacle_data = Inr (rows, logs)) \<longleftrightarrow>
      (truthy bet_data \<longrightarrow> depth bet_data \<le> max_depth) \<and>
      (truthy pinnacle_data \<longrightarrow> depth pinnacle_data \<le> max_depth)) \<and>
   (\<forall>e. analyze_markets_for_ev max_depth fl bet_data pinnacle_data = Inl e \<longrightarrow> e = RecursionError) \<and>
   (\<forall>e. (truthy bet_data \<longrightarrow> depth bet_data \<le> max_depth) \<and>
        (truthy pinnacle_data \<longrightarrow> depth pinnacle_data \<le> max_depth) \<and>
        analyze_body fl (if truthy bet_data then bet_data else JDict [])
           (if truthy pinnacle_data then pinnacle_data else JDict []) = Inl e \<longrightarrow>
        (\<exists>logs. analyze_markets_for_ev max_depth fl bet_data pinnacle_data = Inr ([], logs)))"
proof -
  define b where "b = (if truthy bet_data then bet_data else JDict [])"
  define p where "p = (if truthy pinnacle_data then pinnacle_data else JDict [])"
  from analyze_copies_total[of fl b p] obtain rows logs where
    r: "analyze_copies fl b p = Inr (rows, logs)" and
    c: "\<forall>e. analyze_body fl b p = Inl e \<longrightarrow> (\<exists>logs. analyze_copies fl b p = Inr ([], logs))"
    by blast
  have 1: "(\<exists>rows logs. analyze_markets_for_ev max_depth fl bet_data pinnacle_data = Inr (rows, logs)) \<longleftrightarrow>
      (truthy bet_data \<longrightarrow> depth bet_data \<le> max_depth) \<and>
      (truthy pinnacle_data \<longrightarrow> depth pinnacle_data \<le> max_depth)"
    using r unfolding analyze_Inr_iff b_def[symmetric] p_def[symmetric] by blast
  have 2: "\<forall>e. analyze_markets_for_ev max_depth fl bet_data pinnacle_data = Inl e \<longrightarrow> e = RecursionError"
    using r unfolding analyze_Inl_iff b_def[symmetric] p_def[symmetric] by auto
  have 3: "\<forall>e. (truthy bet_data \<longrightarrow> depth bet_data \<le> max_depth) \<and>
        (truthy pinnacle_data \<longrightarrow> depth pinnacle_data \<le> max_depth) \<and>
        analyze_body fl b p = Inl e \<longrightarrow>
        (\<exists>logs. analyze_markets_for_ev max_depth fl bet_data pinnacle_data = Inr ([], logs))"
    using c unfolding analyze_Inr_iff b_def[symmetric] p_def[symmetric] by blast
  from 1 2 3 show ?thesis unfolding b_def p_def by blast
qed

theorem analyze_total_witness:
  "depth (JNum 5) \<le> 100 \<and>
   (\<exists>rows logs. analyze_markets_for_ev 100 (\<lambda>s. None) (JNum 5) JNone = Inr (rows, logs)) \<and>
   analyze_markets_for_ev 100 (\<lambda>s. None) (JNum 5) JNone
     = Inr ([], [Err_validation_exception AttributeError, Err_validation_failed])"
proof -
  have "analyze_markets_for_ev 100 (\<lambda>s. None) (JNum 5) JNone
     = Inr ([], [Err_validation_exception AttributeError, Err_validation_failed])"
    by (simp add: analyze_markets_for_ev_def analyze_copies_def deepcopy_def
        validate_period_separation_def validate_checks_def ebind_def get0_def py_get_def)
  moreover have "depth (JNum 5) \<le> 100" by simp
  ultimately show ?thesis
    using analyze_total[of 100 "\<lambda>s. None" "JNum 5" JNone] by simp
qed

text \<open>
  The claim as stated fails: the copies at lines 542-543 stand before every \<^verbatim>\<open>try\<close>.
  Whatever depth the copy can reach, the list nested one level deeper is copied first
  and the \<^verbatim>\<open>RecursionError\<close> escapes.
\<close>

theorem analyze_total_counterexample:
  "\<forall>max_depth fl pinnacle_data.
     truthy (nested max_depth) \<and> depth (nested max_depth) = Suc max_depth \<and>
     analyze_markets_for_ev max_depth fl (nested max_depth) pinnacle_data = Inl RecursionError"
proof (intro allI conjI)
  fix max_depth :: nat and fl :: "string \<Rightarrow> real option" and pinnacle_data :: json
  show "depth (nested max_depth) = Suc max_depth" by (rule depth_nested)
  show t: "truthy (nested max_depth)" by (cases max_depth) simp_all
  show "analyze_markets_for_ev max_depth fl (nested max_depth) pinnacle_data = Inl RecursionError"
    using t by (simp add: analyze_markets_for_ev_def deepcopy_def ebind_def depth_nested)
qed

lemma get0_not_dict: "\<not> is_dict d \<Longrightarrow> get0 d k = Inl AttributeError"
  by (simp add: get0_def py_get_not_dict)

lemma validate_fires_keys:
  "\<not> fst (validate_period_separation b p) \<longleftrightarrow>
     \<not> is_dict b \<or> \<not> is_dict p \<or>
     (\<exists>pin_data. py_get p ''data'' (JDict []) = Inr pin_data \<and>
        (\<not> is_dict pin_data \<or>
         (\<exists>periods. py_get pin_data ''periods'' (JDict []) = Inr periods \<and>
            (\<not> is_dict periods \<or>
             (\<exists>b1h p1a p1b p0a p0b.
                get0 b ''1H_data'' = Inr b1h \<and>
                get0 periods ''num_1'' = Inr p1a \<and> get0 periods ''1'' = Inr p1b \<and>
                get0 periods ''num_0'' = Inr p0a \<and> get0 periods ''0'' = Inr p0b \<and>
                \<not> truthy p0a \<and> \<not> truthy p0b \<and> (truthy b1h \<or> truthy p1a \<or> truthy p1b))))))"
  (is "?L \<longleftrightarrow> ?R")
proof (cases "is_dict b")
  case False
  then have "validate_checks b p = Inl AttributeError"
    by (simp add: validate_checks_def get0_not_dict ebind_def)
  then have ?L by (simp add: validate_period_separation_def)
  with False show ?thesis by simp
next
  case db: True
  then obtain b1h where b1h: "get0 b ''1H_data'' = Inr b1h" using get0_dict by blast
  show ?thesis
  proof (cases "is_dict p")
    case False
    then have "validate_checks b p = Inl AttributeError"
      by (simp add: validate_checks_def b1h py_get_not_dict ebind_def)
    then have ?L by (simp add: validate_period_separation_def)
    with False show ?thesis by simp
  next
    case dp: True
    then obtain pin_data where pd: "py_get p ''data'' (JDict []) = Inr pin_data"
      using py_get_dict by blast
    show ?thesis
    proof (cases "is_dict pin_data")
      case False
      then have "validate_checks b p = Inl AttributeError"
        by (simp add: validate_checks_def b1h pd py_get_not_dict ebind_def)
      then have ?L by (simp add: validate_period_separation_def)
      with False pd show ?thesis by simp
    next
      case dpd: True
      then obtain periods where per: "py_get pin_data ''periods'' (JDict []) = Inr periods"
        using py_get_dict by blast
      show ?thesis
      proof (cases "is_dict periods")
        case False
        then have "validate_checks b p = Inl AttributeError"
          by (simp add: validate_checks_def b1h pd per get0_not_dict ebind_def)
        then have ?L by (simp add: validate_period_separation_def)
        with False pd per show ?thesis by simp
      next
        case dper: True
        then obtain p1a p1b p0a p0b where g:
          "get0 periods ''num_1'' = Inr p1a" "get0 periods ''1'' = Inr p1b"
          "get0 periods ''num_0'' = Inr p0a" "get0 periods ''0'' = Inr p0b"
          using get0_dict by metis
        have vc: "validate_checks b p =
            Inr (truthy b1h, truthy (if truthy p1a then p1a else p1b),
                 truthy (if truthy p0a then p0a else p0b))"
          by (simp add: validate_checks_def b1h pd per g ebind_def)
        have "?L \<longleftrightarrow> \<not> truthy p0a \<and> \<not> truthy p0b \<and> (truthy b1h \<or> truthy p1a \<or> truthy p1b)"
          by (auto simp: validate_period_separation_def vc split: if_splits)
        also have "\<dots> \<longleftrightarrow> ?R"
          using db dp dpd dper pd per b1h g by simp
        finally show ?thesis .
      qed
    qed
  qed
qed

lemma validate_logs:
  "\<not> fst (validate_period_separation b p) \<Longrightarrow> snd (validate_period_separation b p) \<noteq> []"
  by (cases "validate_checks b p") (auto simp: validate_period_separation_def split: if_splits)

lemma analyze_1h_logs:
  "analyze_1h_markets_for_ev fl b1 p1 pd = (rows, lg) \<Longrightarrow> Err_validation_failed \<notin> set lg"
  by (cases "first_half_rows fl b1 p1 pd") (auto simp: analyze_1h_markets_for_ev_def)

lemma first_half_step_logs:
  "first_half_step fl b periods pd = Inr (rows, lg) \<Longrightarrow> Err_validation_failed \<notin> set lg"
  unfolding first_half_step_def
  by (auto simp: ebind_Inr split: if_splits dest: analyze_1h_logs)

lemma analyze_body_logs:
  "analyze_body fl b p = Inr (rows, lg) \<Longrightarrow> Err_validation_failed \<notin> set lg"
  unfolding analyze_body_def
  by (auto simp: ebind_Inr split: if_splits dest: first_half_step_logs)

lemma analyze_copies_pass_logs:
  assumes "fst (validate_period_separation b p)" and "analyze_copies fl b p = Inr (rows, lg)"
  shows "Err_validation_failed \<notin> set lg"
  using assms unfolding analyze_copies_def Let_def
  by (auto simp: ebind_Inr split: if_splits sum.splits dest: analyze_body_logs)

lemma analyze_copies_abort_iff:
  "(\<exists>logs. logs \<noteq> [] \<and> analyze_copies fl b p = Inr ([], logs @ [Err_validation_failed])) \<longleftrightarrow>
   \<not> fst (validate_period_separation b p)"
proof
  assume "\<exists>logs. logs \<noteq> [] \<and> analyze_copies fl b p = Inr ([], logs @ [Err_validation_failed])"
  then obtain logs where "analyze_copies fl b p = Inr ([], logs @ [Err_validation_failed])" by blast
  then show "\<not> fst (validate_period_separation b p)"
    using analyze_copies_pass_logs[of b p fl "[]" "logs @ [Err_validation_failed]"] by auto
next
  assume f: "\<not> fst (validate_period_separation b p)"
  then have "analyze_copies fl b p
      = Inr ([], snd (validate_period_separation b p) @ [Err_validation_failed])"
    unfolding analyze_copies_def Let_def by simp
  with validate_logs[OF f]
  show "\<exists>logs. logs \<noteq> [] \<and> analyze_copies fl b p = Inr ([], logs @ [Err_validation_failed])"
    by blast
qed

text \<open>
  C6 (period-mismatch abort), as amended. For inputs that can be copied,
  \<^verbatim>\<open>analyze_markets_for_ev\<close> aborts, returning no rows and logging errors the last of
  which is the abort message, exactly when one of the values the guard reads is no
  dictionary (the secondary game, the reference event, its \<^verbatim>\<open>data\<close> entry or the
  \<^verbatim>\<open>periods\<close> entry of that), or the entries \<^verbatim>\<open>num_0\<close> and \<^verbatim>\<open>0\<close> of \<^verbatim>\<open>periods\<close> are both
  falsy while the secondary game's \<^verbatim>\<open>1H_data\<close> or one of the entries \<^verbatim>\<open>num_1\<close> and \<^verbatim>\<open>1\<close>
  of \<^verbatim>\<open>periods\<close> is truthy. Whether period 1 is present does not enter the condition
  when the secondary game has first-half data.
\<close>

theorem period_mismatch_abort:
  assumes "truthy bet_data \<longrightarrow> depth bet_data \<le> max_depth"
    and "truthy pinnacle_data \<longrightarrow> depth pinnacle_data \<le> max_depth"
  shows "(\<exists>logs. logs \<noteq> [] \<and>
            analyze_markets_for_ev max_depth fl bet_data pinnacle_data
              = Inr ([], logs @ [Err_validation_failed])) \<longleftrightarrow>
         (let b = (if truthy bet_data then bet_data else JDict []);
              p = (if truthy pinnacle_data then pinnacle_data else JDict [])
          in \<not> is_dict b \<or> \<not> is_dict p \<or>
             (\<exists>pin_data. py_get p ''data'' (JDict []) = Inr pin_data \<and>
                (\<not> is_dict pin_data \<or>
                 (\<exists>periods. py_get pin_data ''periods'' (JDict []) = Inr periods \<and>
                    (\<not> is_dict periods \<or>
                     (\<exists>b1h p1a p1b p0a p0b.
                        get0 b ''1H_data'' = Inr b1h \<and>
                        get0 periods ''num_1'' = Inr p1a \<and> get0 periods ''1'' = Inr p1b \<and>
                        get0 periods ''num_0'' = Inr p0a \<and> get0 periods ''0'' = Inr p0b \<and>
                        \<not> truthy p0a \<and> \<not> truthy p0b \<and>
                        (truthy b1h \<or> truthy p1a \<or> truthy p1b)))))))"
proof -
  define b where "b = (if truthy bet_data then bet_data else JDict [])"
  define p where "p = (if truthy pinnacle_data then pinnacle_data else JDict [])"
  have "(\<exists>logs. logs \<noteq> [] \<and>
            analyze_markets_for_ev max_depth fl bet_data pinnacle_data
              = Inr ([], logs @ [Err_validation_failed])) \<longleftrightarrow>
        (\<exists>logs. logs \<noteq> [] \<and> analyze_copies fl b p = Inr ([], logs @ [Err_validation_failed]))"
    using assms unfolding analyze_Inr_iff b_def p_def by simp
  also have "\<dots> \<longleftrightarrow> \<not> fst (validate_period_separation b p)"
    by (rule analyze_copies_abort_iff)
  finally show ?thesis
    unfolding Let_def b_def[symmetric] p_def[symmetric] validate_fires_keys .
qed

theorem period_mismatch_abort_witness:
  "depth (JDict [(''1H_data'', JDict [(''home_moneyline_american'', JStr ''+120'')])]) \<le> 100 \<and>
   depth (JDict [(''data'', JDict [(''periods'', JDict [])])]) \<le> 100 \<and>
   get0 (JDict [(''1H_data'', JDict [(''home_moneyline_american'', JStr ''+120'')])]) ''1H_data''
     = Inr (JDict [(''home_moneyline_american'', JStr ''+120'')]) \<and>
   get0 (JDict []) ''num_0'' = Inr JNone \<and> get0 (JDict []) ''0'' = Inr JNone \<and>
   (\<exists>logs. logs \<noteq> [] \<and>
      analyze_markets_for_ev 100 (\<lambda>s. None)
        (JDict [(''1H_data'', JDict [(''home_moneyline_american'', JStr ''+120'')])])
        (JDict [(''data'', JDict [(''periods'', JDict [])])])
      = Inr ([], logs @ [Err_validation_failed]))"
proof -
  let ?b = "JDict [(''1H_data'', JDict [(''home_moneyline_american'', JStr ''+120'')])]"
  let ?p = "JDict [(''data'', JDict [(''periods'', JDict [])])]"
  have d: "truthy ?b \<longrightarrow> depth ?b \<le> 100" "truthy ?p \<longrightarrow> depth ?p \<le> 100" by simp_all
  have "\<exists>logs. logs \<noteq> [] \<and>
      analyze_markets_for_ev 100 (\<lambda>s. None) ?b ?p = Inr ([], logs @ [Err_validation_failed])"
    unfolding period_mismatch_abort[OF d]
    by (simp add: Let_def is_dict_def py_get_def get0_def)
  then show ?thesis by (simp add: get0_def py_get_def)
qed

text \<open>
  The claim as stated names the wrong condition: here the secondary game carries no
  first-half data, the reference event has period 1 and no period 0, and the guard
  fires all the same.
\<close>

theorem period_mismatch_abort_counterexample:
  "get0 (JDict []) ''1H_data'' = Inr JNone \<and>
   analyze_markets_for_ev 100 (\<lambda>s. None) (JDict [])
      (JDict [(''data'', JDict [(''periods'',
         JDict [(''num_1'', JDict [(''money_line'', JDict [])])])])])
    = Inr ([], [Err_1H_Pinnacle_without_full_game, Err_validation_failed])"
  by (simp add: analyze_markets_for_ev_def analyze_copies_def deepcopy_def
      validate_period_separation_def validate_checks_def ebind_def get0_def py_get_def)

subsection \<open>The EV engine: where rows come from\<close>

lemma collect_mem:
  "collect f xs = Inr rows \<Longrightarrow> r \<in> set rows \<Longrightarrow> \<exists>x\<in>set xs. \<exists>rs. f x = Inr rs \<and> r \<in> set rs"
proof (induction xs arbitrary: rows)
  case Nil
  then show ?case by simp
next
  case (Cons a xs)
  from Cons.prems(1) obtain ra rs where a: "f a = Inr ra" and rs: "collect f xs = Inr rs"
    and rows: "rows = ra @ rs"
    by (auto simp: ebind_Inr)
  show ?case
  proof (cases "r \<in> set ra")
    case True
    with a show ?thesis by auto
  next
    case False
    with Cons.prems(2) rows have "r \<in> set rs" by simp
    with Cons.IH[OF rs] show ?thesis by auto
  qed
qed

lemma make_row_props:
  "make_row mkt sel line_c odds pin nvp_key nvp_american_key limit pin_data = Inr (Some r) \<Longrightarrow>
     market r = mkt \<and> selection r = sel \<and> line_c = Inr (line r) \<and> betbck_odds r = odds"
  by (auto simp: make_row_def Let_def ebind_Inr split: if_splits)

lemma make_row_price:
  "make_row mkt sel line_c odds pin nvp_key nvp_american_key limit pin_data = Inr (Some r) \<Longrightarrow>
     py_get pin nvp_american_key (JStr ''N/A'') = Inr (pinnacle_nvp r) \<and>
     (\<exists>true_odds. get0 pin nvp_key = Inr true_odds \<and>
        calculate_ev (opt_num (american_to_decimal odds)) true_odds = Inr (ev r))"
  by (auto simp: make_row_def Let_def ebind_Inr split: if_splits)

lemma rows_of_mem: "r \<in> set (rows_of x) \<longleftrightarrow> x = Some r"
  by (cases x) (auto simp: rows_of_def)

lemma spread_pair_props:
  assumes "r \<in> set (spread_pair fl mkt away s bet_line pin_spread hdp meta_limits pin_data)"
  shows "\<exists>x y. py_float fl bet_line = Inr x \<and> py_float fl hdp = Inr y \<and>
           isclose x (if away then - y else y) \<and>
           market r = mkt \<and> selection r = (if away then ''Away'' else ''Home'') \<and>
           get0 s ''odds'' = Inr (betbck_odds r) \<and>
           (if away then \<exists>n. py_neg hdp = Inr n \<and> line r = [Str n] else line r = [Str hdp]) \<and>
           py_get pin_spread (if away then ''nvp_american_away'' else ''nvp_american_home'')
             (JStr ''N/A'') = Inr (pinnacle_nvp r) \<and>
           (\<exists>true_odds. get0 pin_spread (if away then ''nvp_away'' else ''nvp_home'') = Inr true_odds \<and>
              calculate_ev (opt_num (american_to_decimal (betbck_odds r))) true_odds = Inr (ev r))"
proof -
  from assms have b: "spread_pair_body fl mkt away s bet_line pin_spread hdp meta_limits pin_data = Inr (Some r)"
    by (auto simp: spread_pair_def rows_of_mem split: sum.splits)
  then obtain x y odds where x: "py_float fl bet_line = Inr x" and y: "py_float fl hdp = Inr y"
    and c: "isclose x (if away then - y else y)" and o: "get0 s ''odds'' = Inr odds"
    and m: "make_row mkt (if away then ''Away'' else ''Home'')
              (ebind (if away then py_neg hdp else Inr hdp) (\<lambda>shown. Inr [Str shown]))
              odds pin_spread
              (if away then ''nvp_away'' else ''nvp_home'')
              (if away then ''nvp_american_away'' else ''nvp_american_home'')
              (limit_of [(pin_spread, ''max''), (meta_limits, ''max_spread'')])
              pin_data = Inr (Some r)"
    unfolding spread_pair_body_def by (auto simp: ebind_Inr split: if_splits)
  from make_row_props[OF m] have p: "market r = mkt" "selection r = (if away then ''Away'' else ''Home'')"
    "ebind (if away then py_neg hdp else Inr hdp) (\<lambda>shown. Inr [Str shown]) = Inr (line r)"
    "betbck_odds r = odds" by simp_all
  from p(3) have l: "if away then \<exists>n. py_neg hdp = Inr n \<and> line r = [Str n] else line r = [Str hdp]"
    by (cases away) (auto simp: ebind_Inr)
  from make_row_price[OF m] p(4) have
    "py_get pin_spread (if away then ''nvp_american_away'' else ''nvp_american_home'')
       (JStr ''N/A'') = Inr (pinnacle_nvp r) \<and>
     (\<exists>true_odds. get0 pin_spread (if away then ''nvp_away'' else ''nvp_home'') = Inr true_odds \<and>
        calculate_ev (opt_num (american_to_decimal (betbck_odds r))) true_odds = Inr (ev r))"
    by simp
  with x y c o p l show ?thesis by auto
qed

lemma isclose_small:
  assumes "isclose a b" and "\<bar>a\<bar> \<le> 10 ^ 7" and "\<bar>b\<bar> \<le> 10 ^ 7"
  shows "\<bar>a - b\<bar> \<le> 1 / 100"
proof -
  have "1 / 10 ^ 9 * max \<bar>a\<bar> \<bar>b\<bar> \<le> 1 / 10 ^ 9 * (10 ^ 7 :: real)"
    using assms(2,3) by (intro mult_left_mono) auto
  also have "\<dots> = 1 / 100" by simp
  finally have "max (1 / 10 ^ 9 * max \<bar>a\<bar> \<bar>b\<bar>) (1 / 100) \<le> 1 / 100" by simp
  with assms(1) show ?thesis unfolding isclose_def by linarith
qed


lemma analyze_rows_decomp:
  assumes "analyze_markets_for_ev max_depth fl bet_data pinnacle_data = Inr (rows, logs)"
    and "r \<in> set rows"
  shows "\<exists>pin_data periods full_game fg fh lg.
           py_index (if truthy pinnacle_data then pinnacle_data else JDict []) ''data'' = Inr pin_data \<and>
           is_dict pin_data \<and>
           py_get pin_data ''periods'' (JDict []) = Inr periods \<and> is_dict periods \<and>
           period_of periods ''num_0'' ''0'' = Inr full_game \<and> is_dict full_game \<and>
           full_game_rows fl (if truthy bet_data then bet_data else JDict []) full_game pin_data = Inr fg \<and>
           first_half_step fl (if truthy bet_data then bet_data else JDict []) periods pin_data = Inr (fh, lg) \<and>
           rows = fg @ fh"
proof -
  define b where "b = (if truthy bet_data then bet_data else JDict [])"
  define p where "p = (if truthy pinnacle_data then pinnacle_data else JDict [])"
  from assms(2) have ne: "rows \<noteq> []" by auto
  from assms(1) have "analyze_copies fl b p = Inr (rows, logs)"
    by (simp add: analyze_Inr_iff b_def p_def)
  then have body: "analyze_body fl b p = Inr (rows, logs)"
    using ne
    unfolding analyze_copies_def Let_def
    by (auto simp: ebind_Inr split: if_splits sum.splits)
  then obtain pin_data where pd: "py_index p ''data'' = Inr pin_data"
    and r1: "(if pin_data = JNone \<or> \<not> is_dict pin_data then Inr ([], [])
      else ebind (py_get pin_data ''periods'' (JDict [])) (\<lambda>periods.
          if periods = JNone \<or> \<not> is_dict periods then Inr ([], [])
          else ebind (period_of periods ''num_0'' ''0'') (\<lambda>full_game.
               if full_game = JNone \<or> \<not> is_dict full_game then Inr ([], [])
               else if \<not> truthy full_game then Inr ([], [Err_no_full_game_period])
               else ebind (full_game_rows fl b full_game pin_data) (\<lambda>fg.
                    ebind (first_half_step fl b periods pin_data) (\<lambda>h.
                    Inr (fg @ fst h, snd h)))))) = Inr (rows, logs)"
    unfolding analyze_body_def by (auto simp: ebind_Inr)
  from r1 ne have d1: "is_dict pin_data" by (auto split: if_splits)
  with r1 ne obtain periods where per: "py_get pin_data ''periods'' (JDict []) = Inr periods"
    and r2: "(if periods = JNone \<or> \<not> is_dict periods then Inr ([], [])
          else ebind (period_of periods ''num_0'' ''0'') (\<lambda>full_game.
               if full_game = JNone \<or> \<not> is_dict full_game then Inr ([], [])
               else if \<not> truthy full_game then Inr ([], [Err_no_full_game_period])
               else ebind (full_game_rows fl b full_game pin_data) (\<lambda>fg.
                    ebind (first_half_step fl b periods pin_data) (\<lambda>h.
                    Inr (fg @ fst h, snd h))))) = Inr (rows, logs)"
    by (auto simp: ebind_Inr split: if_splits)
  from r2 ne have d2: "is_dict periods" by (auto split: if_splits)
  with r2 ne obtain full_game where fgp: "period_of periods ''num_0'' ''0'' = Inr full_game"
    and r3: "(if full_game = JNone \<or> \<not> is_dict full_game then Inr ([], [])
               else if \<not> truthy full_game then Inr ([], [Err_no_full_game_period])
               else ebind (full_game_rows fl b full_game pin_data) (\<lambda>fg.
                    ebind (first_half_step fl b periods pin_data) (\<lambda>h.
                    Inr (fg @ fst h, snd h)))) = Inr (rows, logs)"
    by (auto simp: ebind_Inr split: if_splits)
  from r3 ne have d3: "is_dict full_game" by (auto split: if_splits)
  with r3 ne have "\<exists>fg fh lg. full_game_rows fl b full_game pin_data = Inr fg \<and>
      first_half_step fl b periods pin_data = Inr (fh, lg) \<and> rows = fg @ fh"
    by (auto simp: ebind_Inr split: if_splits)
  with pd d1 per d2 fgp d3 show ?thesis
    unfolding b_def p_def by blast
qed

lemma first_half_step_decomp:
  assumes "first_half_step fl b periods pin_data = Inr (fh, lg)" and "r \<in> set fh"
  shows "\<exists>bet_1h_data first_half.
           py_index b ''1H_data'' = Inr bet_1h_data \<and>
           period_of periods ''num_1'' ''1'' = Inr first_half \<and> is_dict first_half \<and>
           first_half_rows fl bet_1h_data first_half pin_data = Inr fh"
proof -
  from assms(2) have ne: "fh \<noteq> []" by auto
  from assms(1) ne obtain first_half bet_1h_data where
    "period_of periods ''num_1'' ''1'' = Inr first_half" "is_dict first_half"
    "py_index b ''1H_data'' = Inr bet_1h_data"
    "analyze_1h_markets_for_ev fl bet_1h_data first_half pin_data = (fh, lg)"
    unfolding first_half_step_def by (auto simp: ebind_Inr split: if_splits)
  moreover from this(4) ne have "first_half_rows fl bet_1h_data first_half pin_data = Inr fh"
    unfolding analyze_1h_markets_for_ev_def by (auto split: sum.splits)
  ultimately show ?thesis by blast
qed


lemma moneyline_side_market:
  "moneyline_side mkt sel bd bk ml nk nak chain pd = Inr rs \<Longrightarrow> r \<in> set rs \<Longrightarrow> market r = mkt"
  unfolding moneyline_side_def
  by (auto simp: ebind_Inr rows_of_mem split: if_splits dest: make_row_props)

lemma full_game_moneyline_market:
  "full_game_moneyline bd ml meta pd = Inr rs \<Longrightarrow> r \<in> set rs \<Longrightarrow> market r = ''Moneyline''"
  unfolding full_game_moneyline_def
  by (drule (1) collect_mem) (auto dest: moneyline_side_market)

lemma first_half_moneyline_market:
  "first_half_moneyline bd ml meta pd = Inr rs \<Longrightarrow> r \<in> set rs \<Longrightarrow> market r = ''1H Moneyline''"
  unfolding first_half_moneyline_def
  by (drule (1) collect_mem) (auto dest: moneyline_side_market)

lemma total_candidate_market:
  "total_candidate mkt sel odds pt pl nk nak meta pd = Inr (Some r) \<Longrightarrow> market r = mkt"
  unfolding total_candidate_def
  by (auto simp: ebind_Inr split: if_splits dest: make_row_props)

lemma keep_best_cases: "keep_best best cand = Some r \<Longrightarrow> best = Some r \<or> cand = Some r"
  by (auto simp: keep_best_def split: option.splits if_splits)

lemma best_totals_market:
  "best_totals fl bl oo uo meta pd items best = Inr best' \<Longrightarrow>
   (\<And>r. fst best = Some r \<or> snd best = Some r \<Longrightarrow> market r = ''Total'') \<Longrightarrow>
   fst best' = Some r \<or> snd best' = Some r \<Longrightarrow> market r = ''Total''"
proof (induction items arbitrary: best best')
  case Nil
  then show ?case by auto
next
  case (Cons kv rest)
  obtain total_key pin_total where kv: "kv = (total_key, pin_total)" by (cases kv)
  from Cons.prems(1) kv obtain points where pts: "get0 pin_total ''points'' = Inr points"
    by (auto simp: ebind_Inr)
  let ?step = "\<lambda>b. best_totals fl bl oo uo meta pd rest b"
  have "?step best = Inr best' \<or>
    (\<exists>pin_line ov un.
       total_candidate ''Total'' ''Over'' oo pin_total pin_line
          ''nvp_over'' ''nvp_american_over'' meta pd = Inr ov \<and>
       total_candidate ''Total'' ''Under'' uo pin_total pin_line
          ''nvp_under'' ''nvp_american_under'' meta pd = Inr un \<and>
       ?step (keep_best (fst best) ov, keep_best (snd best) un) = Inr best')"
    using Cons.prems(1) kv pts
    by (auto simp: ebind_Inr split: option.splits if_splits)
  then show ?case
  proof (elim disjE exE conjE)
    assume "?step best = Inr best'"
    then show ?thesis using Cons.IH Cons.prems(2,3) by blast
  next
    fix pin_line ov un
    assume ov: "total_candidate ''Total'' ''Over'' oo pin_total pin_line
          ''nvp_over'' ''nvp_american_over'' meta pd = Inr ov"
      and un: "total_candidate ''Total'' ''Under'' uo pin_total pin_line
          ''nvp_under'' ''nvp_american_under'' meta pd = Inr un"
      and rec: "?step (keep_best (fst best) ov, keep_best (snd best) un) = Inr best'"
    have inv: "\<And>r. fst (keep_best (fst best) ov, keep_best (snd best) un) = Some r \<or>
                   snd (keep_best (fst best) ov, keep_best (snd best) un) = Some r \<Longrightarrow> market r = ''Total''"
      using Cons.prems(2) ov un
      by (auto dest!: keep_best_cases dest: total_candidate_market)
    show ?thesis using Cons.IH[OF rec inv Cons.prems(3)] .
  qed
qed

lemma full_game_totals_market:
  "full_game_totals fl bd fg meta pd = Inr rs \<Longrightarrow> r \<in> set rs \<Longrightarrow> market r = ''Total''"
  unfolding full_game_totals_def
  by (auto simp: ebind_Inr rows_of_mem split: if_splits dest: best_totals_market)


lemma full_game_spread_side_src:
  assumes "full_game_spread_side fl away bd pin_spread hdp meta pd = Inr rs" and "r \<in> set rs"
  shows "\<exists>bets s bet_line.
           side_bets bd (if away then ''away_spreads'' else ''home_spreads'') = Inr bets \<and>
           s \<in> set bets \<and> get0 s ''line'' = Inr bet_line \<and>
           r \<in> set (spread_pair fl ''Spread'' away s bet_line pin_spread hdp meta pd)"
proof -
  from assms(1) obtain bets where b: "side_bets bd (if away then ''away_spreads'' else ''home_spreads'') = Inr bets"
    and c: "collect (\<lambda>s. ebind (get0 s ''line'') (\<lambda>bet_line.
          Inr (spread_pair fl ''Spread'' away s bet_line pin_spread hdp meta pd))) bets = Inr rs"
    unfolding full_game_spread_side_def by (auto simp: ebind_Inr)
  from collect_mem[OF c assms(2)] b show ?thesis
    by (auto simp: ebind_Inr)
qed

lemma full_game_spreads_src:
  assumes "full_game_spreads fl bd fg meta pd = Inr rs" and "r \<in> set rs"
  shows "\<exists>sp pin_spreads spread_key pin_spread hdp away bets s bet_line.
           get0 fg ''spreads'' = Inr sp \<and>
           py_items (if is_dict sp then sp else JDict []) = Inr pin_spreads \<and>
           (spread_key, pin_spread) \<in> set pin_spreads \<and> get0 pin_spread ''hdp'' = Inr hdp \<and>
           side_bets bd (if away then ''away_spreads'' else ''home_spreads'') = Inr bets \<and>
           s \<in> set bets \<and> get0 s ''line'' = Inr bet_line \<and>
           r \<in> set (spread_pair fl ''Spread'' away s bet_line pin_spread hdp meta pd)"
proof -
  from assms(1) obtain sp pin_spreads where sp: "get0 fg ''spreads'' = Inr sp"
    and it: "py_items (if is_dict sp then sp else JDict []) = Inr pin_spreads"
    and c: "collect (\<lambda>(spread_key, pin_spread).
        ebind (get0 pin_spread ''hdp'') (\<lambda>hdp.
        ebind (full_game_spread_side fl False bd pin_spread hdp meta pd) (\<lambda>h.
        ebind (full_game_spread_side fl True bd pin_spread hdp meta pd) (\<lambda>a.
        Inr (h @ a))))) pin_spreads = Inr rs"
    unfolding full_game_spreads_def by (auto simp: ebind_Inr)
  from collect_mem[OF c assms(2)] obtain spread_key pin_spread hdp h a where
    m: "(spread_key, pin_spread) \<in> set pin_spreads" and hdp: "get0 pin_spread ''hdp'' = Inr hdp"
    and h: "full_game_spread_side fl False bd pin_spread hdp meta pd = Inr h"
    and a: "full_game_spread_side fl True bd pin_spread hdp meta pd = Inr a"
    and r: "r \<in> set h \<or> r \<in> set a"
    by (auto simp: ebind_Inr)
  from r show ?thesis
  proof
    assume "r \<in> set h"
    from full_game_spread_side_src[OF h this] sp it m hdp show ?thesis by blast
  next
    assume "r \<in> set a"
    from full_game_spread_side_src[OF a this] sp it m hdp show ?thesis by blast
  qed
qed

lemma spread_pair_market:
  "r \<in> set (spread_pair fl mkt away s bet_line pin_spread hdp meta pd) \<Longrightarrow> market r = mkt"
  by (drule spread_pair_props) auto

lemma full_game_spreads_market:
  "full_game_spreads fl bd fg meta pd = Inr rs \<Longrightarrow> r \<in> set rs \<Longrightarrow> market r = ''Spread''"
  by (drule (1) full_game_spreads_src) (auto dest: spread_pair_market)

lemma first_half_spread_side_src:
  assumes "first_half_spread_side fl away b1 pin_spreads meta pd = Inr rs" and "r \<in> set rs"
  shows "\<exists>bets s bet_line items spread_key pin_spread hdp.
           side_bets b1 (if away then ''away_spreads'' else ''home_spreads'') = Inr bets \<and>
           s \<in> set bets \<and> get0 s ''line'' = Inr bet_line \<and>
           py_items pin_spreads = Inr items \<and> (spread_key, pin_spread) \<in> set items \<and>
           get0 pin_spread ''hdp'' = Inr hdp \<and>
           r \<in> set (spread_pair fl ''1H Spread'' away s bet_line pin_spread hdp meta pd)"
proof -
  from assms(1) obtain bets where b: "side_bets b1 (if away then ''away_spreads'' else ''home_spreads'') = Inr bets"
    and c: "collect (\<lambda>spread.
          ebind (get0 spread ''line'') (\<lambda>bet_line.
          ebind (py_items pin_spreads)
            (collect (\<lambda>(spread_key, pin_spread).
               ebind (get0 pin_spread ''hdp'') (\<lambda>hdp.
               Inr (spread_pair fl ''1H Spread'' away spread bet_line pin_spread hdp
                      meta pd)))))) bets = Inr rs"
    unfolding first_half_spread_side_def by (auto simp: ebind_Inr)
  from collect_mem[OF c assms(2)] obtain s bet_line items rs' where
    s: "s \<in> set bets" and bl: "get0 s ''line'' = Inr bet_line" and it: "py_items pin_spreads = Inr items"
    and c2: "collect (\<lambda>(spread_key, pin_spread).
               ebind (get0 pin_spread ''hdp'') (\<lambda>hdp.
               Inr (spread_pair fl ''1H Spread'' away s bet_line pin_spread hdp
                      meta pd))) items = Inr rs'" and r': "r \<in> set rs'"
    by (auto simp: ebind_Inr)
  from collect_mem[OF c2 r'] b s bl it show ?thesis
    by (auto simp: ebind_Inr) blast
qed

lemma make_row_market: "make_row mkt sel lc odds pin nk nak lm pd = Inr (Some r) \<Longrightarrow> market r = mkt"
  by (drule make_row_props) simp

lemma first_half_total_side_market:
  assumes "first_half_total_side fl is_under b1 pin_totals meta pd = Inr rs" and "r \<in> set rs"
  shows "market r = ''1H Total''"
proof -
  from assms(1) obtain bets where
    c: "collect (\<lambda>total_bet.
          ebind (get0 total_bet ''line'') (\<lambda>bet_line.
          ebind (py_items pin_totals)
            (collect (\<lambda>(total_key, pin_total).
               ebind (get0 pin_total ''points'') (\<lambda>points.
               Inr (first_half_total_pair is_under total_bet bet_line pin_total
                      (normalize_total_line fl points) meta pd)))))) bets = Inr rs"
    unfolding first_half_total_side_def by (auto simp: ebind_Inr)
  from collect_mem[OF c assms(2)] have "\<exists>s bet_line items rs'.
      s \<in> set bets \<and> get0 s ''line'' = Inr bet_line \<and> py_items pin_totals = Inr items \<and>
      collect (\<lambda>(total_key, pin_total).
               ebind (get0 pin_total ''points'') (\<lambda>points.
               Inr (first_half_total_pair is_under s bet_line pin_total
                      (normalize_total_line fl points) meta pd))) items = Inr rs' \<and> r \<in> set rs'"
    by (auto simp: ebind_Inr)
  then obtain s bet_line items rs' where it: "py_items pin_totals = Inr items" and
    c2: "collect (\<lambda>(total_key, pin_total).
               ebind (get0 pin_total ''points'') (\<lambda>points.
               Inr (first_half_total_pair is_under s bet_line pin_total
                      (normalize_total_line fl points) meta pd))) items = Inr rs'" and r': "r \<in> set rs'"
    by blast
  from collect_mem[OF c2 r'] obtain pin_total pl where
    "r \<in> set (first_half_total_pair is_under s bet_line pin_total pl meta pd)"
    by (auto simp: ebind_Inr)
  then have "first_half_total_body is_under s bet_line pin_total pl meta pd = Inr (Some r)"
    by (auto simp: first_half_total_pair_def rows_of_mem split: sum.splits)
  then show ?thesis
    unfolding first_half_total_body_def
    by (auto simp: ebind_Inr split: option.splits if_splits dest: make_row_market)
qed

lemma full_game_rows_cases:
  assumes "full_game_rows fl bd fg pd = Inr rows" and "r \<in> set rows"
  shows "\<exists>ml meta m sp t.
           full_game_moneyline bd ml meta pd = Inr m \<and>
           full_game_spreads fl bd fg meta pd = Inr sp \<and>
           full_game_totals fl bd fg meta pd = Inr t \<and>
           (r \<in> set m \<or> r \<in> set sp \<or> r \<in> set t)"
  using assms unfolding full_game_rows_def Let_def
  by (auto simp: ebind_Inr) blast+

lemma full_game_rows_market:
  assumes "full_game_rows fl bd fg pd = Inr rows" and "r \<in> set rows"
  shows "market r = ''Moneyline'' \<or> market r = ''Spread'' \<or> market r = ''Total''"
  using full_game_rows_cases[OF assms]
  by (auto dest: full_game_moneyline_market full_game_spreads_market full_game_totals_market)

lemma full_game_rows_spread:
  assumes "full_game_rows fl bd fg pd = Inr rows" and "r \<in> set rows" and "market r = ''Spread''"
  shows "\<exists>meta sp. full_game_spreads fl bd fg meta pd = Inr sp \<and> r \<in> set sp"
  using full_game_rows_cases[OF assms(1,2)] assms(3)
  by (auto dest: full_game_moneyline_market full_game_totals_market)

lemma first_half_rows_cases:
  assumes "first_half_rows fl b1 p1 pd = Inr rows" and "r \<in> set rows"
  shows "\<exists>pin_ml meta pin_spreads pin_totals m sh sa tov tun.
           py_get p1 ''spreads'' (JDict []) = Inr pin_spreads \<and>
           first_half_moneyline b1 pin_ml meta pd = Inr m \<and>
           first_half_spread_side fl False b1 pin_spreads meta pd = Inr sh \<and>
           first_half_spread_side fl True b1 pin_spreads meta pd = Inr sa \<and>
           first_half_total_side fl False b1 pin_totals meta pd = Inr tov \<and>
           first_half_total_side fl True b1 pin_totals meta pd = Inr tun \<and>
           (r \<in> set m \<or> r \<in> set sh \<or> r \<in> set sa \<or> r \<in> set tov \<or> r \<in> set tun)"
  using assms unfolding first_half_rows_def
  by (auto simp: ebind_Inr) blast+

lemma first_half_spread_side_market:
  "first_half_spread_side fl away b1 ps meta pd = Inr rs \<Longrightarrow> r \<in> set rs \<Longrightarrow> market r = ''1H Spread''"
  by (drule (1) first_half_spread_side_src) (auto dest: spread_pair_market)

lemma first_half_rows_market:
  assumes "first_half_rows fl b1 p1 pd = Inr rows" and "r \<in> set rows"
  shows "market r = ''1H Moneyline'' \<or> market r = ''1H Spread'' \<or> market r = ''1H Total''"
  using first_half_rows_cases[OF assms]
  by (auto dest: first_half_moneyline_market first_half_spread_side_market first_half_total_side_market)

lemma first_half_rows_spread:
  assumes "first_half_rows fl b1 p1 pd = Inr rows" and "r \<in> set rows" and "market r = ''1H Spread''"
  shows "\<exists>pin_spreads meta away rs. py_get p1 ''spreads'' (JDict []) = Inr pin_spreads \<and>
           first_half_spread_side fl away b1 pin_spreads meta pd = Inr rs \<and> r \<in> set rs"
  using first_half_rows_cases[OF assms(1,2)] assms(3)
  by (auto dest: first_half_moneyline_market first_half_total_side_market)

lemma spread_pair_relation:
  assumes "r \<in> set (spread_pair fl mkt away s bet_line pin_spread hdp meta pd)"
  shows "\<exists>x y. py_float fl bet_line = Inr x \<and> py_float fl hdp = Inr y \<and>
           selection r = (if away then ''Away'' else ''Home'') \<and>
           isclose x (if away then - y else y) \<and>
           (\<bar>x\<bar> \<le> 10 ^ 7 \<and> \<bar>y\<bar> \<le> 10 ^ 7 \<longrightarrow> \<bar>x - (if away then - y else y)\<bar> \<le> 1 / 100) \<and>
           get0 s ''odds'' = Inr (betbck_odds r) \<and>
           (if away then \<exists>n. py_neg hdp = Inr n \<and> line r = [Str n] else line r = [Str hdp]) \<and>
           py_get pin_spread (if away then ''nvp_american_away'' else ''nvp_american_home'')
             (JStr ''N/A'') = Inr (pinnacle_nvp r) \<and>
           (\<exists>true_odds. get0 pin_spread (if away then ''nvp_away'' else ''nvp_home'') = Inr true_odds \<and>
              calculate_ev (opt_num (american_to_decimal (betbck_odds r))) true_odds = Inr (ev r))"
proof -
  from spread_pair_props[OF assms] obtain x y where
    p: "py_float fl bet_line = Inr x" "py_float fl hdp = Inr y"
       "isclose x (if away then - y else y)"
       "selection r = (if away then ''Away'' else ''Home'')"
       "get0 s ''odds'' = Inr (betbck_odds r)"
       "if away then \<exists>n. py_neg hdp = Inr n \<and> line r = [Str n] else line r = [Str hdp]"
       "py_get pin_spread (if away then ''nvp_american_away'' else ''nvp_american_home'')
          (JStr ''N/A'') = Inr (pinnacle_nvp r)"
       "\<exists>true_odds. get0 pin_spread (if away then ''nvp_away'' else ''nvp_home'') = Inr true_odds \<and>
          calculate_ev (opt_num (american_to_decimal (betbck_odds r))) true_odds = Inr (ev r)"
    by blast
  have "\<bar>x\<bar> \<le> 10 ^ 7 \<and> \<bar>y\<bar> \<le> 10 ^ 7 \<longrightarrow> \<bar>x - (if away then - y else y)\<bar> \<le> 1 / 100"
    using isclose_small[OF p(3)] by auto
  with p show ?thesis by blast
qed

text \<open>
  C5 (spread line symmetry), as amended. Every row of \<^verbatim>\<open>analyze_markets_for_ev\<close> whose
  market is \<^verbatim>\<open>Spread\<close> (or \<^verbatim>\<open>1H Spread\<close>) is the row of one pairing: one spread entry \<open>s\<close>
  of the secondary book's home or away list (full game, or the first-half data) and one
  reference spread \<open>pin_spread\<close> of period 0 (or period 1). The handicap \<open>hdp\<close> of that
  reference spread passes \<^verbatim>\<open>math.isclose(float(line), float(hdp), abs_tol=0.01)\<close> for a
  home row and the same with \<open>-hdp\<close> for an away row; the row reports \<open>hdp\<close>, negated for
  the away side, the odds of \<open>s\<close>, and the fair price of the same reference spread: its
  \<^verbatim>\<open>nvp_american_home\<close> (or \<^verbatim>\<open>nvp_american_away\<close>) entry as \<^verbatim>\<open>pinnacle_nvp\<close>, and the EV
  computed from its \<^verbatim>\<open>nvp_home\<close> (or \<^verbatim>\<open>nvp_away\<close>) entry. The tolerance of
  \<^verbatim>\<open>math.isclose\<close> is 0.01 whenever both numbers are at most \<open>10^7\<close> in magnitude. A
  secondary spread with no such reference spread yields no row.
\<close>

theorem spread_line_symmetry:
  assumes "analyze_markets_for_ev max_depth fl bet_data pinnacle_data = Inr (rows, logs)"
    and "r \<in> set rows"
    and "market r = ''Spread'' \<or> market r = ''1H Spread''"
  shows "\<exists>secondary pin_spreads away bets s spread_key pin_spread bet_line hdp x y.
           (market r = ''Spread'' \<longrightarrow>
              secondary = (if truthy bet_data then bet_data else JDict []) \<and>
              (\<exists>full_game sp. reference_period pinnacle_data ''num_0'' ''0'' = Inr full_game \<and>
                 get0 full_game ''spreads'' = Inr sp \<and>
                 py_items (if is_dict sp then sp else JDict []) = Inr pin_spreads)) \<and>
           (market r = ''1H Spread'' \<longrightarrow>
              py_index (if truthy bet_data then bet_data else JDict []) ''1H_data'' = Inr secondary \<and>
              (\<exists>first_half sp. reference_period pinnacle_data ''num_1'' ''1'' = Inr first_half \<and>
                 py_get first_half ''spreads'' (JDict []) = Inr sp \<and>
                 py_items sp = Inr pin_spreads)) \<and>
           side_bets secondary (if away then ''away_spreads'' else ''home_spreads'') = Inr bets \<and>
           s \<in> set bets \<and> (spread_key, pin_spread) \<in> set pin_spreads \<and>
           get0 s ''line'' = Inr bet_line \<and> get0 pin_spread ''hdp'' = Inr hdp \<and>
           py_float fl bet_line = Inr x \<and> py_float fl hdp = Inr y \<and>
           selection r = (if away then ''Away'' else ''Home'') \<and>
           isclose x (if away then - y else y) \<and>
           (\<bar>x\<bar> \<le> 10 ^ 7 \<and> \<bar>y\<bar> \<le> 10 ^ 7 \<longrightarrow> \<bar>x - (if away then - y else y)\<bar> \<le> 1 / 100) \<and>
           get0 s ''odds'' = Inr (betbck_odds r) \<and>
           (if away then \<exists>n. py_neg hdp = Inr n \<and> line r = [Str n] else line r = [Str hdp]) \<and>
           py_get pin_spread (if away then ''nvp_american_away'' else ''nvp_american_home'')
             (JStr ''N/A'') = Inr (pinnacle_nvp r) \<and>
           (\<exists>true_odds. get0 pin_spread (if away then ''nvp_away'' else ''nvp_home'') = Inr true_odds \<and>
              calculate_ev (opt_num (american_to_decimal (betbck_odds r))) true_odds = Inr (ev r)) \<and>
           (\<exists>meta_limits pin_data.
              r \<in> set (spread_pair fl (market r) away s bet_line pin_spread hdp meta_limits pin_data))"
proof -
  define b where "b = (if truthy bet_data then bet_data else JDict [])"
  from analyze_rows_decomp[OF assms(1,2)] obtain pin_data periods full_game fg fh lg where
    pd: "py_index (if truthy pinnacle_data then pinnacle_data else JDict []) ''data'' = Inr pin_data"
    and per: "py_get pin_data ''periods'' (JDict []) = Inr periods"
    and p0: "period_of periods ''num_0'' ''0'' = Inr full_game"
    and fg: "full_game_rows fl b full_game pin_data = Inr fg"
    and fh: "first_half_step fl b periods pin_data = Inr (fh, lg)"
    and rows: "rows = fg @ fh"
    unfolding b_def by blast
  have ref0: "reference_period pinnacle_data ''num_0'' ''0'' = Inr full_game"
    unfolding reference_period_def using pd per p0 by (simp add: ebind_def)
  from assms(2) rows have "r \<in> set fg \<or> r \<in> set fh" by simp
  then show ?thesis
  proof
    assume rfg: "r \<in> set fg"
    from full_game_rows_market[OF fg rfg] assms(3) have m: "market r = ''Spread''" by auto
    then have nm: "market r \<noteq> ''1H Spread''" by simp
    from full_game_rows_spread[OF fg rfg m] obtain meta sp where
      sp: "full_game_spreads fl b full_game meta pin_data = Inr sp" and rsp: "r \<in> set sp" by blast
    from full_game_spreads_src[OF sp rsp] obtain spd pin_spreads spread_key pin_spread hdp away bets s bet_line
      where src: "get0 full_game ''spreads'' = Inr spd"
        "py_items (if is_dict spd then spd else JDict []) = Inr pin_spreads"
        "(spread_key, pin_spread) \<in> set pin_spreads" "get0 pin_spread ''hdp'' = Inr hdp"
        "side_bets b (if away then ''away_spreads'' else ''home_spreads'') = Inr bets"
        "s \<in> set bets" "get0 s ''line'' = Inr bet_line"
        "r \<in> set (spread_pair fl ''Spread'' away s bet_line pin_spread hdp meta pin_data)"
      by blast
    from spread_pair_relation[OF src(8)] obtain x y where rel:
      "py_float fl bet_line = Inr x" "py_float fl hdp = Inr y"
      "selection r = (if away then ''Away'' else ''Home'')"
      "isclose x (if away then - y else y)"
      "\<bar>x\<bar> \<le> 10 ^ 7 \<and> \<bar>y\<bar> \<le> 10 ^ 7 \<longrightarrow> \<bar>x - (if away then - y else y)\<bar> \<le> 1 / 100"
      "get0 s ''odds'' = Inr (betbck_odds r)"
      "if away then \<exists>n. py_neg hdp = Inr n \<and> line r = [Str n] else line r = [Str hdp]"
      "py_get pin_spread (if away then ''nvp_american_away'' else ''nvp_american_home'')
         (JStr ''N/A'') = Inr (pinnacle_nvp r)"
      "\<exists>true_odds. get0 pin_spread (if away then ''nvp_away'' else ''nvp_home'') = Inr true_odds \<and>
         calculate_ev (opt_num (american_to_decimal (betbck_odds r))) true_odds = Inr (ev r)"
      by blast
    have mem: "\<exists>meta_limits pin_data.
        r \<in> set (spread_pair fl (market r) away s bet_line pin_spread hdp meta_limits pin_data)"
      using src(8) m by auto
    show ?thesis
      apply (rule exI[of _ b], rule exI[of _ pin_spreads], rule exI[of _ away], rule exI[of _ bets])
      apply (rule exI[of _ s], rule exI[of _ spread_key], rule exI[of _ pin_spread])
      apply (rule exI[of _ bet_line], rule exI[of _ hdp], rule exI[of _ x], rule exI[of _ y])
      using nm ref0 src(1-7) rel mem unfolding b_def[symmetric] by blast
  next
    assume rfh: "r \<in> set fh"
    from first_half_step_decomp[OF fh rfh] obtain bet_1h_data first_half where
      b1: "py_index b ''1H_data'' = Inr bet_1h_data"
      and p1: "period_of periods ''num_1'' ''1'' = Inr first_half"
      and fhr: "first_half_rows fl bet_1h_data first_half pin_data = Inr fh" by blast
    have ref1: "reference_period pinnacle_data ''num_1'' ''1'' = Inr first_half"
      unfolding reference_period_def using pd per p1 by (simp add: ebind_def)
    from first_half_rows_market[OF fhr rfh] assms(3) have m: "market r = ''1H Spread''" by auto
    then have nm: "market r \<noteq> ''Spread''" by simp
    from first_half_rows_spread[OF fhr rfh m] obtain sp meta away rs where
      spg: "py_get first_half ''spreads'' (JDict []) = Inr sp"
      and side: "first_half_spread_side fl away bet_1h_data sp meta pin_data = Inr rs"
      and rrs: "r \<in> set rs" by blast
    from first_half_spread_side_src[OF side rrs] obtain bets s bet_line pin_spreads spread_key pin_spread hdp
      where src: "side_bets bet_1h_data (if away then ''away_spreads'' else ''home_spreads'') = Inr bets"
        "s \<in> set bets" "get0 s ''line'' = Inr bet_line" "py_items sp = Inr pin_spreads"
        "(spread_key, pin_spread) \<in> set pin_spreads"
        "get0 pin_spread ''hdp'' = Inr hdp"
        "r \<in> set (spread_pair fl ''1H Spread'' away s bet_line pin_spread hdp meta pin_data)"
      by blast
    from spread_pair_relation[OF src(7)] obtain x y where rel:
      "py_float fl bet_line = Inr x" "py_float fl hdp = Inr y"
      "selection r = (if away then ''Away'' else ''Home'')"
      "isclose x (if away then - y else y)"
      "\<bar>x\<bar> \<le> 10 ^ 7 \<and> \<bar>y\<bar> \<le> 10 ^ 7 \<longrightarrow> \<bar>x - (if away then - y else y)\<bar> \<le> 1 / 100"
      "get0 s ''odds'' = Inr (betbck_odds r)"
      "if away then \<exists>n. py_neg hdp = Inr n \<and> line r = [Str n] else line r = [Str hdp]"
      "py_get pin_spread (if away then ''nvp_american_away'' else ''nvp_american_home'')
         (JStr ''N/A'') = Inr (pinnacle_nvp r)"
      "\<exists>true_odds. get0 pin_spread (if away then ''nvp_away'' else ''nvp_home'') = Inr true_odds \<and>
         calculate_ev (opt_num (american_to_decimal (betbck_odds r))) true_odds = Inr (ev r)"
      by blast
    have mem: "\<exists>meta_limits pin_data.
        r \<in> set (spread_pair fl (market r) away s bet_line pin_spread hdp meta_limits pin_data)"
      using src(7) m by auto
    show ?thesis
      apply (rule exI[of _ bet_1h_data], rule exI[of _ pin_spreads], rule exI[of _ away], rule exI[of _ bets])
      apply (rule exI[of _ s], rule exI[of _ spread_key], rule exI[of _ pin_spread])
      apply (rule exI[of _ bet_line], rule exI[of _ hdp], rule exI[of _ x], rule exI[of _ y])
      using nm ref1 spg b1 src(1-6) rel mem unfolding b_def[symmetric] by blast
  qed
qed

theorem spread_line_symmetry_witness:
  "analyze_markets_for_ev 100 (\<lambda>s. None)
     (JDict [(''home_spreads'', JList [JDict [(''line'', JNum (- 3 / 2)), (''odds'', JNum 170)]])])
     (JDict [(''data'', JDict [(''periods'', JDict [(''num_0'', JDict [(''spreads'',
        JDict [(''-1.5'', JDict [(''hdp'', JNum (- 3 / 2)), (''nvp_home'', JNum (68 / 25)),
                                 (''nvp_american_home'', JStr ''+172'')])])])])])])
   = Inr ([\<lparr>market = ''Spread'', selection = ''Home'', line = [Str (JNum (- 3 / 2))],
             pinnacle_nvp = JStr ''+172'', pinnacle_limit = Some JNone, betbck_odds = JNum 170,
             ev = JNum (- 1 / 136), home_team = JStr [], away_team = JStr [],
             bet = [Lit ''Home'', Lit '' '', Str (JNum (- 3 / 2))]\<rparr>], []) \<and>
   (\<exists>s pin_spread bet_line hdp x y.
      get0 s ''line'' = Inr bet_line \<and> get0 pin_spread ''hdp'' = Inr hdp \<and>
      py_float (\<lambda>s. None) bet_line = Inr x \<and> py_float (\<lambda>s. None) hdp = Inr y \<and>
      isclose x y \<and> get0 s ''odds'' = Inr (JNum 170) \<and> [Str (JNum (- 3 / 2))] = [Str hdp] \<and>
      py_get pin_spread ''nvp_american_home'' (JStr ''N/A'') = Inr (JStr ''+172''))"
proof -
  let ?bet = "JDict [(''home_spreads'', JList [JDict [(''line'', JNum (- 3 / 2)), (''odds'', JNum 170)]])]"
  let ?pin = "JDict [(''data'', JDict [(''periods'', JDict [(''num_0'', JDict [(''spreads'',
        JDict [(''-1.5'', JDict [(''hdp'', JNum (- 3 / 2)), (''nvp_home'', JNum (68 / 25)),
                                 (''nvp_american_home'', JStr ''+172'')])])])])])]"
  let ?r = "\<lparr>market = ''Spread'', selection = ''Home'', line = [Str (JNum (- 3 / 2))],
             pinnacle_nvp = JStr ''+172'', pinnacle_limit = Some JNone, betbck_odds = JNum 170,
             ev = JNum (- 1 / 136), home_team = JStr [], away_team = JStr [],
             bet = [Lit ''Home'', Lit '' '', Str (JNum (- 3 / 2))]\<rparr>"
  have e: "analyze_markets_for_ev 100 (\<lambda>s. None) ?bet ?pin = Inr ([?r], [])"
    by code_simp
  have m: "?r \<in> set [?r]" by simp
  have k: "market ?r = ''Spread'' \<or> market ?r = ''1H Spread''" by simp
  from spread_line_symmetry[OF e m k] obtain away s pin_spread bet_line hdp x y where
    f: "get0 s ''line'' = Inr bet_line" "get0 pin_spread ''hdp'' = Inr hdp"
       "py_float (\<lambda>s. None) bet_line = Inr x" "py_float (\<lambda>s. None) hdp = Inr y"
       "selection ?r = (if away then ''Away'' else ''Home'')"
       "isclose x (if away then - y else y)"
       "get0 s ''odds'' = Inr (betbck_odds ?r)"
       "if away then \<exists>n. py_neg hdp = Inr n \<and> line ?r = [Str n] else line ?r = [Str hdp]"
       "py_get pin_spread (if away then ''nvp_american_away'' else ''nvp_american_home'')
          (JStr ''N/A'') = Inr (pinnacle_nvp ?r)"
    by blast
  from f(5) have na: "\<not> away" by (cases away) simp_all
  from f na have "get0 s ''line'' = Inr bet_line \<and> get0 pin_spread ''hdp'' = Inr hdp \<and>
      py_float (\<lambda>s. None) bet_line = Inr x \<and> py_float (\<lambda>s. None) hdp = Inr y \<and>
      isclose x y \<and> get0 s ''odds'' = Inr (JNum 170) \<and> [Str (JNum (- 3 / 2))] = [Str hdp] \<and>
      py_get pin_spread ''nvp_american_home'' (JStr ''N/A'') = Inr (JStr ''+172'')"
    by simp
  then show ?thesis using e by blast
qed

text \<open>
  The claim as stated fails for lines of very large magnitude, where the relative
  tolerance of \<^verbatim>\<open>math.isclose\<close> exceeds 0.01: the lines below differ by 0.05 and are
  paired.
\<close>

theorem spread_line_symmetry_counterexample:
  "analyze_markets_for_ev 100 (\<lambda>s. None)
     (JDict [(''home_spreads'',
        JList [JDict [(''line'', JNum (2000000001 / 20)), (''odds'', JNum 170)]])])
     (JDict [(''data'', JDict [(''periods'', JDict [(''num_0'', JDict [(''spreads'',
        JDict [(''k'', JDict [(''hdp'', JNum 100000000), (''nvp_home'', JNum (68 / 25)),
                              (''nvp_american_home'', JStr ''+172'')])])])])])])
   = Inr ([\<lparr>market = ''Spread'', selection = ''Home'', line = [Str (JNum 100000000)],
             pinnacle_nvp = JStr ''+172'', pinnacle_limit = Some JNone, betbck_odds = JNum 170,
             ev = JNum (- 1 / 136), home_team = JStr [], away_team = JStr [],
             bet = [Lit ''Home'', Lit '' '', Str (JNum 100000000)]\<rparr>], []) \<and>
   \<not> \<bar>2000000001 / 20 - 100000000\<bar> \<le> (1 / 100 :: real)"
proof -
  have "analyze_markets_for_ev 100 (\<lambda>s. None)
     (JDict [(''home_spreads'',
        JList [JDict [(''line'', JNum (2000000001 / 20)), (''odds'', JNum 170)]])])
     (JDict [(''data'', JDict [(''periods'', JDict [(''num_0'', JDict [(''spreads'',
        JDict [(''k'', JDict [(''hdp'', JNum 100000000), (''nvp_home'', JNum (68 / 25)),
                              (''nvp_american_home'', JStr ''+172'')])])])])])])
   = Inr ([\<lparr>market = ''Spread'', selection = ''Home'', line = [Str (JNum 100000000)],
             pinnacle_nvp = JStr ''+172'', pinnacle_limit = Some JNone, betbck_odds = JNum 170,
             ev = JNum (- 1 / 136), home_team = JStr [], away_team = JStr [],
             bet = [Lit ''Home'', Lit '' '', Str (JNum 100000000)]\<rparr>], [])"
    by code_simp
  moreover have "\<not> \<bar>2000000001 / 20 - 100000000\<bar> \<le> (1 / 100 :: real)"
    by simp
  ultimately show ?thesis by blast
qed

subsection \<open>The EV engine: period separation\<close>

lemma map_of_filter_key:
  "k \<noteq> a \<Longrightarrow> map_of (filter (\<lambda>kv. fst kv \<noteq> a) kvs) k = map_of kvs k"
  by (induction kvs) auto

lemma py_get_without: "k \<noteq> ''1H_data'' \<Longrightarrow> py_get (without_1h bd) k d = py_get bd k d"
  by (cases bd) (simp_all add: without_1h_def py_get_def map_of_filter_key)

lemma get0_without: "k \<noteq> ''1H_data'' \<Longrightarrow> get0 (without_1h bd) k = get0 bd k"
  by (simp add: get0_def py_get_without)

lemma py_index_without: "k \<noteq> ''1H_data'' \<Longrightarrow> py_index (without_1h bd) k = py_index bd k"
  by (cases bd) (simp_all add: without_1h_def py_index_def map_of_filter_key)

lemma py_get_teams:
  "is_dict pd \<Longrightarrow> py_get (teams_only pd) ''home'' (JStr []) = py_get pd ''home'' (JStr [])"
  "is_dict pd \<Longrightarrow> py_get (teams_only pd) ''away'' (JStr []) = py_get pd ''away'' (JStr [])"
  by (cases pd; simp add: teams_only_def py_get_def is_dict_def)+

lemma make_row_teams:
  "is_dict pd \<Longrightarrow> make_row mkt sel lc odds pin nk nak lm (teams_only pd) = make_row mkt sel lc odds pin nk nak lm pd"
  by (simp add: make_row_def py_get_teams Let_def cong: if_cong)

lemma moneyline_side_teams:
  "is_dict pd \<Longrightarrow> moneyline_side mkt sel bd bk ml nk nak chain (teams_only pd)
     = moneyline_side mkt sel bd bk ml nk nak chain pd"
  by (simp add: moneyline_side_def make_row_teams Let_def cong: if_cong)

lemma moneyline_side_without:
  "bk \<noteq> ''1H_data'' \<Longrightarrow> moneyline_side mkt sel (without_1h bd) bk ml nk nak chain pd
     = moneyline_side mkt sel bd bk ml nk nak chain pd"
  by (simp add: moneyline_side_def get0_without py_index_without Let_def cong: if_cong)

lemma full_game_moneyline_inv:
  "is_dict pd \<Longrightarrow> full_game_moneyline (without_1h bd) ml meta (teams_only pd) = full_game_moneyline bd ml meta pd"
  by (simp add: full_game_moneyline_def moneyline_side_teams moneyline_side_without Let_def cong: if_cong)

lemma first_half_moneyline_inv:
  "is_dict pd \<Longrightarrow> first_half_moneyline b1 ml meta (teams_only pd) = first_half_moneyline b1 ml meta pd"
  by (simp add: first_half_moneyline_def moneyline_side_teams Let_def cong: if_cong)

lemma spread_pair_teams:
  "is_dict pd \<Longrightarrow> spread_pair fl mkt away s bl ps hdp meta (teams_only pd) = spread_pair fl mkt away s bl ps hdp meta pd"
  by (simp add: spread_pair_def spread_pair_body_def make_row_teams Let_def cong: if_cong)

lemma side_bets_without:
  "k \<noteq> ''1H_data'' \<Longrightarrow> side_bets (without_1h bd) k = side_bets bd k"
  by (simp add: side_bets_def py_get_without Let_def cong: if_cong)

lemma full_game_spread_side_inv:
  "is_dict pd \<Longrightarrow> full_game_spread_side fl away (without_1h bd) ps hdp meta (teams_only pd)
     = full_game_spread_side fl away bd ps hdp meta pd"
  by (cases away) (simp_all add: full_game_spread_side_def spread_pair_teams side_bets_without cong: if_cong)

lemma full_game_spreads_inv:
  "is_dict pd \<Longrightarrow> full_game_spreads fl (without_1h bd) fg meta (teams_only pd) = full_game_spreads fl bd fg meta pd"
  by (simp add: full_game_spreads_def full_game_spread_side_inv Let_def cong: if_cong)

lemma total_candidate_teams:
  "is_dict pd \<Longrightarrow> total_candidate mkt sel odds pt pl nk nak meta (teams_only pd)
     = total_candidate mkt sel odds pt pl nk nak meta pd"
  by (simp add: total_candidate_def make_row_teams Let_def cong: if_cong)

lemma best_totals_teams:
  "is_dict pd \<Longrightarrow> best_totals fl bl oo uo meta (teams_only pd) items best
     = best_totals fl bl oo uo meta pd items best"
proof (induction items arbitrary: best)
  case Nil
  then show ?case by simp
next
  case (Cons kv rest)
  obtain k pt where kv: "kv = (k, pt)" by (cases kv)
  show ?case
    unfolding kv best_totals.simps
    by (simp only: Cons total_candidate_teams[OF Cons.prems])
qed

lemma full_game_totals_inv:
  "is_dict pd \<Longrightarrow> full_game_totals fl (without_1h bd) fg meta (teams_only pd) = full_game_totals fl bd fg meta pd"
  by (simp add: full_game_totals_def best_totals_teams get0_without Let_def cong: if_cong)

lemma full_game_rows_inv:
  "is_dict pd \<Longrightarrow> full_game_rows fl (without_1h bd) fg (teams_only pd) = full_game_rows fl bd fg pd"
  by (simp add: full_game_rows_def full_game_moneyline_inv full_game_spreads_inv full_game_totals_inv Let_def cong: if_cong)

lemma first_half_spread_side_teams:
  "is_dict pd \<Longrightarrow> first_half_spread_side fl away b1 ps meta (teams_only pd)
     = first_half_spread_side fl away b1 ps meta pd"
  by (simp add: first_half_spread_side_def spread_pair_teams Let_def cong: if_cong)

lemma first_half_total_body_teams:
  "is_dict pd \<Longrightarrow> first_half_total_body u tb bl pt pl meta (teams_only pd)
     = first_half_total_body u tb bl pt pl meta pd"
  by (cases pl) (simp_all add: first_half_total_body_def make_row_teams cong: if_cong)

lemma first_half_total_pair_teams:
  "is_dict pd \<Longrightarrow> first_half_total_pair u tb bl pt pl meta (teams_only pd)
     = first_half_total_pair u tb bl pt pl meta pd"
  by (simp add: first_half_total_pair_def first_half_total_body_teams)

lemma first_half_total_side_teams:
  "is_dict pd \<Longrightarrow> first_half_total_side fl u b1 pts meta (teams_only pd)
     = first_half_total_side fl u b1 pts meta pd"
  by (simp add: first_half_total_side_def first_half_total_pair_teams)

lemma first_half_rows_inv:
  "is_dict pd \<Longrightarrow> first_half_rows fl b1 p1 (teams_only pd) = first_half_rows fl b1 p1 pd"
  by (simp add: first_half_rows_def first_half_moneyline_inv first_half_spread_side_teams
      first_half_total_side_teams py_get_teams Let_def cong: if_cong)

text \<open>
  C1 (period separation). Every row returned by \<^verbatim>\<open>analyze_markets_for_ev\<close> has one of
  six markets. A row whose market carries the \<^verbatim>\<open>1H\<close> prefix is a row of the first-half
  analysis run on the secondary game's \<^verbatim>\<open>1H_data\<close>, the reference event's period-1
  markets and the two team names, and on nothing else. A row without the prefix is a
  row of the full-game analysis run on the secondary game without its \<^verbatim>\<open>1H_data\<close>, the
  reference event's period-0 markets and the two team names, and on nothing else. So no
  row pairs a selection with a price of another period.
\<close>

theorem period_separation:
  assumes "analyze_markets_for_ev max_depth fl bet_data pinnacle_data = Inr (rows, logs)"
    and "r \<in> set rows"
  shows "\<exists>pin_data. event_data pinnacle_data = Inr pin_data \<and>
          (if take 2 (market r) = ''1H''
           then (market r = ''1H Moneyline'' \<or> market r = ''1H Spread'' \<or> market r = ''1H Total'') \<and>
                (\<exists>bet_1h_data first_half fh.
                   py_index (if truthy bet_data then bet_data else JDict []) ''1H_data'' = Inr bet_1h_data \<and>
                   reference_period pinnacle_data ''num_1'' ''1'' = Inr first_half \<and>
                   first_half_rows fl bet_1h_data first_half (teams_only pin_data) = Inr fh \<and>
                   r \<in> set fh)
           else (market r = ''Moneyline'' \<or> market r = ''Spread'' \<or> market r = ''Total'') \<and>
                (\<exists>full_game fg.
                   reference_period pinnacle_data ''num_0'' ''0'' = Inr full_game \<and>
                   full_game_rows fl (without_1h (if truthy bet_data then bet_data else JDict []))
                     full_game (teams_only pin_data) = Inr fg \<and>
                   r \<in> set fg))"
proof -
  define b where "b = (if truthy bet_data then bet_data else JDict [])"
  from analyze_rows_decomp[OF assms] obtain pin_data periods full_game fg fh lg where
    pd: "py_index (if truthy pinnacle_data then pinnacle_data else JDict []) ''data'' = Inr pin_data"
    and dpd: "is_dict pin_data"
    and per: "py_get pin_data ''periods'' (JDict []) = Inr periods"
    and p0: "period_of periods ''num_0'' ''0'' = Inr full_game"
    and fg: "full_game_rows fl b full_game pin_data = Inr fg"
    and fh: "first_half_step fl b periods pin_data = Inr (fh, lg)"
    and rows: "rows = fg @ fh"
    unfolding b_def by blast
  have ev: "event_data pinnacle_data = Inr pin_data"
    unfolding event_data_def by (rule pd)
  have ref0: "reference_period pinnacle_data ''num_0'' ''0'' = Inr full_game"
    unfolding reference_period_def using pd per p0 by (simp add: ebind_def)
  from assms(2) rows have "r \<in> set fg \<or> r \<in> set fh" by simp
  then show ?thesis
  proof
    assume rfg: "r \<in> set fg"
    from full_game_rows_market[OF fg rfg]
    have m: "market r = ''Moneyline'' \<or> market r = ''Spread'' \<or> market r = ''Total''" .
    then have n1h: "take 2 (market r) \<noteq> ''1H''" by auto
    have "full_game_rows fl (without_1h b) full_game (teams_only pin_data) = Inr fg"
      using fg full_game_rows_inv[OF dpd] by simp
    with ev m n1h ref0 rfg show ?thesis unfolding b_def[symmetric] by auto
  next
    assume rfh: "r \<in> set fh"
    from first_half_step_decomp[OF fh rfh] obtain bet_1h_data first_half where
      b1: "py_index b ''1H_data'' = Inr bet_1h_data"
      and p1: "period_of periods ''num_1'' ''1'' = Inr first_half"
      and fhr: "first_half_rows fl bet_1h_data first_half pin_data = Inr fh" by blast
    have ref1: "reference_period pinnacle_data ''num_1'' ''1'' = Inr first_half"
      unfolding reference_period_def using pd per p1 by (simp add: ebind_def)
    from first_half_rows_market[OF fhr rfh]
    have m: "market r = ''1H Moneyline'' \<or> market r = ''1H Spread'' \<or> market r = ''1H Total''" .
    then have is1h: "take 2 (market r) = ''1H''" by auto
    have "first_half_rows fl bet_1h_data first_half (teams_only pin_data) = Inr fh"
      using fhr first_half_rows_inv[OF dpd] by simp
    with ev m is1h ref1 rfh b1 show ?thesis unfolding b_def[symmetric] by auto
  qed
qed

theorem period_separation_witness:
  "analyze_markets_for_ev 100 (\<lambda>s. None)
     (JDict [(''home_moneyline_american'', JNum 120), (''1H_data'', JDict [(''home_moneyline_american'', JNum 110)])])
     (JDict [(''data'', JDict [(''home'', JStr ''A''), (''away'', JStr ''B''),
        (''periods'', JDict [
           (''num_0'', JDict [(''money_line'', JDict [(''nvp_home'', JNum 2), (''nvp_american_home'', JStr ''+100'')])]),
           (''num_1'', JDict [(''money_line'', JDict [(''nvp_home'', JNum 2), (''nvp_american_home'', JStr ''+100'')])])])])])
   = Inr ([\<lparr>market = ''Moneyline'', selection = ''Home'', line = [],
      pinnacle_nvp = JStr ''+100'', pinnacle_limit = Some JNone, betbck_odds = JNum 120,
      ev = JNum (1 / 10), home_team = JStr ''A'', away_team = JStr ''B'',
      bet = [Lit ''ML - '', Str (JStr ''A'')]\<rparr>, \<lparr>market = ''1H Moneyline'', selection = ''Home'', line = [],
      pinnacle_nvp = JStr ''+100'', pinnacle_limit = Some JNone, betbck_odds = JNum 110,
      ev = JNum (1 / 20), home_team = JStr ''A'', away_team = JStr ''B'',
      bet = [Lit ''1H Moneyline'', Lit '' - '', Lit ''Home'']\<rparr>], []) \<and>
   (\<exists>fh. first_half_rows (\<lambda>s. None) (JDict [(''home_moneyline_american'', JNum 110)])
           (JDict [(''money_line'', JDict [(''nvp_home'', JNum 2), (''nvp_american_home'', JStr ''+100'')])])
           (JDict [(''home'', JStr ''A''), (''away'', JStr ''B'')]) = Inr fh \<and>
         \<lparr>market = ''1H Moneyline'', selection = ''Home'', line = [],
      pinnacle_nvp = JStr ''+100'', pinnacle_limit = Some JNone, betbck_odds = JNum 110,
      ev = JNum (1 / 20), home_team = JStr ''A'', away_team = JStr ''B'',
      bet = [Lit ''1H Moneyline'', Lit '' - '', Lit ''Home'']\<rparr> \<in> set fh)"
proof -
  let ?bet = "(JDict [(''home_moneyline_american'', JNum 120), (''1H_data'', JDict [(''home_moneyline_american'', JNum 110)])])"
  let ?pin = "(JDict [(''data'', JDict [(''home'', JStr ''A''), (''away'', JStr ''B''),
        (''periods'', JDict [
           (''num_0'', JDict [(''money_line'', JDict [(''nvp_home'', JNum 2), (''nvp_american_home'', JStr ''+100'')])]),
           (''num_1'', JDict [(''money_line'', JDict [(''nvp_home'', JNum 2), (''nvp_american_home'', JStr ''+100'')])])])])])"
  let ?r0 = "\<lparr>market = ''Moneyline'', selection = ''Home'', line = [],
      pinnacle_nvp = JStr ''+100'', pinnacle_limit = Some JNone, betbck_odds = JNum 120,
      ev = JNum (1 / 10), home_team = JStr ''A'', away_team = JStr ''B'',
      bet = [Lit ''ML - '', Str (JStr ''A'')]\<rparr>"
  let ?r1 = "\<lparr>market = ''1H Moneyline'', selection = ''Home'', line = [],
      pinnacle_nvp = JStr ''+100'', pinnacle_limit = Some JNone, betbck_odds = JNum 110,
      ev = JNum (1 / 20), home_team = JStr ''A'', away_team = JStr ''B'',
      bet = [Lit ''1H Moneyline'', Lit '' - '', Lit ''Home'']\<rparr>"
  have e: "analyze_markets_for_ev 100 (\<lambda>s. None) ?bet ?pin = Inr ([?r0, ?r1], [])"
    by code_simp
  have m: "?r1 \<in> set [?r0, ?r1]" by simp
  have ed: "event_data ?pin = Inr (JDict [(''home'', JStr ''A''), (''away'', JStr ''B''),
        (''periods'', JDict [
           (''num_0'', JDict [(''money_line'', JDict [(''nvp_home'', JNum 2), (''nvp_american_home'', JStr ''+100'')])]),
           (''num_1'', JDict [(''money_line'', JDict [(''nvp_home'', JNum 2), (''nvp_american_home'', JStr ''+100'')])])])])"
    by code_simp
  have t: "teams_only (JDict [(''home'', JStr ''A''), (''away'', JStr ''B''),
        (''periods'', JDict [
           (''num_0'', JDict [(''money_line'', JDict [(''nvp_home'', JNum 2), (''nvp_american_home'', JStr ''+100'')])]),
           (''num_1'', JDict [(''money_line'', JDict [(''nvp_home'', JNum 2), (''nvp_american_home'', JStr ''+100'')])])])])
      = JDict [(''home'', JStr ''A''), (''away'', JStr ''B'')]"
    by code_simp
  have ix: "py_index (if truthy ?bet then ?bet else JDict []) ''1H_data''
      = Inr (JDict [(''home_moneyline_american'', JNum 110)])"
    by code_simp
  have rp: "reference_period ?pin ''num_1'' ''1''
      = Inr (JDict [(''money_line'', JDict [(''nvp_home'', JNum 2), (''nvp_american_home'', JStr ''+100'')])])"
    by code_simp
  have is1h: "take 2 (market ?r1) = ''1H''" by simp
  have inst: "\<exists>pin_data. event_data ?pin = Inr pin_data \<and>
          (if take 2 (market ?r1) = ''1H''
           then (market ?r1 = ''1H Moneyline'' \<or> market ?r1 = ''1H Spread'' \<or> market ?r1 = ''1H Total'') \<and>
                (\<exists>bet_1h_data first_half fh.
                   py_index (if truthy ?bet then ?bet else JDict []) ''1H_data'' = Inr bet_1h_data \<and>
                   reference_period ?pin ''num_1'' ''1'' = Inr first_half \<and>
                   first_half_rows (\<lambda>s. None) bet_1h_data first_half (teams_only pin_data) = Inr fh \<and>
                   ?r1 \<in> set fh)
           else (market ?r1 = ''Moneyline'' \<or> market ?r1 = ''Spread'' \<or> market ?r1 = ''Total'') \<and>
                (\<exists>full_game fg.
                   reference_period ?pin ''num_0'' ''0'' = Inr full_game \<and>
                   full_game_rows (\<lambda>s. None) (without_1h (if truthy ?bet then ?bet else JDict []))
                     full_game (teams_only pin_data) = Inr fg \<and>
                   ?r1 \<in> set fg))"
    by (rule period_separation[OF e m])
  have "\<exists>pin_data bet_1h_data first_half fh.
       event_data ?pin = Inr pin_data \<and>
       py_index (if truthy ?bet then ?bet else JDict []) ''1H_data'' = Inr bet_1h_data \<and>
       reference_period ?pin ''num_1'' ''1'' = Inr first_half \<and>
       first_half_rows (\<lambda>s. None) bet_1h_data first_half (teams_only pin_data) = Inr fh \<and>
       ?r1 \<in> set fh"
    using inst by (simp only: is1h simp_thms if_True) blast
  then obtain pin_data bet_1h_data first_half fh where
    f: "event_data ?pin = Inr pin_data"
       "py_index (if truthy ?bet then ?bet else JDict []) ''1H_data'' = Inr bet_1h_data"
       "reference_period ?pin ''num_1'' ''1'' = Inr first_half"
       "first_half_rows (\<lambda>s. None) bet_1h_data first_half (teams_only pin_data) = Inr fh"
       "?r1 \<in> set fh"
    by blast
  from f(1) ed have pd: "pin_data = JDict [(''home'', JStr ''A''), (''away'', JStr ''B''),
        (''periods'', JDict [
           (''num_0'', JDict [(''money_line'', JDict [(''nvp_home'', JNum 2), (''nvp_american_home'', JStr ''+100'')])]),
           (''num_1'', JDict [(''money_line'', JDict [(''nvp_home'', JNum 2), (''nvp_american_home'', JStr ''+100'')])])])]"
    by simp
  from f(2) ix have b1: "bet_1h_data = JDict [(''home_moneyline_american'', JNum 110)]" by simp
  from f(3) rp have fhv: "first_half = JDict [(''money_line'', JDict [(''nvp_home'', JNum 2), (''nvp_american_home'', JStr ''+100'')])]" by simp
  from f(4,5) have "\<exists>fh. first_half_rows (\<lambda>s. None) (JDict [(''home_moneyline_american'', JNum 110)])
           (JDict [(''money_line'', JDict [(''nvp_home'', JNum 2), (''nvp_american_home'', JStr ''+100'')])])
           (JDict [(''home'', JStr ''A''), (''away'', JStr ''B'')]) = Inr fh \<and> ?r1 \<in> set fh"
    unfolding pd b1 fhv t by blast
  with e show ?thesis by blast
qed

subsection \<open>Team names: the regular-expression steps\<close>

text \<open>
  The matcher by derivatives accepts only words of the language of its expression. So a
  match of a pitcher pattern contains a dash and ends with \<^verbatim>\<open>start\<close>, and a match of the
  prop and future pattern contains one of its phrases; on a name without them the two
  steps change nothing.
\<close>

lemma nullable_lang: "nullable r \<Longrightarrow> [] \<in> lang r"
  by (induction r) (auto intro: star.intros)


lemma lang_SeqI: "u \<in> lang r \<Longrightarrow> v \<in> lang s \<Longrightarrow> u @ v \<in> lang (Seq r s)"
  by auto

lemma lang_SeqD: "w \<in> lang (Seq r s) \<Longrightarrow> \<exists>u v. w = u @ v \<and> u \<in> lang r \<and> v \<in> lang s"
  by auto

lemma deriv_lang: "w \<in> lang (deriv c r) \<Longrightarrow> c # w \<in> lang r"
proof (induction r arbitrary: w)
  case Zero
  then show ?case by simp
next
  case Eps
  then show ?case by simp
next
  case (Cls P)
  then show ?case by (cases "P c") simp_all
next
  case (Seq r s)
  have left: "c # w \<in> lang (Seq r s)" if "w \<in> lang (Seq (deriv c r) s)" for w
  proof -
    from lang_SeqD[OF that] obtain u v
      where w: "w = u @ v" and u: "u \<in> lang (deriv c r)" and v: "v \<in> lang s" by blast
    from Seq.IH(1)[OF u] v have "(c # u) @ v \<in> lang (Seq r s)" by (rule lang_SeqI)
    with w show ?thesis by simp
  qed
  show ?case
  proof (cases "nullable r")
    case True
    with Seq.prems have "w \<in> lang (Seq (deriv c r) s) \<or> w \<in> lang (deriv c s)"
      by (simp del: lang.simps(4))
    then show ?thesis
    proof
      assume "w \<in> lang (Seq (deriv c r) s)"
      then show ?thesis by (rule left)
    next
      assume "w \<in> lang (deriv c s)"
      then have "c # w \<in> lang s" by (rule Seq.IH(2))
      with nullable_lang[OF True] have "[] @ (c # w) \<in> lang (Seq r s)" by (rule lang_SeqI)
      then show ?thesis by (simp del: lang.simps(4))
    qed
  next
    case False
    with Seq.prems have "w \<in> lang (Seq (deriv c r) s)" by (simp del: lang.simps(4))
    then show ?thesis by (rule left)
  qed
next
  case (Alt r s)
  then show ?case by auto
next
  case (Star r)
  then have "w \<in> lang (Seq (deriv c r) (Star r))" by (simp del: lang.simps(4))
  from lang_SeqD[OF this] obtain u v
    where w: "w = u @ v" and u: "u \<in> lang (deriv c r)" and v: "v \<in> star (lang r)"
    by auto
  from Star.IH[OF u] v have "(c # u) @ v \<in> star (lang r)" by (rule star_step)
  with w show ?case by simp
qed

lemma rmatch_lang: "rmatch r s \<Longrightarrow> s \<in> lang r"
proof (induction s arbitrary: r)
  case Nil
  then show ?case by (simp add: nullable_lang)
next
  case (Cons c cs)
  then have "cs \<in> lang (deriv c r)" by simp
  then show ?case by (rule deriv_lang)
qed

lemma lazy_group_split:
  "lazy_group P r pre s = Some g \<Longrightarrow> \<exists>rest. pre @ s = g @ rest \<and> rmatch r rest"
proof (induction s arbitrary: pre)
  case Nil
  then have "g = pre" and "rmatch r []" by (simp_all split: if_splits)
  then show ?case by simp
next
  case (Cons c cs)
  show ?case
  proof (cases "pre \<noteq> [] \<and> rmatch r (c # cs)")
    case True
    with Cons.prems have "g = pre" by (simp del: rmatch.simps)
    with True show ?thesis by blast
  next
    case False
    with Cons.prems have "lazy_group P r (pre @ [c]) cs = Some g"
      by (simp del: rmatch.simps split: if_splits)
    from Cons.IH[OF this] show ?thesis by simp
  qed
qed

lemma lower_append: "lower (u @ v) = lower u @ lower v"
  by (simp add: lower_def)

lemma lang_lit_ci: "w \<in> lang (lit_ci t) \<Longrightarrow> lower w = lower t"
proof (induction t arbitrary: w)
  case Nil
  then show ?case by simp
next
  case (Cons c cs)
  then obtain x v where w: "w = [x] @ v" and x: "lower_char x = lower_char c"
    and v: "v \<in> lang (lit_ci cs)" by auto
  from Cons.IH[OF v] w x show ?case by (simp add: lower_def)
qed

lemma lang_seqs_last:
  "w \<in> lang (seqs (rs @ [r])) \<Longrightarrow> \<exists>u v. w = u @ v \<and> v \<in> lang r"
proof (induction rs arbitrary: w)
  case Nil
  then show ?case by auto
next
  case (Cons a rs)
  then have "w \<in> lang (Seq a (seqs (rs @ [r])))" by (simp del: lang.simps(4))
  from lang_SeqD[OF this] obtain u v where w: "w = u @ v" and v: "v \<in> lang (seqs (rs @ [r]))"
    by blast
  from Cons.IH[OF v] obtain u' v' where "v = u' @ v'" "v' \<in> lang r" by blast
  with w have "w = (u @ u') @ v'" by simp
  with \<open>v' \<in> lang r\<close> show ?case by blast
qed

lemma pitcher_tail_dash: "w \<in> lang pitcher_tail \<Longrightarrow> CHR ''-'' \<in> set w"
proof -
  assume "w \<in> lang pitcher_tail"
  then have "w \<in> lang (Seq (Star (Cls is_space))
      (Seq (Cls (\<lambda>c. c = CHR ''-''))
        (seqs [Star (Cls is_space),
           Cls (\<lambda>c. lower_char c = CHR ''l'' \<or> lower_char c = CHR ''r''),
           Plus (Cls is_space), lit_ci ''must'', Plus (Cls is_space), lit_ci ''start''])))"
    by (simp add: pitcher_tail_def del: lang.simps)
  from lang_SeqD[OF this] obtain u v where w: "w = u @ v"
    and v: "v \<in> lang (Seq (Cls (\<lambda>c. c = CHR ''-''))
        (seqs [Star (Cls is_space),
           Cls (\<lambda>c. lower_char c = CHR ''l'' \<or> lower_char c = CHR ''r''),
           Plus (Cls is_space), lit_ci ''must'', Plus (Cls is_space), lit_ci ''start'']))"
    by blast
  from lang_SeqD[OF v] obtain a b where "v = a @ b" and "a \<in> lang (Cls (\<lambda>c. c = CHR ''-''))"
    by blast
  then have "v = CHR ''-'' # b" by simp
  with w show ?thesis by simp
qed


lemma endswith_appendI: "endswith (u @ p) p"
  by (simp add: endswith_def)

lemma pitcher_tail_start:
  assumes "w \<in> lang pitcher_tail"
  shows "endswith (lower w) ''start''"
proof -
  from assms have "w \<in> lang (seqs ([Star (Cls is_space), Cls (\<lambda>c. c = CHR ''-''),
       Star (Cls is_space), Cls (\<lambda>c. lower_char c = CHR ''l'' \<or> lower_char c = CHR ''r''),
       Plus (Cls is_space), lit_ci ''must'', Plus (Cls is_space)] @ [lit_ci ''start'']))"
    by (simp add: pitcher_tail_def del: lang.simps seqs.simps lit_ci.simps)
  from lang_seqs_last[OF this] obtain u v where w: "w = u @ v" and "v \<in> lang (lit_ci ''start'')"
    by blast
  then have "lower v = lower ''start''" by (simp only: lang_lit_ci)
  also have "lower ''start'' = ''start''" by code_simp
  finally have "lower w = lower u @ ''start''" using w by (simp only: lower_append)
  then show ?thesis by (simp only: endswith_appendI)
qed

lemma pitcher_pattern_tail:
  assumes "p \<in> set pitcher_patterns" and "w \<in> lang p"
  shows "\<exists>u v. w = u @ v \<and> v \<in> lang pitcher_tail"
proof -
  from assms(1) have "\<exists>rs. p = seqs (rs @ [pitcher_tail])"
    unfolding pitcher_patterns_def
  proof (simp only: set_simps insert_iff empty_iff, elim disjE)
    assume "p = seqs [Cls is_alpha, Star (Cls is_alpha), Plus (Cls is_space),
            Cls is_alpha, Star (Cls is_alpha), pitcher_tail]"
    then have "p = seqs ([Cls is_alpha, Star (Cls is_alpha), Plus (Cls is_space),
            Cls is_alpha, Star (Cls is_alpha)] @ [pitcher_tail])" by simp
    then show ?thesis by blast
  next
    assume "p = seqs [Cls is_alpha, Star (Cls is_alpha), pitcher_tail]"
    then have "p = seqs ([Cls is_alpha, Star (Cls is_alpha)] @ [pitcher_tail])" by simp
    then show ?thesis by blast
  next
    assume "p = seqs [Cls is_alpha, pitcher_tail]"
    then have "p = seqs ([Cls is_alpha] @ [pitcher_tail])" by simp
    then show ?thesis by blast
  next
    assume "False"
    then show ?thesis ..
  qed
  with assms(2) lang_seqs_last show ?thesis by blast
qed

lemma lazy_group_pitcher_None:
  assumes "CHR ''-'' \<notin> set name \<or> \<not> endswith (lower name) ''start''"
    and "p \<in> set pitcher_patterns"
  shows "lazy_group P p [] name = None"
proof (cases "lazy_group P p [] name")
  case None
  then show ?thesis .
next
  case (Some g)
  from lazy_group_split[OF this] obtain rest where n: "name = g @ rest" and "rmatch p rest"
    by auto
  then have "rest \<in> lang p" by (simp add: rmatch_lang)
  from pitcher_pattern_tail[OF assms(2) this] obtain u v
    where r: "rest = u @ v" and v: "v \<in> lang pitcher_tail" by blast
  from pitcher_tail_dash[OF v] n r have d: "CHR ''-'' \<in> set name" by simp
  from pitcher_tail_start[OF v] obtain "length ''start'' \<le> length (lower v)"
    and "drop (length (lower v) - length ''start'') (lower v) = ''start''"
    by (simp only: endswith_def)
  then have "lower v = take (length (lower v) - length ''start'') (lower v) @ ''start''"
    by (metis append_take_drop_id)
  then have "lower name = (lower g @ lower u @ take (length (lower v) - length ''start'') (lower v)) @ ''start''"
    using n r by (simp only: lower_append append_assoc)
  then have "endswith (lower name) ''start''" by (simp only: endswith_appendI)
  with d assms(1) show ?thesis by simp
qed

lemma strip_pitcher_sub:
  "CHR ''-'' \<notin> set name \<or> \<not> endswith (lower name) ''start'' \<Longrightarrow>
   set ps \<subseteq> set pitcher_patterns \<Longrightarrow> strip_pitcher ps name = name"
  by (induction ps) (simp_all add: lazy_group_pitcher_None)

lemma strip_pitcher_id:
  "CHR ''-'' \<notin> set name \<or> \<not> endswith (lower name) ''start'' \<Longrightarrow>
   strip_pitcher pitcher_patterns name = name"
  by (rule strip_pitcher_sub) simp_all

lemma contains_appendI: "contains (u @ p @ v) p"
proof (induction u)
  case Nil
  show ?case
  proof (cases "p @ v")
    case Nil
    then show ?thesis by simp
  next
    case (Cons a list)
    have "take (length p) (p @ v) = p" by simp
    with Cons have "startswith (a # list) p" by (simp add: startswith_def)
    with Cons show ?thesis by simp
  qed
next
  case (Cons c u)
  then show ?case by simp
qed

lemma contains_split: "contains s p \<Longrightarrow> \<exists>u v. s = u @ p @ v"
proof (induction s)
  case Nil
  then show ?case by simp
next
  case (Cons c cs)
  from Cons.prems have "startswith (c # cs) p \<or> contains cs p" by simp
  then show ?case
  proof
    assume "startswith (c # cs) p"
    then have "take (length p) (c # cs) = p" by (simp only: startswith_def)
    then have "c # cs = [] @ p @ drop (length p) (c # cs)"
      by (metis append_Nil append_take_drop_id)
    then show ?thesis by blast
  next
    assume "contains cs p"
    from Cons.IH[OF this] obtain u v where "cs = u @ p @ v" by blast
    then have "c # cs = (c # u) @ p @ v" by simp
    then show ?thesis by blast
  qed
qed

lemma contains_mono: "contains m t \<Longrightarrow> contains (u @ m @ v) t"
proof -
  assume "contains m t"
  from contains_split[OF this] obtain a b where "m = a @ t @ b" by blast
  then have "u @ m @ v = (u @ a) @ t @ (b @ v)" by simp
  then show ?thesis by (simp only: contains_appendI)
qed

lemma lang_alts: "m \<in> lang (alts rs) \<Longrightarrow> \<exists>r\<in>set rs. m \<in> lang r"
  by (induction rs) auto

lemma lit_phrase:
  "m \<in> lang (lit_ci t) \<Longrightarrow> lower t = t \<Longrightarrow> contains t q \<Longrightarrow> contains (lower m) q"
  using lang_lit_ci by fastforce

lemma lit_prefix_phrase:
  assumes "m \<in> lang (Seq (lit_ci t) r)" and "lower t = t"
  shows "contains (lower m) t"
proof -
  from lang_SeqD[OF assms(1)] obtain a b where m: "m = a @ b" and "a \<in> lang (lit_ci t)"
    by blast
  then have "lower a = t" using assms(2) lang_lit_ci by fastforce
  with m have "lower m = [] @ t @ lower b" by (simp add: lower_append)
  then show ?thesis by (simp only: contains_appendI)
qed

lemma lower_phrases:
  "lower ''to lift the trophy'' = ''to lift the trophy''"
  "lower ''lift the trophy'' = ''lift the trophy''"
  "lower ''to win'' = ''to win''"
  "lower ''wins'' = ''wins''"
  "lower ''(match)'' = ''(match)''"
  "lower ''series price'' = ''series price''"
  "lower ''to win series'' = ''to win series''"
  "lower ''(corners)'' = ''(corners)''"
  by code_simp+

lemma contains_phrases:
  "contains ''to lift the trophy'' ''lift the trophy''"
  "contains ''lift the trophy'' ''lift the trophy''"
  "contains ''(match)'' ''(match)''"
  "contains ''series price'' ''series price''"
  "contains ''to win series'' ''to win''"
  "contains ''(corners)'' ''(corners)''"
  by code_simp+

lemma trophy_alt_phrase:
  assumes "m \<in> lang (alts [lit_ci ''to lift the trophy'', lit_ci ''lift the trophy'',
                 Seq (lit_ci ''to win'') (Star (Cls not_newline)),
                 Seq (lit_ci ''wins'') (Star (Cls not_newline)),
                 lit_ci ''(match)'', lit_ci ''series price'', lit_ci ''to win series'',
                 lit_ci ''(corners)''])"
  shows "\<exists>t\<in>set trophy_phrases. contains (lower m) t"
proof -
  from lang_alts[OF assms] have
    "m \<in> lang (lit_ci ''to lift the trophy'') \<or> m \<in> lang (lit_ci ''lift the trophy'') \<or>
     m \<in> lang (Seq (lit_ci ''to win'') (Star (Cls not_newline))) \<or>
     m \<in> lang (Seq (lit_ci ''wins'') (Star (Cls not_newline))) \<or>
     m \<in> lang (lit_ci ''(match)'') \<or> m \<in> lang (lit_ci ''series price'') \<or>
     m \<in> lang (lit_ci ''to win series'') \<or> m \<in> lang (lit_ci ''(corners)'')"
    by (simp only: set_simps bex_simps insert_iff empty_iff ball_simps) blast
  then consider
    "contains (lower m) ''lift the trophy''" | "contains (lower m) ''to win''" |
    "contains (lower m) ''wins''" | "contains (lower m) ''(match)''" |
    "contains (lower m) ''series price''" | "contains (lower m) ''(corners)''"
    using lit_phrase[OF _ lower_phrases(1) contains_phrases(1)]
      lit_phrase[OF _ lower_phrases(2) contains_phrases(2)]
      lit_prefix_phrase[OF _ lower_phrases(3)]
      lit_prefix_phrase[OF _ lower_phrases(4)]
      lit_phrase[OF _ lower_phrases(5) contains_phrases(3)]
      lit_phrase[OF _ lower_phrases(6) contains_phrases(4)]
      lit_phrase[OF _ lower_phrases(7) contains_phrases(5)]
      lit_phrase[OF _ lower_phrases(8) contains_phrases(6)]
    by blast
  then show ?thesis
    by cases (simp_all only: trophy_phrases_def set_simps bex_simps insert_iff simp_thms)
qed

lemma trophy_rest_phrase:
  assumes "w \<in> lang trophy_rest"
  shows "\<exists>t\<in>set trophy_phrases. contains (lower w) t"
proof -
  let ?A = "alts [lit_ci ''to lift the trophy'', lit_ci ''lift the trophy'',
                 Seq (lit_ci ''to win'') (Star (Cls not_newline)),
                 Seq (lit_ci ''wins'') (Star (Cls not_newline)),
                 lit_ci ''(match)'', lit_ci ''series price'', lit_ci ''to win series'',
                 lit_ci ''(corners)'']"
  from assms have "w \<in> lang (Seq (Star (Cls is_space)) (Seq ?A (seqs [Star (Cls (\<lambda>c. True))])))"
    by (simp add: trophy_rest_def del: lang.simps alts.simps lit_ci.simps)
  from lang_SeqD[OF this] obtain u x where w: "w = u @ x"
    and "x \<in> lang (Seq ?A (seqs [Star (Cls (\<lambda>c. True))]))" by blast
  from lang_SeqD[OF this(2)] obtain m v where x: "x = m @ v" and m: "m \<in> lang ?A" by blast
  from trophy_alt_phrase[OF m] obtain t where t: "t \<in> set trophy_phrases"
    and c: "contains (lower m) t" by blast
  from w x have "lower w = lower u @ lower m @ lower v" by (simp add: lower_append)
  with contains_mono[OF c, of "lower u" "lower v"] have "contains (lower w) t" by simp
  with t show ?thesis by blast
qed

lemma strip_trophy_id:
  assumes "\<not> has_trophy_phrase name"
  shows "strip_trophy name = name"
proof (cases "lazy_group not_newline trophy_rest [] name")
  case None
  then show ?thesis by (simp add: strip_trophy_def)
next
  case (Some g)
  from lazy_group_split[OF this] obtain rest where n: "name = g @ rest"
    and "rmatch trophy_rest rest" by auto
  then have "rest \<in> lang trophy_rest" by (simp add: rmatch_lang)
  from trophy_rest_phrase[OF this] obtain t where t: "t \<in> set trophy_phrases"
    and c: "contains (lower rest) t" by blast
  from n have "lower name = lower g @ lower rest @ []" by (simp add: lower_append)
  with contains_mono[OF c, of "lower g" "[]"] have "contains (lower name) t" by simp
  with t have "has_trophy_phrase name" by (auto simp: has_trophy_phrase_def list_ex_iff)
  with assms show ?thesis by simp
qed

lemma normalize_plain_eq:
  assumes "CHR ''-'' \<notin> set (strip (strip_leading_number s)) \<or>
      \<not> endswith (lower (strip (strip_leading_number s))) ''start''"
    and "\<not> has_trophy_phrase (strip (strip_leading_number s))"
  shows "normalize_team_name_for_matching s = normalize_plain s"
  unfolding normalize_team_name_for_matching_def normalize_plain_def
  by (simp only: strip_pitcher_id[OF assms(1)] strip_trophy_id[OF assms(2)] Let_def)

subsection \<open>Team names: the alias table\<close>

text \<open>The normalised form of every name of \<^verbatim>\<open>TEAM_ALIASES\<close>.\<close>

lemma norm_north_korea: "normalize_team_name_for_matching ''north korea'' = ''north korea''"
proof -
  have "CHR ''-'' \<notin> set (strip (strip_leading_number ''north korea'')) \<or>
      \<not> endswith (lower (strip (strip_leading_number ''north korea''))) ''start''" by code_simp
  moreover have "\<not> has_trophy_phrase (strip (strip_leading_number ''north korea''))" by code_simp
  ultimately have "normalize_team_name_for_matching ''north korea'' = normalize_plain ''north korea''"
    by (rule normalize_plain_eq)
  also have "normalize_plain ''north korea'' = ''north korea''" by code_simp
  finally show ?thesis .
qed

lemma norm_korea_dpr: "normalize_team_name_for_matching ''korea dpr'' = ''korea dpr''"
proof -
  have "CHR ''-'' \<notin> set (strip (strip_leading_number ''korea dpr'')) \<or>
      \<not> endswith (lower (strip (strip_leading_number ''korea dpr''))) ''start''" by code_simp
  moreover have "\<not> has_trophy_phrase (strip (strip_leading_number ''korea dpr''))" by code_simp
  ultimately have "normalize_team_name_for_matching ''korea dpr'' = normalize_plain ''korea dpr''"
    by (rule normalize_plain_eq)
  also have "normalize_plain ''korea dpr'' = ''korea dpr''" by code_simp
  finally show ?thesis .
qed

lemma norm_dpr_korea: "normalize_team_name_for_matching ''dpr korea'' = ''dpr korea''"
proof -
  have "CHR ''-'' \<notin> set (strip (strip_leading_number ''dpr korea'')) \<or>
      \<not> endswith (lower (strip (strip_leading_number ''dpr korea''))) ''start''" by code_simp
  moreover have "\<not> has_trophy_phrase (strip (strip_leading_number ''dpr korea''))" by code_simp
  ultimately have "normalize_team_name_for_matching ''dpr korea'' = normalize_plain ''dpr korea''"
    by (rule normalize_plain_eq)
  also have "normalize_plain ''dpr korea'' = ''dpr korea''" by code_simp
  finally show ?thesis .
qed

lemma norm_democratic_people_q_s_republic_of_korea: "normalize_team_name_for_matching ''democratic people's republic of korea'' = ''democratic peoples republic of korea''"
proof -
  have "CHR ''-'' \<notin> set (strip (strip_leading_number ''democratic people's republic of korea'')) \<or>
      \<not> endswith (lower (strip (strip_leading_number ''democratic people's republic of korea''))) ''start''" by code_simp
  moreover have "\<not> has_trophy_phrase (strip (strip_leading_number ''democratic people's republic of korea''))" by code_simp
  ultimately have "normalize_team_name_for_matching ''democratic people's republic of korea'' = normalize_plain ''democratic people's republic of korea''"
    by (rule normalize_plain_eq)
  also have "normalize_plain ''democratic people's republic of korea'' = ''democratic peoples republic of korea''" by code_simp
  finally show ?thesis .
qed

lemma norm_south_korea: "normalize_team_name_for_matching ''south korea'' = ''south korea''"
proof -
  have "CHR ''-'' \<notin> set (strip (strip_leading_number ''south korea'')) \<or>
      \<not> endswith (lower (strip (strip_leading_number ''south korea''))) ''start''" by code_simp
  moreover have "\<not> has_trophy_phrase (strip (strip_leading_number ''south korea''))" by code_simp
  ultimately have "normalize_team_name_for_matching ''south korea'' = normalize_plain ''south korea''"
    by (rule normalize_plain_eq)
  also have "normalize_plain ''south korea'' = ''south korea''" by code_simp
  finally show ?thesis .
qed

lemma norm_korea_republic: "normalize_team_name_for_matching ''korea republic'' = ''korea republic''"
proof -
  have "CHR ''-'' \<notin> set (strip (strip_leading_number ''korea republic'')) \<or>
      \<not> endswith (lower (strip (strip_leading_number ''korea republic''))) ''start''" by code_simp
  moreover have "\<not> has_trophy_phrase (strip (strip_leading_number ''korea republic''))" by code_simp
  ultimately have "normalize_team_name_for_matching ''korea republic'' = normalize_plain ''korea republic''"
    by (rule normalize_plain_eq)
  also have "normalize_plain ''korea republic'' = ''korea republic''" by code_simp
  finally show ?thesis .
qed

lemma norm_republic_of_korea: "normalize_team_name_for_matching ''republic of korea'' = ''republic of korea''"
proof -
  have "CHR ''-'' \<notin> set (strip (strip_leading_number ''republic of korea'')) \<or>
      \<not> endswith (lower (strip (strip_leading_number ''republic of korea''))) ''start''" by code_simp
  moreover have "\<not> has_trophy_phrase (strip (strip_leading_number ''republic of korea''))" by code_simp
  ultimately have "normalize_team_name_for_matching ''republic of korea'' = normalize_plain ''republic of korea''"
    by (rule normalize_plain_eq)
  also have "normalize_plain ''republic of korea'' = ''republic of korea''" by code_simp
  finally show ?thesis .
qed

lemma norm_ivory_coast: "normalize_team_name_for_matching ''ivory coast'' = ''ivory coast''"
proof -
  have "CHR ''-'' \<notin> set (strip (strip_leading_number ''ivory coast'')) \<or>
      \<not> endswith (lower (strip (strip_leading_number ''ivory coast''))) ''start''" by code_simp
  moreover have "\<not> has_trophy_phrase (strip (strip_leading_number ''ivory coast''))" by code_simp
  ultimately have "normalize_team_name_for_matching ''ivory coast'' = normalize_plain ''ivory coast''"
    by (rule normalize_plain_eq)
  also have "normalize_plain ''ivory coast'' = ''ivory coast''" by code_simp
  finally show ?thesis .
qed

lemma norm_cote_d_q_ivoire: "normalize_team_name_for_matching ''cote d'ivoire'' = ''cote divoire''"
proof -
  have "CHR ''-'' \<notin> set (strip (strip_leading_number ''cote d'ivoire'')) \<or>
      \<not> endswith (lower (strip (strip_leading_number ''cote d'ivoire''))) ''start''" by code_simp
  moreover have "\<not> has_trophy_phrase (strip (strip_leading_number ''cote d'ivoire''))" by code_simp
  ultimately have "normalize_team_name_for_matching ''cote d'ivoire'' = normalize_plain ''cote d'ivoire''"
    by (rule normalize_plain_eq)
  also have "normalize_plain ''cote d'ivoire'' = ''cote divoire''" by code_simp
  finally show ?thesis .
qed

lemma norm_czech_republic: "normalize_team_name_for_matching ''czech republic'' = ''czech republic''"
proof -
  have "CHR ''-'' \<notin> set (strip (strip_leading_number ''czech republic'')) \<or>
      \<not> endswith (lower (strip (strip_leading_number ''czech republic''))) ''start''" by code_simp
  moreover have "\<not> has_trophy_phrase (strip (strip_leading_number ''czech republic''))" by code_simp
  ultimately have "normalize_team_name_for_matching ''czech republic'' = normalize_plain ''czech republic''"
    by (rule normalize_plain_eq)
  also have "normalize_plain ''czech republic'' = ''czech republic''" by code_simp
  finally show ?thesis .
qed

lemma norm_czechia: "normalize_team_name_for_matching ''czechia'' = ''czechia''"
proof -
  have "CHR ''-'' \<notin> set (strip (strip_leading_number ''czechia'')) \<or>
      \<not> endswith (lower (strip (strip_leading_number ''czechia''))) ''start''" by code_simp
  moreover have "\<not> has_trophy_phrase (strip (strip_leading_number ''czechia''))" by code_simp
  ultimately have "normalize_team_name_for_matching ''czechia'' = normalize_plain ''czechia''"
    by (rule normalize_plain_eq)
  also have "normalize_plain ''czechia'' = ''czechia''" by code_simp
  finally show ?thesis .
qed

lemma norm_united_states: "normalize_team_name_for_matching ''united states'' = ''united states''"
proof -
  have "CHR ''-'' \<notin> set (strip (strip_leading_number ''united states'')) \<or>
      \<not> endswith (lower (strip (strip_leading_number ''united states''))) ''start''" by code_simp
  moreover have "\<not> has_trophy_phrase (strip (strip_leading_number ''united states''))" by code_simp
  ultimately have "normalize_team_name_for_matching ''united states'' = normalize_plain ''united states''"
    by (rule normalize_plain_eq)
  also have "normalize_plain ''united states'' = ''united states''" by code_simp
  finally show ?thesis .
qed

lemma norm_usa: "normalize_team_name_for_matching ''usa'' = ''usa''"
proof -
  have "CHR ''-'' \<notin> set (strip (strip_leading_number ''usa'')) \<or>
      \<not> endswith (lower (strip (strip_leading_number ''usa''))) ''start''" by code_simp
  moreover have "\<not> has_trophy_phrase (strip (strip_leading_number ''usa''))" by code_simp
  ultimately have "normalize_team_name_for_matching ''usa'' = normalize_plain ''usa''"
    by (rule normalize_plain_eq)
  also have "normalize_plain ''usa'' = ''usa''" by code_simp
  finally show ?thesis .
qed

lemma norm_us: "normalize_team_name_for_matching ''us'' = ''us''"
proof -
  have "CHR ''-'' \<notin> set (strip (strip_leading_number ''us'')) \<or>
      \<not> endswith (lower (strip (strip_leading_number ''us''))) ''start''" by code_simp
  moreover have "\<not> has_trophy_phrase (strip (strip_leading_number ''us''))" by code_simp
  ultimately have "normalize_team_name_for_matching ''us'' = normalize_plain ''us''"
    by (rule normalize_plain_eq)
  also have "normalize_plain ''us'' = ''us''" by code_simp
  finally show ?thesis .
qed

lemma norm_united_states_of_america: "normalize_team_name_for_matching ''united states of america'' = ''united states of america''"
proof -
  have "CHR ''-'' \<notin> set (strip (strip_leading_number ''united states of america'')) \<or>
      \<not> endswith (lower (strip (strip_leading_number ''united states of america''))) ''start''" by code_simp
  moreover have "\<not> has_trophy_phrase (strip (strip_leading_number ''united states of america''))" by code_simp
  ultimately have "normalize_team_name_for_matching ''united states of america'' = normalize_plain ''united states of america''"
    by (rule normalize_plain_eq)
  also have "normalize_plain ''united states of america'' = ''united states of america''" by code_simp
  finally show ?thesis .
qed

lemma norm_iran: "normalize_team_name_for_matching ''iran'' = ''iran''"
proof -
  have "CHR ''-'' \<notin> set (strip (strip_leading_number ''iran'')) \<or>
      \<not> endswith (lower (strip (strip_leading_number ''iran''))) ''start''" by code_simp
  moreover have "\<not> has_trophy_phrase (strip (strip_leading_number ''iran''))" by code_simp
  ultimately have "normalize_team_name_for_matching ''iran'' = normalize_plain ''iran''"
    by (rule normalize_plain_eq)
  also have "normalize_plain ''iran'' = ''iran''" by code_simp
  finally show ?thesis .
qed

lemma norm_iran_isl: "normalize_team_name_for_matching ''iran isl'' = ''iran isl''"
proof -
  have "CHR ''-'' \<notin> set (strip (strip_leading_number ''iran isl'')) \<or>
      \<not> endswith (lower (strip (strip_leading_number ''iran isl''))) ''start''" by code_simp
  moreover have "\<not> has_trophy_phrase (strip (strip_leading_number ''iran isl''))" by code_simp
  ultimately have "normalize_team_name_for_matching ''iran isl'' = normalize_plain ''iran isl''"
    by (rule normalize_plain_eq)
  also have "normalize_plain ''iran isl'' = ''iran isl''" by code_simp
  finally show ?thesis .
qed

lemma norm_islamic_republic_of_iran: "normalize_team_name_for_matching ''islamic republic of iran'' = ''islamic republic of iran''"
proof -
  have "CHR ''-'' \<notin> set (strip (strip_leading_number ''islamic republic of iran'')) \<or>
      \<not> endswith (lower (strip (strip_leading_number ''islamic republic of iran''))) ''start''" by code_simp
  moreover have "\<not> has_trophy_phrase (strip (strip_leading_number ''islamic republic of iran''))" by code_simp
  ultimately have "normalize_team_name_for_matching ''islamic republic of iran'' = normalize_plain ''islamic republic of iran''"
    by (rule normalize_plain_eq)
  also have "normalize_plain ''islamic republic of iran'' = ''islamic republic of iran''" by code_simp
  finally show ?thesis .
qed

lemma norm_russia: "normalize_team_name_for_matching ''russia'' = ''russia''"
proof -
  have "CHR ''-'' \<notin> set (strip (strip_leading_number ''russia'')) \<or>
      \<not> endswith (lower (strip (strip_leading_number ''russia''))) ''start''" by code_simp
  moreover have "\<not> has_trophy_phrase (strip (strip_leading_number ''russia''))" by code_simp
  ultimately have "normalize_team_name_for_matching ''russia'' = normalize_plain ''russia''"
    by (rule normalize_plain_eq)
  also have "normalize_plain ''russia'' = ''russia''" by code_simp
  finally show ?thesis .
qed

lemma norm_russian_federation: "normalize_team_name_for_matching ''russian federation'' = ''russian federation''"
proof -
  have "CHR ''-'' \<notin> set (strip (strip_leading_number ''russian federation'')) \<or>
      \<not> endswith (lower (strip (strip_leading_number ''russian federation''))) ''start''" by code_simp
  moreover have "\<not> has_trophy_phrase (strip (strip_leading_number ''russian federation''))" by code_simp
  ultimately have "normalize_team_name_for_matching ''russian federation'' = normalize_plain ''russian federation''"
    by (rule normalize_plain_eq)
  also have "normalize_plain ''russian federation'' = ''russian federation''" by code_simp
  finally show ?thesis .
qed

lemma norm_tottenham: "normalize_team_name_for_matching ''tottenham'' = ''tottenham''"
proof -
  have "CHR ''-'' \<notin> set (strip (strip_leading_number ''tottenham'')) \<or>
      \<not> endswith (lower (strip (strip_leading_number ''tottenham''))) ''start''" by code_simp
  moreover have "\<not> has_trophy_phrase (strip (strip_leading_number ''tottenham''))" by code_simp
  ultimately have "normalize_team_name_for_matching ''tottenham'' = normalize_plain ''tottenham''"
    by (rule normalize_plain_eq)
  also have "normalize_plain ''tottenham'' = ''tottenham''" by code_simp
  finally show ?thesis .
qed

lemma norm_tottenham_hotspur: "normalize_team_name_for_matching ''tottenham hotspur'' = ''tottenham''"
proof -
  have "CHR ''-'' \<notin> set (strip (strip_leading_number ''tottenham hotspur'')) \<or>
      \<not> endswith (lower (strip (strip_leading_number ''tottenham hotspur''))) ''start''" by code_simp
  moreover have "\<not> has_trophy_phrase (strip (strip_leading_number ''tottenham hotspur''))" by code_simp
  ultimately have "normalize_team_name_for_matching ''tottenham hotspur'' = normalize_plain ''tottenham hotspur''"
    by (rule normalize_plain_eq)
  also have "normalize_plain ''tottenham hotspur'' = ''tottenham''" by code_simp
  finally show ?thesis .
qed

lemma norm_spurs: "normalize_team_name_for_matching ''spurs'' = ''spurs''"
proof -
  have "CHR ''-'' \<notin> set (strip (strip_leading_number ''spurs'')) \<or>
      \<not> endswith (lower (strip (strip_leading_number ''spurs''))) ''start''" by code_simp
  moreover have "\<not> has_trophy_phrase (strip (strip_leading_number ''spurs''))" by code_simp
  ultimately have "normalize_team_name_for_matching ''spurs'' = normalize_plain ''spurs''"
    by (rule normalize_plain_eq)
  also have "normalize_plain ''spurs'' = ''spurs''" by code_simp
  finally show ?thesis .
qed

lemma norm_psg: "normalize_team_name_for_matching ''psg'' = ''psg''"
proof -
  have "CHR ''-'' \<notin> set (strip (strip_leading_number ''psg'')) \<or>
      \<not> endswith (lower (strip (strip_leading_number ''psg''))) ''start''" by code_simp
  moreover have "\<not> has_trophy_phrase (strip (strip_leading_number ''psg''))" by code_simp
  ultimately have "normalize_team_name_for_matching ''psg'' = normalize_plain ''psg''"
    by (rule normalize_plain_eq)
  also have "normalize_plain ''psg'' = ''psg''" by code_simp
  finally show ?thesis .
qed

lemma norm_paris_saint_germain: "normalize_team_name_for_matching ''paris saint germain'' = ''psg''"
proof -
  have "CHR ''-'' \<notin> set (strip (strip_leading_number ''paris saint germain'')) \<or>
      \<not> endswith (lower (strip (strip_leading_number ''paris saint germain''))) ''start''" by code_simp
  moreover have "\<not> has_trophy_phrase (strip (strip_leading_number ''paris saint germain''))" by code_simp
  ultimately have "normalize_team_name_for_matching ''paris saint germain'' = normalize_plain ''paris saint germain''"
    by (rule normalize_plain_eq)
  also have "normalize_plain ''paris saint germain'' = ''psg''" by code_simp
  finally show ?thesis .
qed

lemma norm_paris_sg: "normalize_team_name_for_matching ''paris sg'' = ''psg''"
proof -
  have "CHR ''-'' \<notin> set (strip (strip_leading_number ''paris sg'')) \<or>
      \<not> endswith (lower (strip (strip_leading_number ''paris sg''))) ''start''" by code_simp
  moreover have "\<not> has_trophy_phrase (strip (strip_leading_number ''paris sg''))" by code_simp
  ultimately have "normalize_team_name_for_matching ''paris sg'' = normalize_plain ''paris sg''"
    by (rule normalize_plain_eq)
  also have "normalize_plain ''paris sg'' = ''psg''" by code_simp
  finally show ?thesis .
qed

lemma norm_tiger_cats: "normalize_team_name_for_matching ''tiger cats'' = ''tiger cats''"
proof -
  have "CHR ''-'' \<notin> set (strip (strip_leading_number ''tiger cats'')) \<or>
      \<not> endswith (lower (strip (strip_leading_number ''tiger cats''))) ''start''" by code_simp
  moreover have "\<not> has_trophy_phrase (strip (strip_leading_number ''tiger cats''))" by code_simp
  ultimately have "normalize_team_name_for_matching ''tiger cats'' = normalize_plain ''tiger cats''"
    by (rule normalize_plain_eq)
  also have "normalize_plain ''tiger cats'' = ''tiger cats''" by code_simp
  finally show ?thesis .
qed

lemma norm_tiger_dash_cats: "normalize_team_name_for_matching ''tiger-cats'' = ''tiger-cats''"
proof -
  have "CHR ''-'' \<notin> set (strip (strip_leading_number ''tiger-cats'')) \<or>
      \<not> endswith (lower (strip (strip_leading_number ''tiger-cats''))) ''start''" by code_simp
  moreover have "\<not> has_trophy_phrase (strip (strip_leading_number ''tiger-cats''))" by code_simp
  ultimately have "normalize_team_name_for_matching ''tiger-cats'' = normalize_plain ''tiger-cats''"
    by (rule normalize_plain_eq)
  also have "normalize_plain ''tiger-cats'' = ''tiger-cats''" by code_simp
  finally show ?thesis .
qed

lemma norm_hamilton_tiger_cats: "normalize_team_name_for_matching ''hamilton tiger cats'' = ''hamilton tiger cats''"
proof -
  have "CHR ''-'' \<notin> set (strip (strip_leading_number ''hamilton tiger cats'')) \<or>
      \<not> endswith (lower (strip (strip_leading_number ''hamilton tiger cats''))) ''start''" by code_simp
  moreover have "\<not> has_trophy_phrase (strip (strip_leading_number ''hamilton tiger cats''))" by code_simp
  ultimately have "normalize_team_name_for_matching ''hamilton tiger cats'' = normalize_plain ''hamilton tiger cats''"
    by (rule normalize_plain_eq)
  also have "normalize_plain ''hamilton tiger cats'' = ''hamilton tiger cats''" by code_simp
  finally show ?thesis .
qed

lemma norm_hamilton_tiger_dash_cats: "normalize_team_name_for_matching ''hamilton tiger-cats'' = ''hamilton tiger-cats''"
proof -
  have "CHR ''-'' \<notin> set (strip (strip_leading_number ''hamilton tiger-cats'')) \<or>
      \<not> endswith (lower (strip (strip_leading_number ''hamilton tiger-cats''))) ''start''" by code_simp
  moreover have "\<not> has_trophy_phrase (strip (strip_leading_number ''hamilton tiger-cats''))" by code_simp
  ultimately have "normalize_team_name_for_matching ''hamilton tiger-cats'' = normalize_plain ''hamilton tiger-cats''"
    by (rule normalize_plain_eq)
  also have "normalize_plain ''hamilton tiger-cats'' = ''hamilton tiger-cats''" by code_simp
  finally show ?thesis .
qed

lemma norm_blue_bombers: "normalize_team_name_for_matching ''blue bombers'' = ''blue bombers''"
proof -
  have "CHR ''-'' \<notin> set (strip (strip_leading_number ''blue bombers'')) \<or>
      \<not> endswith (lower (strip (strip_leading_number ''blue bombers''))) ''start''" by code_simp
  moreover have "\<not> has_trophy_phrase (strip (strip_leading_number ''blue bombers''))" by code_simp
  ultimately have "normalize_team_name_for_matching ''blue bombers'' = normalize_plain ''blue bombers''"
    by (rule normalize_plain_eq)
  also have "normalize_plain ''blue bombers'' = ''blue bombers''" by code_simp
  finally show ?thesis .
qed

lemma norm_winnipeg_blue_bombers: "normalize_team_name_for_matching ''winnipeg blue bombers'' = ''winnipeg blue bombers''"
proof -
  have "CHR ''-'' \<notin> set (strip (strip_leading_number ''winnipeg blue bombers'')) \<or>
      \<not> endswith (lower (strip (strip_leading_number ''winnipeg blue bombers''))) ''start''" by code_simp
  moreover have "\<not> has_trophy_phrase (strip (strip_leading_number ''winnipeg blue bombers''))" by code_simp
  ultimately have "normalize_team_name_for_matching ''winnipeg blue bombers'' = normalize_plain ''winnipeg blue bombers''"
    by (rule normalize_plain_eq)
  also have "normalize_plain ''winnipeg blue bombers'' = ''winnipeg blue bombers''" by code_simp
  finally show ?thesis .
qed

lemma norm_roughriders: "normalize_team_name_for_matching ''roughriders'' = ''roughriders''"
proof -
  have "CHR ''-'' \<notin> set (strip (strip_leading_number ''roughriders'')) \<or>
      \<not> endswith (lower (strip (strip_leading_number ''roughriders''))) ''start''" by code_simp
  moreover have "\<not> has_trophy_phrase (strip (strip_leading_number ''roughriders''))" by code_simp
  ultimately have "normalize_team_name_for_matching ''roughriders'' = normalize_plain ''roughriders''"
    by (rule normalize_plain_eq)
  also have "normalize_plain ''roughriders'' = ''roughriders''" by code_simp
  finally show ?thesis .
qed

lemma norm_saskatchewan_roughriders: "normalize_team_name_for_matching ''saskatchewan roughriders'' = ''saskatchewan roughriders''"
proof -
  have "CHR ''-'' \<notin> set (strip (strip_leading_number ''saskatchewan roughriders'')) \<or>
      \<not> endswith (lower (strip (strip_leading_number ''saskatchewan roughriders''))) ''start''" by code_simp
  moreover have "\<not> has_trophy_phrase (strip (strip_leading_number ''saskatchewan roughriders''))" by code_simp
  ultimately have "normalize_team_name_for_matching ''saskatchewan roughriders'' = normalize_plain ''saskatchewan roughriders''"
    by (rule normalize_plain_eq)
  also have "normalize_plain ''saskatchewan roughriders'' = ''saskatchewan roughriders''" by code_simp
  finally show ?thesis .
qed

lemma norm_stampeders: "normalize_team_name_for_matching ''stampeders'' = ''stampeders''"
proof -
  have "CHR ''-'' \<notin> set (strip (strip_leading_number ''stampeders'')) \<or>
      \<not> endswith (lower (strip (strip_leading_number ''stampeders''))) ''start''" by code_simp
  moreover have "\<not> has_trophy_phrase (strip (strip_leading_number ''stampeders''))" by code_simp
  ultimately have "normalize_team_name_for_matching ''stampeders'' = normalize_plain ''stampeders''"
    by (rule normalize_plain_eq)
  also have "normalize_plain ''stampeders'' = ''stampeders''" by code_simp
  finally show ?thesis .
qed

lemma norm_calgary_stampeders: "normalize_team_name_for_matching ''calgary stampeders'' = ''calgary stampeders''"
proof -
  have "CHR ''-'' \<notin> set (strip (strip_leading_number ''calgary stampeders'')) \<or>
      \<not> endswith (lower (strip (strip_leading_number ''calgary stampeders''))) ''start''" by code_simp
  moreover have "\<not> has_trophy_phrase (strip (strip_leading_number ''calgary stampeders''))" by code_simp
  ultimately have "normalize_team_name_for_matching ''calgary stampeders'' = normalize_plain ''calgary stampeders''"
    by (rule normalize_plain_eq)
  also have "normalize_plain ''calgary stampeders'' = ''calgary stampeders''" by code_simp
  finally show ?thesis .
qed

lemma norm_eskimos: "normalize_team_name_for_matching ''eskimos'' = ''eskimos''"
proof -
  have "CHR ''-'' \<notin> set (strip (strip_leading_number ''eskimos'')) \<or>
      \<not> endswith (lower (strip (strip_leading_number ''eskimos''))) ''start''" by code_simp
  moreover have "\<not> has_trophy_phrase (strip (strip_leading_number ''eskimos''))" by code_simp
  ultimately have "normalize_team_name_for_matching ''eskimos'' = normalize_plain ''eskimos''"
    by (rule normalize_plain_eq)
  also have "normalize_plain ''eskimos'' = ''eskimos''" by code_simp
  finally show ?thesis .
qed

lemma norm_edmonton_eskimos: "normalize_team_name_for_matching ''edmonton eskimos'' = ''edmonton eskimos''"
proof -
  have "CHR ''-'' \<notin> set (strip (strip_leading_number ''edmonton eskimos'')) \<or>
      \<not> endswith (lower (strip (strip_leading_number ''edmonton eskimos''))) ''start''" by code_simp
  moreover have "\<not> has_trophy_phrase (strip (strip_leading_number ''edmonton eskimos''))" by code_simp
  ultimately have "normalize_team_name_for_matching ''edmonton eskimos'' = normalize_plain ''edmonton eskimos''"
    by (rule normalize_plain_eq)
  also have "normalize_plain ''edmonton eskimos'' = ''edmonton eskimos''" by code_simp
  finally show ?thesis .
qed

lemma norm_edmonton_elks: "normalize_team_name_for_matching ''edmonton elks'' = ''edmonton elks''"
proof -
  have "CHR ''-'' \<notin> set (strip (strip_leading_number ''edmonton elks'')) \<or>
      \<not> endswith (lower (strip (strip_leading_number ''edmonton elks''))) ''start''" by code_simp
  moreover have "\<not> has_trophy_phrase (strip (strip_leading_number ''edmonton elks''))" by code_simp
  ultimately have "normalize_team_name_for_matching ''edmonton elks'' = normalize_plain ''edmonton elks''"
    by (rule normalize_plain_eq)
  also have "normalize_plain ''edmonton elks'' = ''edmonton elks''" by code_simp
  finally show ?thesis .
qed

lemma norm_redblacks: "normalize_team_name_for_matching ''redblacks'' = ''redblacks''"
proof -
  have "CHR ''-'' \<notin> set (strip (strip_leading_number ''redblacks'')) \<or>
      \<not> endswith (lower (strip (strip_leading_number ''redblacks''))) ''start''" by code_simp
  moreover have "\<not> has_trophy_phrase (strip (strip_leading_number ''redblacks''))" by code_simp
  ultimately have "normalize_team_name_for_matching ''redblacks'' = normalize_plain ''redblacks''"
    by (rule normalize_plain_eq)
  also have "normalize_plain ''redblacks'' = ''redblacks''" by code_simp
  finally show ?thesis .
qed

lemma norm_ottawa_redblacks: "normalize_team_name_for_matching ''ottawa redblacks'' = ''ottawa redblacks''"
proof -
  have "CHR ''-'' \<notin> set (strip (strip_leading_number ''ottawa redblacks'')) \<or>
      \<not> endswith (lower (strip (strip_leading_number ''ottawa redblacks''))) ''start''" by code_simp
  moreover have "\<not> has_trophy_phrase (strip (strip_leading_number ''ottawa redblacks''))" by code_simp
  ultimately have "normalize_team_name_for_matching ''ottawa redblacks'' = normalize_plain ''ottawa redblacks''"
    by (rule normalize_plain_eq)
  also have "normalize_plain ''ottawa redblacks'' = ''ottawa redblacks''" by code_simp
  finally show ?thesis .
qed

lemma norm_argonauts: "normalize_team_name_for_matching ''argonauts'' = ''argonauts''"
proof -
  have "CHR ''-'' \<notin> set (strip (strip_leading_number ''argonauts'')) \<or>
      \<not> endswith (lower (strip (strip_leading_number ''argonauts''))) ''start''" by code_simp
  moreover have "\<not> has_trophy_phrase (strip (strip_leading_number ''argonauts''))" by code_simp
  ultimately have "normalize_team_name_for_matching ''argonauts'' = normalize_plain ''argonauts''"
    by (rule normalize_plain_eq)
  also have "normalize_plain ''argonauts'' = ''argonauts''" by code_simp
  finally show ?thesis .
qed

lemma norm_toronto_argonauts: "normalize_team_name_for_matching ''toronto argonauts'' = ''toronto argonauts''"
proof -
  have "CHR ''-'' \<notin> set (strip (strip_leading_number ''toronto argonauts'')) \<or>
      \<not> endswith (lower (strip (strip_leading_number ''toronto argonauts''))) ''start''" by code_simp
  moreover have "\<not> has_trophy_phrase (strip (strip_leading_number ''toronto argonauts''))" by code_simp
  ultimately have "normalize_team_name_for_matching ''toronto argonauts'' = normalize_plain ''toronto argonauts''"
    by (rule normalize_plain_eq)
  also have "normalize_plain ''toronto argonauts'' = ''toronto argonauts''" by code_simp
  finally show ?thesis .
qed

lemma norm_alouettes: "normalize_team_name_for_matching ''alouettes'' = ''alouettes''"
proof -
  have "CHR ''-'' \<notin> set (strip (strip_leading_number ''alouettes'')) \<or>
      \<not> endswith (lower (strip (strip_leading_number ''alouettes''))) ''start''" by code_simp
  moreover have "\<not> has_trophy_phrase (strip (strip_leading_number ''alouettes''))" by code_simp
  ultimately have "normalize_team_name_for_matching ''alouettes'' = normalize_plain ''alouettes''"
    by (rule normalize_plain_eq)
  also have "normalize_plain ''alouettes'' = ''alouettes''" by code_simp
  finally show ?thesis .
qed

lemma norm_montreal_alouettes: "normalize_team_name_for_matching ''montreal alouettes'' = ''montreal alouettes''"
proof -
  have "CHR ''-'' \<notin> set (strip (strip_leading_number ''montreal alouettes'')) \<or>
      \<not> endswith (lower (strip (strip_leading_number ''montreal alouettes''))) ''start''" by code_simp
  moreover have "\<not> has_trophy_phrase (strip (strip_leading_number ''montreal alouettes''))" by code_simp
  ultimately have "normalize_team_name_for_matching ''montreal alouettes'' = normalize_plain ''montreal alouettes''"
    by (rule normalize_plain_eq)
  also have "normalize_plain ''montreal alouettes'' = ''montreal alouettes''" by code_simp
  finally show ?thesis .
qed

lemma norm_lions: "normalize_team_name_for_matching ''lions'' = ''lions''"
proof -
  have "CHR ''-'' \<notin> set (strip (strip_leading_number ''lions'')) \<or>
      \<not> endswith (lower (strip (strip_leading_number ''lions''))) ''start''" by code_simp
  moreover have "\<not> has_trophy_phrase (strip (strip_leading_number ''lions''))" by code_simp
  ultimately have "normalize_team_name_for_matching ''lions'' = normalize_plain ''lions''"
    by (rule normalize_plain_eq)
  also have "normalize_plain ''lions'' = ''lions''" by code_simp
  finally show ?thesis .
qed

lemma norm_bc_lions: "normalize_team_name_for_matching ''bc lions'' = ''bc lions''"
proof -
  have "CHR ''-'' \<notin> set (strip (strip_leading_number ''bc lions'')) \<or>
      \<not> endswith (lower (strip (strip_leading_number ''bc lions''))) ''start''" by code_simp
  moreover have "\<not> has_trophy_phrase (strip (strip_leading_number ''bc lions''))" by code_simp
  ultimately have "normalize_team_name_for_matching ''bc lions'' = normalize_plain ''bc lions''"
    by (rule normalize_plain_eq)
  also have "normalize_plain ''bc lions'' = ''bc lions''" by code_simp
  finally show ?thesis .
qed

lemma norm_british_columbia_lions: "normalize_team_name_for_matching ''british columbia lions'' = ''british columbia lions''"
proof -
  have "CHR ''-'' \<notin> set (strip (strip_leading_number ''british columbia lions'')) \<or>
      \<not> endswith (lower (strip (strip_leading_number ''british columbia lions''))) ''start''" by code_simp
  moreover have "\<not> has_trophy_phrase (strip (strip_leading_number ''british columbia lions''))" by code_simp
  ultimately have "normalize_team_name_for_matching ''british columbia lions'' = normalize_plain ''british columbia lions''"
    by (rule normalize_plain_eq)
  also have "normalize_plain ''british columbia lions'' = ''british columbia lions''" by code_simp
  finally show ?thesis .
qed

lemma norm_new_york: "normalize_team_name_for_matching ''new york'' = ''ny''"
proof -
  have "CHR ''-'' \<notin> set (strip (strip_leading_number ''new york'')) \<or>
      \<not> endswith (lower (strip (strip_leading_number ''new york''))) ''start''" by code_simp
  moreover have "\<not> has_trophy_phrase (strip (strip_leading_number ''new york''))" by code_simp
  ultimately have "normalize_team_name_for_matching ''new york'' = normalize_plain ''new york''"
    by (rule normalize_plain_eq)
  also have "normalize_plain ''new york'' = ''ny''" by code_simp
  finally show ?thesis .
qed

lemma norm_ny: "normalize_team_name_for_matching ''ny'' = ''ny''"
proof -
  have "CHR ''-'' \<notin> set (strip (strip_leading_number ''ny'')) \<or>
      \<not> endswith (lower (strip (strip_leading_number ''ny''))) ''start''" by code_simp
  moreover have "\<not> has_trophy_phrase (strip (strip_leading_number ''ny''))" by code_simp
  ultimately have "normalize_team_name_for_matching ''ny'' = normalize_plain ''ny''"
    by (rule normalize_plain_eq)
  also have "normalize_plain ''ny'' = ''ny''" by code_simp
  finally show ?thesis .
qed

lemma norm_los_angeles: "normalize_team_name_for_matching ''los angeles'' = ''la''"
proof -
  have "CHR ''-'' \<notin> set (strip (strip_leading_number ''los angeles'')) \<or>
      \<not> endswith (lower (strip (strip_leading_number ''los angeles''))) ''start''" by code_simp
  moreover have "\<not> has_trophy_phrase (strip (strip_leading_number ''los angeles''))" by code_simp
  ultimately have "normalize_team_name_for_matching ''los angeles'' = normalize_plain ''los angeles''"
    by (rule normalize_plain_eq)
  also have "normalize_plain ''los angeles'' = ''la''" by code_simp
  finally show ?thesis .
qed

lemma norm_la: "normalize_team_name_for_matching ''la'' = ''la''"
proof -
  have "CHR ''-'' \<notin> set (strip (strip_leading_number ''la'')) \<or>
      \<not> endswith (lower (strip (strip_leading_number ''la''))) ''start''" by code_simp
  moreover have "\<not> has_trophy_phrase (strip (strip_leading_number ''la''))" by code_simp
  ultimately have "normalize_team_name_for_matching ''la'' = normalize_plain ''la''"
    by (rule normalize_plain_eq)
  also have "normalize_plain ''la'' = ''la''" by code_simp
  finally show ?thesis .
qed

lemma norm_st_louis: "normalize_team_name_for_matching ''st louis'' = ''st. louis''"
proof -
  have "CHR ''-'' \<notin> set (strip (strip_leading_number ''st louis'')) \<or>
      \<not> endswith (lower (strip (strip_leading_number ''st louis''))) ''start''" by code_simp
  moreover have "\<not> has_trophy_phrase (strip (strip_leading_number ''st louis''))" by code_simp
  ultimately have "normalize_team_name_for_matching ''st louis'' = normalize_plain ''st louis''"
    by (rule normalize_plain_eq)
  also have "normalize_plain ''st louis'' = ''st. louis''" by code_simp
  finally show ?thesis .
qed

lemma norm_st_dot_louis: "normalize_team_name_for_matching ''st. louis'' = ''st. louis''"
proof -
  have "CHR ''-'' \<notin> set (strip (strip_leading_number ''st. louis'')) \<or>
      \<not> endswith (lower (strip (strip_leading_number ''st. louis''))) ''start''" by code_simp
  moreover have "\<not> has_trophy_phrase (strip (strip_leading_number ''st. louis''))" by code_simp
  ultimately have "normalize_team_name_for_matching ''st. louis'' = normalize_plain ''st. louis''"
    by (rule normalize_plain_eq)
  also have "normalize_plain ''st. louis'' = ''st. louis''" by code_simp
  finally show ?thesis .
qed

lemma norm_inter: "normalize_team_name_for_matching ''inter'' = ''inter''"
proof -
  have "CHR ''-'' \<notin> set (strip (strip_leading_number ''inter'')) \<or>
      \<not> endswith (lower (strip (strip_leading_number ''inter''))) ''start''" by code_simp
  moreover have "\<not> has_trophy_phrase (strip (strip_leading_number ''inter''))" by code_simp
  ultimately have "normalize_team_name_for_matching ''inter'' = normalize_plain ''inter''"
    by (rule normalize_plain_eq)
  also have "normalize_plain ''inter'' = ''inter''" by code_simp
  finally show ?thesis .
qed

lemma norm_inter_milan: "normalize_team_name_for_matching ''inter milan'' = ''inter''"
proof -
  have "CHR ''-'' \<notin> set (strip (strip_leading_number ''inter milan'')) \<or>
      \<not> endswith (lower (strip (strip_leading_number ''inter milan''))) ''start''" by code_simp
  moreover have "\<not> has_trophy_phrase (strip (strip_leading_number ''inter milan''))" by code_simp
  ultimately have "normalize_team_name_for_matching ''inter milan'' = normalize_plain ''inter milan''"
    by (rule normalize_plain_eq)
  also have "normalize_plain ''inter milan'' = ''inter''" by code_simp
  finally show ?thesis .
qed

lemma norm_internazionale: "normalize_team_name_for_matching ''internazionale'' = ''inter''"
proof -
  have "CHR ''-'' \<notin> set (strip (strip_leading_number ''internazionale'')) \<or>
      \<not> endswith (lower (strip (strip_leading_number ''internazionale''))) ''start''" by code_simp
  moreover have "\<not> has_trophy_phrase (strip (strip_leading_number ''internazionale''))" by code_simp
  ultimately have "normalize_team_name_for_matching ''internazionale'' = normalize_plain ''internazionale''"
    by (rule normalize_plain_eq)
  also have "normalize_plain ''internazionale'' = ''inter''" by code_simp
  finally show ?thesis .
qed

lemma norm_altach: "normalize_team_name_for_matching ''altach'' = ''altach''"
proof -
  have "CHR ''-'' \<notin> set (strip (strip_leading_number ''altach'')) \<or>
      \<not> endswith (lower (strip (strip_leading_number ''altach''))) ''start''" by code_simp
  moreover have "\<not> has_trophy_phrase (strip (strip_leading_number ''altach''))" by code_simp
  ultimately have "normalize_team_name_for_matching ''altach'' = normalize_plain ''altach''"
    by (rule normalize_plain_eq)
  also have "normalize_plain ''altach'' = ''altach''" by code_simp
  finally show ?thesis .
qed

lemma norm_rheindorf_altach: "normalize_team_name_for_matching ''rheindorf altach'' = ''altach''"
proof -
  have "CHR ''-'' \<notin> set (strip (strip_leading_number ''rheindorf altach'')) \<or>
      \<not> endswith (lower (strip (strip_leading_number ''rheindorf altach''))) ''start''" by code_simp
  moreover have "\<not> has_trophy_phrase (strip (strip_leading_number ''rheindorf altach''))" by code_simp
  ultimately have "normalize_team_name_for_matching ''rheindorf altach'' = normalize_plain ''rheindorf altach''"
    by (rule normalize_plain_eq)
  also have "normalize_plain ''rheindorf altach'' = ''altach''" by code_simp
  finally show ?thesis .
qed

lemma norm_scr_altach: "normalize_team_name_for_matching ''scr altach'' = ''altach''"
proof -
  have "CHR ''-'' \<notin> set (strip (strip_leading_number ''scr altach'')) \<or>
      \<not> endswith (lower (strip (strip_leading_number ''scr altach''))) ''start''" by code_simp
  moreover have "\<not> has_trophy_phrase (strip (strip_leading_number ''scr altach''))" by code_simp
  ultimately have "normalize_team_name_for_matching ''scr altach'' = normalize_plain ''scr altach''"
    by (rule normalize_plain_eq)
  also have "normalize_plain ''scr altach'' = ''altach''" by code_simp
  finally show ?thesis .
qed

lemmas norm_table =
  norm_north_korea
  norm_korea_dpr
  norm_dpr_korea
  norm_democratic_people_q_s_republic_of_korea
  norm_south_korea
  norm_korea_republic
  norm_republic_of_korea
  norm_ivory_coast
  norm_cote_d_q_ivoire
  norm_czech_republic
  norm_czechia
  norm_united_states
  norm_usa
  norm_us
  norm_united_states_of_america
  norm_iran
  norm_iran_isl
  norm_islamic_republic_of_iran
  norm_russia
  norm_russian_federation
  norm_tottenham
  norm_tottenham_hotspur
  norm_spurs
  norm_psg
  norm_paris_saint_germain
  norm_paris_sg
  norm_tiger_cats
  norm_tiger_dash_cats
  norm_hamilton_tiger_cats
  norm_hamilton_tiger_dash_cats
  norm_blue_bombers
  norm_winnipeg_blue_bombers
  norm_roughriders
  norm_saskatchewan_roughriders
  norm_stampeders
  norm_calgary_stampeders
  norm_eskimos
  norm_edmonton_eskimos
  norm_edmonton_elks
  norm_redblacks
  norm_ottawa_redblacks
  norm_argonauts
  norm_toronto_argonauts
  norm_alouettes
  norm_montreal_alouettes
  norm_lions
  norm_bc_lions
  norm_british_columbia_lions
  norm_new_york
  norm_ny
  norm_los_angeles
  norm_la
  norm_st_louis
  norm_st_dot_louis
  norm_inter
  norm_inter_milan
  norm_internazionale
  norm_altach
  norm_rheindorf_altach
  norm_scr_altach

text \<open>
  C8 (alias closure), as amended. \<^verbatim>\<open>normalize_team_name_for_matching\<close> does not consult
  \<^verbatim>\<open>TEAM_ALIASES\<close>. Of the 38 pairs of a canonical name and one of its aliases in the
  table, the normalised alias equals the normalised canonical name for exactly the
  eleven pairs listed: those the normaliser rewrites by hand (lines 269-276) and the
  alias \<^verbatim>\<open>iran\<close> of \<^verbatim>\<open>iran\<close>. For every other pair the two normalised names differ.
\<close>

theorem alias_closure:
  "\<forall>(canonical, aliases) \<in> set TEAM_ALIASES. \<forall>alias \<in> set aliases.
     (normalize_team_name_for_matching alias = normalize_team_name_for_matching canonical) =
     ((canonical, alias) \<in> set
         [(''iran'', ''iran''),
          (''tottenham'', ''tottenham hotspur''),
          (''psg'', ''paris saint germain''),
          (''psg'', ''paris sg''),
          (''new york'', ''ny''),
          (''los angeles'', ''la''),
          (''st louis'', ''st. louis''),
          (''inter'', ''inter milan''),
          (''inter'', ''internazionale''),
          (''altach'', ''rheindorf altach''),
          (''altach'', ''scr altach'')])"
  unfolding TEAM_ALIASES_def by (simp add: norm_table)

theorem alias_closure_witness:
  "(''new york'', [''ny'']) \<in> set TEAM_ALIASES \<and> ''ny'' \<in> set [''ny''] \<and>
   normalize_team_name_for_matching ''ny'' = normalize_team_name_for_matching ''new york'' \<and>
   (''lions'', [''bc lions'', ''british columbia lions'']) \<in> set TEAM_ALIASES \<and>
   normalize_team_name_for_matching ''bc lions'' \<noteq> normalize_team_name_for_matching ''lions''"
proof -
  have m: "(''new york'', [''ny'']) \<in> set TEAM_ALIASES"
    "(''lions'', [''bc lions'', ''british columbia lions'']) \<in> set TEAM_ALIASES"
    by (simp_all add: TEAM_ALIASES_def)
  from alias_closure m(1) have
    "\<forall>alias \<in> set [''ny''].
     (normalize_team_name_for_matching alias = normalize_team_name_for_matching ''new york'') =
     ((''new york'', alias) \<in> set
         [(''iran'', ''iran''),
          (''tottenham'', ''tottenham hotspur''),
          (''psg'', ''paris saint germain''),
          (''psg'', ''paris sg''),
          (''new york'', ''ny''),
          (''los angeles'', ''la''),
          (''st louis'', ''st. louis''),
          (''inter'', ''inter milan''),
          (''inter'', ''internazionale''),
          (''altach'', ''rheindorf altach''),
          (''altach'', ''scr altach'')])"
    by fast
  then have 1: "normalize_team_name_for_matching ''ny'' = normalize_team_name_for_matching ''new york''"
    by simp
  from alias_closure m(2) have
    "\<forall>alias \<in> set [''bc lions'', ''british columbia lions''].
     (normalize_team_name_for_matching alias = normalize_team_name_for_matching ''lions'') =
     ((''lions'', alias) \<in> set
         [(''iran'', ''iran''),
          (''tottenham'', ''tottenham hotspur''),
          (''psg'', ''paris saint germain''),
          (''psg'', ''paris sg''),
          (''new york'', ''ny''),
          (''los angeles'', ''la''),
          (''st louis'', ''st. louis''),
          (''inter'', ''inter milan''),
          (''inter'', ''internazionale''),
          (''altach'', ''rheindorf altach''),
          (''altach'', ''scr altach'')])"
    by fast
  then have 2: "normalize_team_name_for_matching ''bc lions'' \<noteq> normalize_team_name_for_matching ''lions''"
    by simp
  from m 1 2 show ?thesis by simp
qed

text \<open>
  The claim as stated fails for the pair it names itself: \<^verbatim>\<open>czechia\<close> is an alias of
  \<^verbatim>\<open>czech republic\<close>, and each of the two names is normalised to itself.
\<close>

theorem alias_closure_counterexample:
  "(''czech republic'', [''czechia'']) \<in> set TEAM_ALIASES \<and>
   normalize_team_name_for_matching ''czechia'' = ''czechia'' \<and>
   normalize_team_name_for_matching ''czech republic'' = ''czech republic'' \<and>
   normalize_team_name_for_matching ''czechia'' \<noteq> normalize_team_name_for_matching ''czech republic''"
  by (simp add: TEAM_ALIASES_def norm_czechia norm_czech_republic)

subsection \<open>Team names: normalising twice\<close>

























subsection \<open>Matching: every event and every game at most once\<close>














end
